(* ===== verification/Prelude.thy ===== *)
theory Prelude
  imports Main "HOL-Library.Word"
begin

text \<open>
  Shared vocabulary of the development: the machine integers of the Go program, the shape of a
  fallible result, and the generic facts on lists, maps and sums that the component theories use.

  Go's \<open>(T, error)\<close> results are sums: \<open>Inl e\<close> is a returned error, \<open>Inr v\<close> a value. A Go function
  that only returns an \<open>error\<close> gives \<open>e option\<close>, with \<open>None\<close> for \<open>nil\<close>.
\<close>

section \<open>Types\<close>

type_synonym byte = "8 word"
type_synonym bytes = "byte list"
type_synonym u16 = "16 word"
type_synonym u64 = "64 word"

section \<open>Collections of facts\<close>

text \<open>
  \<open>str_simps\<close> collects the rewrite rules of the string library, \<open>conn_simps\<close> the projections of the
  connection state machines, \<open>cfg_simps\<close> the evaluation rules for configuration stores.
\<close>

named_theorems str_simps
named_theorems conn_simps
named_theorems cfg_simps

section \<open>Results\<close>

text \<open>Sequencing of fallible steps: the first error is returned, as \<open>if err != nil { return err }\<close> does.\<close>

definition bind_res :: "'e + 'a \<Rightarrow> ('a \<Rightarrow> 'e + 'b) \<Rightarrow> 'e + 'b" where
  "bind_res r f = (case r of Inl e \<Rightarrow> Inl e | Inr v \<Rightarrow> f v)"

definition map_err :: "('e \<Rightarrow> 'f) \<Rightarrow> 'e + 'a \<Rightarrow> 'f + 'a" where
  "map_err g r = (case r of Inl e \<Rightarrow> Inl (g e) | Inr v \<Rightarrow> Inr v)"

lemma bind_res_Inl [simp]: "bind_res (Inl e) f = Inl e"
  and bind_res_Inr [simp]: "bind_res (Inr v) f = f v"
  by (simp_all add: bind_res_def)

lemma bind_res_eq_Inr: "bind_res r f = Inr w \<longleftrightarrow> (\<exists>v. r = Inr v \<and> f v = Inr w)"
  by (cases r) auto

lemma bind_res_eq_Inl: "bind_res r f = Inl e \<longleftrightarrow> r = Inl e \<or> (\<exists>v. r = Inr v \<and> f v = Inl e)"
  by (cases r) auto

lemma map_err_eq_Inl: "map_err g r = Inl e \<longleftrightarrow> (\<exists>d. r = Inl d \<and> e = g d)"
  by (cases r) (auto simp: map_err_def)

lemma map_err_Inl [simp]: "map_err g (Inl e) = Inl (g e)"
  and map_err_Inr [simp]: "map_err g (Inr v) = Inr v"
  by (simp_all add: map_err_def)

lemma map_err_eq_Inr [simp]: "map_err g r = Inr v \<longleftrightarrow> r = Inr v"
  by (cases r) auto

lemma isl_map_err [simp]: "isl (map_err g r) = isl r"
  by (cases r) auto

text \<open>
  A sequence of validation steps, each giving an error or nothing: the first error found is the
  result, in the order of the list.
\<close>

primrec first_error :: "'e option list \<Rightarrow> 'e option" where
  "first_error [] = None"
| "first_error (c # cs) = (case c of Some e \<Rightarrow> Some e | None \<Rightarrow> first_error cs)"

lemma first_error_append [simp]:
  "first_error (xs @ ys) =
     (case first_error xs of Some e \<Rightarrow> Some e | None \<Rightarrow> first_error ys)"
  by (induction xs) (simp_all split: option.split)

lemma first_error_None [simp]: "first_error cs = None \<longleftrightarrow> (\<forall>c \<in> set cs. c = None)"
  by (induction cs) (auto split: option.splits)

lemma first_error_Some_in: "first_error cs = Some e \<Longrightarrow> Some e \<in> set cs"
  by (induction cs) (auto split: option.splits)

section \<open>Lists and maps\<close>

lemma take_drop_prefix: "take n xs @ drop n xs = xs"
  by simp

lemma map_upd_dom_mono: "m k = Some v \<Longrightarrow> dom (m(k \<mapsto> w)) = dom m"
  by (auto simp: insert_absorb domI)

lemma length_concat_le_sum:
  "(\<And>x. x \<in> set xs \<Longrightarrow> length x \<le> n) \<Longrightarrow> length (concat xs) \<le> n * length xs"
  by (induction xs) (auto intro: add_mono)

section \<open>Bytes\<close>

lemma unat_byte_less: "unat (b :: byte) < 256"
  using unsigned_less [of b, where ?'a = nat] by simp

section \<open>Big-endian 16-bit words\<close>

text \<open>\<open>binary.BigEndian.AppendUint16\<close> and its inverse on two bytes.\<close>

definition AppendUint16 :: "bytes \<Rightarrow> u16 \<Rightarrow> bytes" where
  "AppendUint16 b v = b @ [ucast (drop_bit 8 v), ucast v]"

definition be16 :: "byte \<Rightarrow> byte \<Rightarrow> u16" where
  "be16 hi lo = word_of_nat (unat hi * 256 + unat lo)"

lemma length_AppendUint16 [simp]: "length (AppendUint16 b v) = length b + 2"
  by (simp add: AppendUint16_def)

lemma be16_split: "be16 (ucast (drop_bit 8 (v :: u16))) (ucast v) = v"
proof -
  have "unat v div 256 < 256"
    using unsigned_less [of v] by (simp add: div_less_iff_less_mult)
  then have hi: "unat (ucast (drop_bit 8 v) :: byte) = unat v div 256"
    by (simp add: unsigned_ucast_eq take_bit_eq_mod drop_bit_eq_div unat_div)
  have lo: "unat (ucast v :: byte) = unat v mod 256"
    by (simp add: unsigned_ucast_eq take_bit_eq_mod)
  show ?thesis
    by (simp add: be16_def hi lo)
qed

end
