(* ===== verification/Go_Strings.thy ===== *)
theory Go_Strings
  imports Prelude
begin

text \<open>
  The functions of Go's \<open>strings\<close> and \<open>fmt\<close> packages that the proxy calls, on byte strings
  (\<open>string\<close> is a list of bytes, as a Go string is). \<open>TrimSpace\<close> strips the UTF-8 encodings of all
  of Go's \<open>unicode.IsSpace\<close> runes; \<open>ToLower\<close> and \<open>EqualFold\<close> are stated on ASCII letters, which is
  what the keys, extensions and log levels they are applied to consist of.
\<close>

section \<open>Bytes of a string\<close>

text \<open>The conversions \<open>[]byte(s)\<close> and \<open>string(b)\<close>.\<close>

definition str_bytes :: "string \<Rightarrow> bytes" where
  "str_bytes s = map (\<lambda>c. word_of_nat (of_char c)) s"

definition bytes_str :: "bytes \<Rightarrow> string" where
  "bytes_str b = map (\<lambda>w. char_of (unat w)) b"

lemma bytes_str_str_bytes [simp]: "bytes_str (str_bytes s) = s"
proof -
  have "char_of (unat (word_of_nat (of_char c) :: byte)) = c" for c
    by (simp add: unat_of_nat)
  then show ?thesis by (simp add: bytes_str_def str_bytes_def o_def)
qed

lemma str_bytes_append [simp]: "str_bytes (s @ t) = str_bytes s @ str_bytes t"
  and length_str_bytes [simp]: "length (str_bytes s) = length s"
  and str_bytes_Nil_iff [simp]: "str_bytes s = [] \<longleftrightarrow> s = []"
  by (simp_all add: str_bytes_def)

lemma str_bytes_mem: "b \<in> set (str_bytes s) \<longleftrightarrow> char_of (unat b) \<in> set s"
proof
  assume "b \<in> set (str_bytes s)"
  then show "char_of (unat b) \<in> set s" by (auto simp: str_bytes_def unat_of_nat)
next
  assume "char_of (unat b) \<in> set s"
  then have "word_of_nat (of_char (char_of (unat b) :: char)) \<in> set (str_bytes s)"
    unfolding str_bytes_def set_map by (rule imageI)
  moreover have "unat b mod 256 = unat b" using unat_byte_less [of b] by simp
  ultimately show "b \<in> set (str_bytes s)" by simp
qed

section \<open>Prefixes and suffixes\<close>

definition HasPrefix :: "string \<Rightarrow> string \<Rightarrow> bool" where
  "HasPrefix s p \<longleftrightarrow> take (length p) s = p"

definition HasSuffix :: "string \<Rightarrow> string \<Rightarrow> bool" where
  "HasSuffix s p \<longleftrightarrow> length p \<le> length s \<and> drop (length s - length p) s = p"

definition TrimPrefix :: "string \<Rightarrow> string \<Rightarrow> string" where
  "TrimPrefix s p = (if HasPrefix s p then drop (length p) s else s)"

lemma HasPrefix_iff: "HasPrefix s p \<longleftrightarrow> (\<exists>t. s = p @ t)"
proof
  assume "HasPrefix s p"
  then have "s = p @ drop (length p) s"
    using append_take_drop_id [of "length p" s] by (simp add: HasPrefix_def)
  then show "\<exists>t. s = p @ t" ..
next
  assume "\<exists>t. s = p @ t"
  then show "HasPrefix s p" by (auto simp: HasPrefix_def)
qed

lemma HasSuffix_iff: "HasSuffix s p \<longleftrightarrow> (\<exists>t. s = t @ p)"
proof
  assume "HasSuffix s p"
  then have "s = take (length s - length p) s @ p"
    using append_take_drop_id [of "length s - length p" s] by (simp add: HasSuffix_def)
  then show "\<exists>t. s = t @ p" ..
next
  assume "\<exists>t. s = t @ p"
  then show "HasSuffix s p" by (auto simp: HasSuffix_def)
qed

lemma HasPrefix_append [simp]: "HasPrefix (p @ t) p"
  and TrimPrefix_append [simp]: "TrimPrefix (p @ t) p = t"
  by (simp_all add: HasPrefix_def TrimPrefix_def)

lemma HasSuffix_append [simp]: "HasSuffix (t @ p) p"
  by (simp add: HasSuffix_def)

lemma HasPrefix_Nil [simp]: "HasPrefix s [] = True" "HasPrefix [] (c # p) = False"
  and HasPrefix_Cons [simp]: "HasPrefix (d # s) (c # p) = (d = c \<and> HasPrefix s p)"
  by (auto simp: HasPrefix_def)

declare HasPrefix_Nil [code] HasPrefix_Cons [code]

section \<open>Splitting and joining at a separator character\<close>

fun Split :: "char \<Rightarrow> string \<Rightarrow> string list" where
  "Split c [] = [[]]"
| "Split c (x # xs) =
     (if x = c then [] # Split c xs
      else (case Split c xs of [] \<Rightarrow> [[x]] | p # ps \<Rightarrow> (x # p) # ps))"

fun Join :: "string \<Rightarrow> string list \<Rightarrow> string" where
  "Join sep [] = []"
| "Join sep [x] = x"
| "Join sep (x # y # zs) = x @ sep @ Join sep (y # zs)"

definition ReplaceChar :: "char \<Rightarrow> char \<Rightarrow> string \<Rightarrow> string" where
  "ReplaceChar a b s = map (\<lambda>c. if c = a then b else c) s"

lemma Split_not_Nil [simp]: "Split c s \<noteq> []"
  by (induction s) (auto split: list.splits)

lemma Split_no_sep: "c \<notin> set s \<Longrightarrow> Split c s = [s]"
  by (induction s) auto

lemma Split_append_sep: "c \<notin> set a \<Longrightarrow> Split c (a @ c # b) = a # Split c b"
  by (induction a) auto

lemma Split_pieces: "p \<in> set (Split c s) \<Longrightarrow> c \<notin> set p"
  by (induction s arbitrary: p) (auto split: list.splits if_splits)

lemma Join_Split: "Join [c] (Split c s) = s"
proof (induction s)
  case (Cons x s)
  then show ?case
    by (cases "Split c s") (auto simp: neq_Nil_conv split: list.splits, (case_tac list, auto)+)
qed simp

lemma Split_Join:
  "ps \<noteq> [] \<Longrightarrow> (\<And>p. p \<in> set ps \<Longrightarrow> c \<notin> set p) \<Longrightarrow> Split c (Join [c] ps) = ps"
  by (induction "[c]" ps rule: Join.induct) (auto simp: Split_no_sep Split_append_sep)

lemma ReplaceChar_inverse: "b \<notin> set s \<Longrightarrow> ReplaceChar b a (ReplaceChar a b s) = s"
  by (induction s) (auto simp: ReplaceChar_def)

section \<open>White space\<close>

text \<open>The runes of \<open>unicode.IsSpace\<close>, UTF-8 encoded.\<close>

definition space_runes :: "string list" where
  "space_runes =
     [[CHR 0x09], [CHR 0x0A], [CHR 0x0B], [CHR 0x0C], [CHR 0x0D], [CHR 0x20],
      [CHR 0xC2, CHR 0x85], [CHR 0xC2, CHR 0xA0], [CHR 0xE1, CHR 0x9A, CHR 0x80],
      [CHR 0xE2, CHR 0x80, CHR 0x80], [CHR 0xE2, CHR 0x80, CHR 0x81],
      [CHR 0xE2, CHR 0x80, CHR 0x82], [CHR 0xE2, CHR 0x80, CHR 0x83],
      [CHR 0xE2, CHR 0x80, CHR 0x84], [CHR 0xE2, CHR 0x80, CHR 0x85],
      [CHR 0xE2, CHR 0x80, CHR 0x86], [CHR 0xE2, CHR 0x80, CHR 0x87],
      [CHR 0xE2, CHR 0x80, CHR 0x88], [CHR 0xE2, CHR 0x80, CHR 0x89],
      [CHR 0xE2, CHR 0x80, CHR 0x8A], [CHR 0xE2, CHR 0x80, CHR 0xA8],
      [CHR 0xE2, CHR 0x80, CHR 0xA9], [CHR 0xE2, CHR 0x80, CHR 0xAF],
      [CHR 0xE2, CHR 0x81, CHR 0x9F], [CHR 0xE3, CHR 0x80, CHR 0x80]]"

lemma space_runes_nonempty: "e \<in> set space_runes \<Longrightarrow> e \<noteq> []"
  by (auto simp: space_runes_def)

lemma find_SomeD: "find P xs = Some x \<Longrightarrow> x \<in> set xs \<and> P x"
  by (induction xs) (auto split: if_splits)

lemma find_not_None: "x \<in> set xs \<Longrightarrow> P x \<Longrightarrow> find P xs \<noteq> None"
  by (auto simp: find_None_iff)

lemma find_space_rune: "find P space_runes = Some e \<Longrightarrow> e \<in> set space_runes \<and> P e \<and> e \<noteq> []"
  by (metis find_SomeD space_runes_nonempty)

function TrimLeftSpace :: "string \<Rightarrow> string" where
  "TrimLeftSpace s =
     (case find (HasPrefix s) space_runes of
        None \<Rightarrow> s | Some e \<Rightarrow> TrimLeftSpace (drop (length e) s))"
  by pat_completeness auto
termination
  by (relation "measure length") (auto dest!: find_space_rune simp: HasPrefix_iff)

function TrimRightSpace :: "string \<Rightarrow> string" where
  "TrimRightSpace s =
     (case find (HasSuffix s) space_runes of
        None \<Rightarrow> s | Some e \<Rightarrow> TrimRightSpace (take (length s - length e) s))"
  by pat_completeness auto
termination
  by (relation "measure length") (auto dest!: find_space_rune simp: HasSuffix_iff)

declare TrimLeftSpace.simps [simp del] TrimRightSpace.simps [simp del]

definition TrimSpace :: "string \<Rightarrow> string" where
  "TrimSpace s = TrimRightSpace (TrimLeftSpace s)"

text \<open>A printable ASCII character begins and ends no white-space rune.\<close>

definition is_graph :: "char \<Rightarrow> bool" where
  "is_graph c \<longleftrightarrow> 33 \<le> (of_char c :: nat) \<and> (of_char c :: nat) \<le> 126"

lemma space_runes_ends:
  "e \<in> set space_runes \<Longrightarrow> \<not> is_graph (hd e) \<and> \<not> is_graph (last e)"
  by (auto simp: space_runes_def is_graph_def)

lemma TrimLeftSpace_graph: "s = [] \<or> is_graph (hd s) \<Longrightarrow> TrimLeftSpace s = s"
proof -
  assume s: "s = [] \<or> is_graph (hd s)"
  have "find (HasPrefix s) space_runes = None"
  proof (rule ccontr)
    assume "find (HasPrefix s) space_runes \<noteq> None"
    then obtain e where "find (HasPrefix s) space_runes = Some e" by auto
    from find_space_rune [OF this] space_runes_ends [of e] s show False
      by (auto simp: HasPrefix_iff)
  qed
  then show ?thesis by (subst TrimLeftSpace.simps) simp
qed

lemma TrimRightSpace_graph: "s = [] \<or> is_graph (last s) \<Longrightarrow> TrimRightSpace s = s"
proof -
  assume s: "s = [] \<or> is_graph (last s)"
  have "find (HasSuffix s) space_runes = None"
  proof (rule ccontr)
    assume "find (HasSuffix s) space_runes \<noteq> None"
    then obtain e where "find (HasSuffix s) space_runes = Some e" by auto
    from find_space_rune [OF this] space_runes_ends [of e] s show False
      by (auto simp: HasSuffix_iff)
  qed
  then show ?thesis by (subst TrimRightSpace.simps) simp
qed

lemma TrimSpace_Nil [simp]: "TrimSpace [] = []"
  by (simp add: TrimSpace_def TrimLeftSpace_graph TrimRightSpace_graph)

lemma TrimSpace_graph: "is_graph (hd s) \<Longrightarrow> is_graph (last s) \<Longrightarrow> TrimSpace s = s"
  by (simp add: TrimSpace_def TrimLeftSpace_graph TrimRightSpace_graph)

lemma TrimLeftSpace_stop: "find (HasPrefix (TrimLeftSpace s)) space_runes = None"
  by (induction s rule: TrimLeftSpace.induct) (subst TrimLeftSpace.simps, auto split: option.split)

lemma TrimRightSpace_stop: "find (HasSuffix (TrimRightSpace s)) space_runes = None"
  by (induction s rule: TrimRightSpace.induct) (subst TrimRightSpace.simps, auto split: option.split)

lemma TrimRightSpace_prefix: "\<exists>t. s = TrimRightSpace s @ t"
proof (induction s rule: TrimRightSpace.induct)
  case (1 s)
  show ?case
  proof (cases "find (HasSuffix s) space_runes")
    case None
    then show ?thesis by (subst TrimRightSpace.simps) simp
  next
    case (Some e)
    let ?u = "take (length s - length e) s"
    from "1.IH" [OF Some] obtain t where "?u = TrimRightSpace ?u @ t" ..
    then have "s = TrimRightSpace ?u @ t @ drop (length s - length e) s"
      by (metis append.assoc append_take_drop_id)
    with Some show ?thesis by (auto simp: TrimRightSpace.simps [of s])
  qed
qed

lemma TrimSpace_idem: "TrimSpace (TrimSpace s) = TrimSpace s"
proof -
  let ?l = "TrimLeftSpace s" and ?t = "TrimSpace s"
  obtain u where u: "?l = ?t @ u"
    using TrimRightSpace_prefix [of ?l] by (auto simp: TrimSpace_def)
  have "find (HasPrefix ?t) space_runes = None"
    using TrimLeftSpace_stop [of s] u by (auto simp: find_None_iff HasPrefix_iff)
  then have "TrimLeftSpace ?t = ?t" by (subst TrimLeftSpace.simps) simp
  moreover have "TrimRightSpace ?t = ?t"
    using TrimRightSpace_stop [of ?l] by (subst TrimRightSpace.simps) (simp add: TrimSpace_def)
  ultimately show ?thesis by (simp add: TrimSpace_def [of ?t])
qed

section \<open>Letter case\<close>

definition lower_char :: "char \<Rightarrow> char" where
  "lower_char c =
     (if 65 \<le> (of_char c :: nat) \<and> (of_char c :: nat) \<le> 90 then char_of ((of_char c :: nat) + 32) else c)"

definition ToLower :: "string \<Rightarrow> string" where
  "ToLower s = map lower_char s"

definition upper_char :: "char \<Rightarrow> char" where
  "upper_char c =
     (if 97 \<le> (of_char c :: nat) \<and> (of_char c :: nat) \<le> 122 then char_of ((of_char c :: nat) - 32) else c)"

definition ToUpper :: "string \<Rightarrow> string" where
  "ToUpper s = map upper_char s"

definition EqualFold :: "string \<Rightarrow> string \<Rightarrow> bool" where
  "EqualFold s t \<longleftrightarrow> ToLower s = ToLower t"

section \<open>Decimal numbers\<close>

definition digit_char :: "nat \<Rightarrow> char" where
  "digit_char d = char_of (48 + d)"

definition is_digit :: "char \<Rightarrow> bool" where
  "is_digit c \<longleftrightarrow> 48 \<le> (of_char c :: nat) \<and> (of_char c :: nat) \<le> 57"

definition digit_val :: "char \<Rightarrow> nat" where
  "digit_val c = of_char c - 48"

text \<open>\<open>%d\<close> of a non-negative number, and of an \<open>int\<close>.\<close>

fun itoa :: "nat \<Rightarrow> string" where
  "itoa n = (if n < 10 then [digit_char n] else itoa (n div 10) @ [digit_char (n mod 10)])"

declare itoa.simps [simp del]

definition itoa_int :: "int \<Rightarrow> string" where
  "itoa_int i = (if i < 0 then CHR ''-'' # itoa (nat (- i)) else itoa (nat i))"

definition parse_digits :: "string \<Rightarrow> nat" where
  "parse_digits s = foldl (\<lambda>n c. 10 * n + digit_val c) 0 s"

definition parse_nat :: "string \<Rightarrow> nat option" where
  "parse_nat s = (if s \<noteq> [] \<and> list_all is_digit s then Some (parse_digits s) else None)"

lemma of_char_digit_char [simp]: "d < 10 \<Longrightarrow> of_char (digit_char d) = (48 + d :: nat)"
  by (simp add: digit_char_def)

lemma digit_char_digit [simp]: "d < 10 \<Longrightarrow> is_digit (digit_char d)" "d < 10 \<Longrightarrow> digit_val (digit_char d) = d"
  by (auto simp: is_digit_def digit_val_def)

lemma itoa_digits: "list_all is_digit (itoa n)" and itoa_not_Nil [simp]: "itoa n \<noteq> []"
  by (induction n rule: itoa.induct) (subst itoa.simps, simp)+

lemma parse_digits_itoa [simp]: "parse_digits (itoa n) = n"
proof (induction n rule: itoa.induct)
  case (1 n)
  show ?case
  proof (cases "n < 10")
    case True
    then show ?thesis by (subst itoa.simps) (simp add: parse_digits_def)
  next
    case False
    with "1" show ?thesis by (subst itoa.simps) (simp add: parse_digits_def)
  qed
qed

lemma parse_nat_itoa [simp]: "parse_nat (itoa n) = Some n"
  by (simp add: parse_nat_def itoa_digits)

lemma itoa_length: "n < 10 ^ k \<Longrightarrow> 0 < k \<Longrightarrow> length (itoa n) \<le> k"
proof (induction n arbitrary: k rule: itoa.induct)
  case (1 n)
  show ?case
  proof (cases "n < 10")
    case True
    with "1.prems" show ?thesis by (subst itoa.simps) simp
  next
    case False
    obtain j where k: "k = Suc j" using "1.prems" by (cases k) auto
    have "j \<noteq> 0" using False "1.prems" k by (intro notI) simp
    with k have j: "k = Suc j" "0 < j" by simp_all
    then have "n div 10 < 10 ^ j"
      using "1.prems" by (simp add: div_less_iff_less_mult mult.commute)
    with "1.IH" [OF False] j False show ?thesis by (subst itoa.simps) simp
  qed
qed

lemma itoa_inj: "itoa m = itoa n \<Longrightarrow> m = n"
  by (metis parse_digits_itoa)

lemma digit_not_graph_sep: "is_digit c \<Longrightarrow> c \<noteq> CHR '' '' \<and> c \<noteq> CHR ''.'' \<and> c \<noteq> CHR '':'' \<and> c \<noteq> CHR 0x0D"
  by (auto simp: is_digit_def)

lemma itoa_no_sep: "CHR '' '' \<notin> set (itoa n)" "CHR ''.'' \<notin> set (itoa n)" "CHR 0x0D \<notin> set (itoa n)"
  "CHR '':'' \<notin> set (itoa n)"
  using itoa_digits [of n] by (auto simp: list_all_iff is_digit_def)

lemmas str_lib [str_simps] = HasPrefix_def HasSuffix_def TrimPrefix_def

end
