(* ===== verification/Koanf.thy ===== *)
theory Koanf
  imports Go_Strings
begin

text \<open>
  The configuration store, \<open>github.com/knadh/koanf\<close>. It is a library outside the program, so the model
  takes its operations as a record of functions over an unknown store type; every definition that
  reads or loads configuration has such a record as an argument. \<open>koanf_ok\<close> states the documented
  behaviour the program relies on, and is a hypothesis exactly where it is used: values are found
  under their dotted paths, the typed getters depend on the value found, a loaded layer overrides
  what was there and leaves unrelated paths alone, and so does \<open>Set\<close>. \<open>flat_store\<close> is a reference
  store over partial maps that meets these laws, on which witnesses evaluate.
\<close>

text \<open>Go's \<open>interface{}\<close> values as the configuration uses them; \<open>COther\<close> stands for any other dynamic type.\<close>

datatype cval =
    CStr string
  | CBool bool
  | CInt int
  | CMap "(string \<times> cval) list"
  | CList "cval list"
  | COther string

type_synonym layer = "string \<rightharpoonup> cval"
type_synonym kerr = string

record 'k koanf =
  kNew :: 'k
  kGet :: "'k \<Rightarrow> string \<Rightarrow> cval option"
  kString :: "'k \<Rightarrow> string \<Rightarrow> string"
  kBool :: "'k \<Rightarrow> string \<Rightarrow> bool"
  kInt :: "'k \<Rightarrow> string \<Rightarrow> int"
  kSet :: "'k \<Rightarrow> string \<Rightarrow> cval \<Rightarrow> kerr + 'k"
  kMerge :: "'k \<Rightarrow> layer \<Rightarrow> kerr + 'k"

text \<open>Two dotted paths touch each other when one is the other or lies below it.\<close>

definition related :: "string \<Rightarrow> string \<Rightarrow> bool" where
  "related a b \<longleftrightarrow> a = b \<or> HasPrefix a (b @ ''.'') \<or> HasPrefix b (a @ ''.'')"

definition koanf_get_ok :: "'k koanf \<Rightarrow> bool" where
  "koanf_get_ok K \<longleftrightarrow>
     (\<forall>k p. kGet K k p = None \<longrightarrow> kString K k p = '''' \<and> \<not> kBool K k p \<and> kInt K k p = 0)
     \<and> (\<forall>k p s. kGet K k p = Some (CStr s) \<longrightarrow> kString K k p = s)
     \<and> (\<forall>k p b. kGet K k p = Some (CBool b) \<longrightarrow> kBool K k p = b)
     \<and> (\<forall>k p i. kGet K k p = Some (CInt i) \<longrightarrow> kInt K k p = i)
     \<and> (\<forall>k k' p. kGet K k p = kGet K k' p \<longrightarrow>
           kString K k p = kString K k' p \<and> kBool K k p = kBool K k' p \<and> kInt K k p = kInt K k' p)"

definition koanf_merge_ok :: "'k koanf \<Rightarrow> bool" where
  "koanf_merge_ok K \<longleftrightarrow>
     (\<forall>k l. \<exists>k'. kMerge K k l = Inr k')
     \<and> (\<forall>k l k' p. kMerge K k l = Inr k' \<longrightarrow>
        (\<forall>v. l p = Some v \<longrightarrow> (\<forall>q \<in> dom l. q \<noteq> p \<longrightarrow> \<not> related q p) \<longrightarrow> kGet K k' p = Some v)
        \<and> ((\<forall>q \<in> dom l. \<not> related q p) \<longrightarrow> kGet K k' p = kGet K k p))"

definition koanf_set_ok :: "'k koanf \<Rightarrow> bool" where
  "koanf_set_ok K \<longleftrightarrow>
     (\<forall>k p v k'. kSet K k p v = Inr k' \<longrightarrow>
        kGet K k' p = Some v \<and> (\<forall>q. \<not> related p q \<longrightarrow> kGet K k' q = kGet K k q))"

definition koanf_ok :: "'k koanf \<Rightarrow> bool" where
  "koanf_ok K \<longleftrightarrow>
     koanf_get_ok K \<and> koanf_merge_ok K \<and> koanf_set_ok K \<and> (\<forall>p. kGet K (kNew K) p = None)"

lemma koanf_okD:
  assumes "koanf_ok K"
  shows "koanf_get_ok K" "koanf_merge_ok K" "koanf_set_ok K" "kGet K (kNew K) p = None"
  using assms by (simp_all add: koanf_ok_def)

lemma kString_None: "koanf_get_ok K \<Longrightarrow> kGet K k p = None \<Longrightarrow> kString K k p = ''''"
  and kBool_None: "koanf_get_ok K \<Longrightarrow> kGet K k p = None \<Longrightarrow> \<not> kBool K k p"
  and kInt_None: "koanf_get_ok K \<Longrightarrow> kGet K k p = None \<Longrightarrow> kInt K k p = 0"
  and kString_CStr: "koanf_get_ok K \<Longrightarrow> kGet K k p = Some (CStr s) \<Longrightarrow> kString K k p = s"
  and kBool_CBool: "koanf_get_ok K \<Longrightarrow> kGet K k p = Some (CBool b) \<Longrightarrow> kBool K k p = b"
  and kInt_CInt: "koanf_get_ok K \<Longrightarrow> kGet K k p = Some (CInt i) \<Longrightarrow> kInt K k p = i"
  by (auto simp: koanf_get_ok_def)

lemma getters_cong:
  assumes "koanf_get_ok K" "kGet K k p = kGet K k' p"
  shows "kString K k p = kString K k' p" "kBool K k p = kBool K k' p" "kInt K k p = kInt K k' p"
  using assms unfolding koanf_get_ok_def by blast+

lemma kMerge_total: "koanf_merge_ok K \<Longrightarrow> \<exists>k'. kMerge K k l = Inr k'"
  unfolding koanf_merge_ok_def by blast

lemma kMerge_hit:
  "koanf_merge_ok K \<Longrightarrow> kMerge K k l = Inr k' \<Longrightarrow> l p = Some v \<Longrightarrow>
   \<forall>q \<in> dom l. q \<noteq> p \<longrightarrow> \<not> related q p \<Longrightarrow> kGet K k' p = Some v"
  unfolding koanf_merge_ok_def by blast

lemma kMerge_miss:
  "koanf_merge_ok K \<Longrightarrow> kMerge K k l = Inr k' \<Longrightarrow> \<forall>q \<in> dom l. \<not> related q p \<Longrightarrow> kGet K k' p = kGet K k p"
  unfolding koanf_merge_ok_def by blast

lemma kSet_hit: "koanf_set_ok K \<Longrightarrow> kSet K k p v = Inr k' \<Longrightarrow> kGet K k' p = Some v"
  and kSet_miss: "koanf_set_ok K \<Longrightarrow> kSet K k p v = Inr k' \<Longrightarrow> \<not> related p q \<Longrightarrow> kGet K k' q = kGet K k q"
  unfolding koanf_set_ok_def by blast+

lemma related_simps [cfg_simps]: "related a b \<longleftrightarrow> a = b \<or> HasPrefix a (b @ ''.'') \<or> HasPrefix b (a @ ''.'')"
  by (simp add: related_def)

lemma related_refl [simp]: "related a a"
  by (simp add: related_def)

section \<open>A reference store\<close>

fun cval_string :: "cval option \<Rightarrow> string" where
  "cval_string (Some (CStr s)) = s"
| "cval_string (Some (CBool b)) = (if b then ''true'' else ''false'')"
| "cval_string (Some (CInt i)) = itoa_int i"
| "cval_string _ = ''''"

fun cval_bool :: "cval option \<Rightarrow> bool" where
  "cval_bool (Some (CBool b)) = b"
| "cval_bool (Some (CStr s)) = (s \<in> {''true'', ''1'', ''t'', ''T'', ''TRUE'', ''True''})"
| "cval_bool _ = False"

fun cval_int :: "cval option \<Rightarrow> int" where
  "cval_int (Some (CInt i)) = i"
| "cval_int (Some (CStr s)) = (case parse_nat s of Some n \<Rightarrow> int n | None \<Rightarrow> 0)"
| "cval_int _ = 0"

definition flat_store :: "layer koanf" where
  "flat_store = \<lparr>kNew = Map.empty, kGet = (\<lambda>m p. m p), kString = (\<lambda>m p. cval_string (m p)),
     kBool = (\<lambda>m p. cval_bool (m p)), kInt = (\<lambda>m p. cval_int (m p)),
     kSet = (\<lambda>m p v. Inr (m(p \<mapsto> v))), kMerge = (\<lambda>m l. Inr (m ++ l))\<rparr>"

lemma flat_store_simps [cfg_simps]:
  "kNew flat_store = Map.empty" "kGet flat_store m p = m p" "kString flat_store m p = cval_string (m p)"
  "kBool flat_store m p = cval_bool (m p)" "kInt flat_store m p = cval_int (m p)"
  "kSet flat_store m p v = Inr (m(p \<mapsto> v))" "kMerge flat_store m l = Inr (m ++ l)"
  by (simp_all add: flat_store_def)

lemma flat_store_ok: "koanf_ok flat_store"
proof -
  have "koanf_merge_ok flat_store"
    unfolding koanf_merge_ok_def flat_store_simps
  proof (intro allI impI conjI exI)
    show "Inr (k ++ l) = (Inr (k ++ l) :: kerr + layer)" for k l :: layer ..
  next
    fix k l k' :: layer and p v
    assume k': "Inr (k ++ l) = (Inr k' :: kerr + layer)"
    then show "k' p = Some v" if "l p = Some v" using that by auto
    show "k' p = k p" if "\<forall>q \<in> dom l. \<not> related q p"
    proof -
      have "l p = None" using that related_refl [of p] by (metis domIff)
      then show ?thesis using k' by (auto simp: map_add_def)
    qed
  qed
  then show ?thesis
    by (auto simp: koanf_ok_def koanf_get_ok_def koanf_set_ok_def flat_store_simps)
qed

end
