(* ===== verification/Config_Tables.thy ===== *)
theory Config_Tables
  imports Koanf "HOL-Library.List_Lexorder" "HOL-Library.Char_ord"
begin

text \<open>
  \<open>internal/config\<close>, the tables and what is computed from them: \<open>flagDesc\<close>, \<open>helpGroups\<close> and
  \<open>DefaultConfig\<close>, the registration of a command-line flag for every leaf of the defaults, the two help
  printers, and \<open>CombineMaps\<close>. A Go map is an association list with distinct keys in some order of
  iteration; output is the text printed.
\<close>

section \<open>Tables\<close>

definition flagDesc :: "(string \<times> string) list" where
  "flagDesc =
    [(''config'', ''Path to config file or directory''),
     (''validate'', ''Validate configuration and print resolved values, then exit''),
     (''server-addr'', ''Listen address (host:port)''),
     (''server-type'', ''Proxy mode: tcp, http, or https''),
     (''server-healthcheck'', ''Health check path (HTTP mode only, e.g. /healthz)''),
     (''server-maxconns'', ''Max concurrent connections (0 = unlimited)''),
     (''server-trustxff'', ''Trust and append inbound X-Forwarded-For (only enable behind a trusted upstream proxy)''),
     (''server-timeouts-read'', ''Read timeout per connection (e.g. 30s, 5m)''),
     (''server-timeouts-write'', ''Write timeout per connection (e.g. 30s, 5m)''),
     (''server-timeouts-idle'', ''Idle timeout before closing connection (e.g. 5m, 1h)''),
     (''server-timeouts-handshake'', ''Client TLS handshake timeout, TLS mode only (e.g. 10s)''),
     (''server-tls-cert'', ''Path to server TLS certificate''),
     (''server-tls-key'', ''Path to server TLS private key''),
     (''server-tls-ca'', ''Path to CA cert for client verification''),
     (''server-tls-require'', ''Require client certificates''),
     (''server-tls-autoreload'', ''Watch cert/key files and reload automatically on change (fsnotify)''),
     (''server-tls-verify'', ''Require and verify client certificates''),
     (''server-tls-minversion'', ''Minimum TLS version (1.0, 1.1, 1.2, 1.3)''),
     (''server-tls-maxversion'', ''Maximum TLS version (1.0, 1.1, 1.2, 1.3)''),
     (''server-tls-ciphersuites'', ''Comma-separated TLS cipher suite names''),
     (''server-tls-alpn'', ''Comma-separated ALPN protocols (e.g. h2,http/1.1)''),
     (''server-tls-letsencrypt-enable'', ''Enable automatic Let's Encrypt certificates''),
     (''server-tls-letsencrypt-domain'', ''Domain for the Let's Encrypt certificate''),
     (''server-tls-letsencrypt-cachedir'', ''Certificate cache directory''),
     (''server-http2'', ''Enable HTTP/2 support (http/https modes only)''),
     (''remote-addr'', ''Backend address (host:port for TCP, URL for HTTP)''),
     (''remote-proxyprotocol'', ''Send HAProxy PROXY protocol header to backend: '' @ [CHR 0x27, CHR 0x27] @ '', v1, or v2 (TCP mode only)''),
     (''remote-timeouts-dial'', ''Backend dial (connection establishment) timeout (e.g. 10s)''),
     (''remote-tls-enable'', ''Use TLS when connecting to the backend''),
     (''remote-tls-verify'', ''Verify backend TLS certificate''),
     (''remote-tls-cert'', ''Client certificate for backend mTLS''),
     (''remote-tls-key'', ''Client key for backend mTLS''),
     (''remote-tls-ca'', ''Custom CA cert for backend verification''),
     (''remote-tls-sysroots'', ''Include system CA roots for backend''),
     (''remote-tls-minversion'', ''Minimum TLS version for backend''),
     (''remote-tls-maxversion'', ''Maximum TLS version for backend''),
     (''remote-tls-ciphersuites'', ''Comma-separated cipher suites for backend''),
     (''remote-tls-alpn'', ''Comma-separated ALPN protocols for backend''),
     (''log-level'', ''Log level: debug, info, warn, error''),
     (''log-contents'', ''Log proxied data content (use with caution)''),
     (''log-destination'', ''Log output: stdout, file path, or syslog://address''),
     (''metrics-enable'', ''Enable Prometheus metrics endpoint''),
     (''metrics-addr'', ''Metrics server listen address (host:port)''),
     (''metrics-path'', ''Metrics endpoint path'')]"

text \<open>\<open>flagDesc[name]\<close>: a missing key gives the empty string.\<close>

definition desc_of :: "string \<Rightarrow> string" where
  "desc_of name = (case map_of flagDesc name of Some d \<Rightarrow> d | None \<Rightarrow> '''')"

record flagGroup =
  group_name :: string
  flags :: "string list"

definition helpGroups :: "flagGroup list" where
  "helpGroups =
    [\<lparr>group_name = ''General'', flags =
       [''config'', ''validate'']\<rparr>,
     \<lparr>group_name = ''Server'', flags =
       [''server-addr'', ''server-type'', ''server-healthcheck'',
        ''server-maxconns'', ''server-trustxff'', ''server-http2'',
        ''server-timeouts-read'', ''server-timeouts-write'', ''server-timeouts-idle'',
        ''server-timeouts-handshake'']\<rparr>,
     \<lparr>group_name = ''Server TLS'', flags =
       [''server-tls-cert'', ''server-tls-key'', ''server-tls-ca'',
        ''server-tls-require'', ''server-tls-verify'', ''server-tls-autoreload'',
        ''server-tls-minversion'', ''server-tls-maxversion'', ''server-tls-ciphersuites'',
        ''server-tls-alpn'', ''server-tls-letsencrypt-enable'', ''server-tls-letsencrypt-domain'',
        ''server-tls-letsencrypt-cachedir'']\<rparr>,
     \<lparr>group_name = ''Remote'', flags =
       [''remote-addr'', ''remote-proxyprotocol'', ''remote-timeouts-dial'',
        ''remote-tls-enable'', ''remote-tls-verify'', ''remote-tls-cert'',
        ''remote-tls-key'', ''remote-tls-ca'', ''remote-tls-sysroots'',
        ''remote-tls-minversion'', ''remote-tls-maxversion'', ''remote-tls-ciphersuites'',
        ''remote-tls-alpn'']\<rparr>,
     \<lparr>group_name = ''Logging'', flags =
       [''log-level'', ''log-contents'', ''log-destination'']\<rparr>,
     \<lparr>group_name = ''Metrics'', flags =
       [''metrics-enable'', ''metrics-addr'', ''metrics-path'']\<rparr>]"

definition DefaultConfig :: "(string \<times> cval) list" where
  "DefaultConfig =
    [(''server'', CMap
       [(''addr'', CStr '':9898''), (''type'', CStr ''tcp''), (''healthcheck'', CStr ''''), (''maxconns'', CInt 0),
        (''http2'', CBool False), (''trustxff'', CBool False),
        (''timeouts'', CMap
          [(''read'', CStr ''0s''), (''write'', CStr ''0s''), (''idle'', CStr ''300s''), (''handshake'', CStr ''10s'')]),
        (''tls'', CMap
          [(''verify'', CBool False), (''require'', CBool False), (''autoreload'', CBool False),
           (''cert'', CStr ''''), (''key'', CStr ''''), (''ca'', CStr ''''), (''minversion'', CStr ''''),
           (''maxversion'', CStr ''''), (''ciphersuites'', CStr ''''), (''alpn'', CStr ''''),
           (''letsencrypt'', CMap
             [(''enable'', CBool False), (''domain'', CStr ''''), (''cachedir'', CStr ''/tmp/letsencrypt'')])])]),
     (''remote'', CMap
       [(''addr'', CStr ''''), (''proxyprotocol'', CStr ''''), (''timeouts'', CMap [(''dial'', CStr ''10s'')]),
        (''tls'', CMap
          [(''enable'', CBool True), (''verify'', CBool True), (''cert'', CStr ''''), (''key'', CStr ''''),
           (''ca'', CStr ''''), (''sysroots'', CBool True), (''minversion'', CStr ''''), (''maxversion'', CStr ''''),
           (''ciphersuites'', CStr ''''), (''alpn'', CStr '''')])]),
     (''log'', CMap [(''level'', CStr ''info''), (''contents'', CBool False), (''destination'', CStr ''stdout'')]),
     (''validate'', CBool False),
     (''metrics'', CMap [(''enable'', CBool False), (''addr'', CStr '':9090''), (''path'', CStr ''/metrics'')])]"

section \<open>Flags\<close>

text \<open>A registered flag: its name, the default as \<open>flag\<close> prints it (\<open>DefValue\<close>), its description.\<close>

datatype flag_kind = StringFlag | BoolFlag | IntFlag

record flag =
  flagName :: string
  kind :: flag_kind
  DefValue :: string
  Usage :: string

definition bool_string :: "bool \<Rightarrow> string" where
  "bool_string b = (if b then ''true'' else ''false'')"

text \<open>\<open>flag.String\<close>, \<open>flag.Bool\<close>, \<open>flag.Int\<close>: defining a name twice panics (\<open>None\<close>).\<close>

definition flag_define :: "flag \<Rightarrow> flag list \<Rightarrow> flag list option" where
  "flag_define f fs = (if flagName f \<in> flagName ` set fs then None else Some (fs @ [f]))"

fun leaf_flag :: "string \<Rightarrow> cval \<Rightarrow> flag option" where
  "leaf_flag n (CStr v) = Some \<lparr>flagName = n, kind = StringFlag, DefValue = v, Usage = desc_of n\<rparr>"
| "leaf_flag n (CBool v) = Some \<lparr>flagName = n, kind = BoolFlag, DefValue = bool_string v, Usage = desc_of n\<rparr>"
| "leaf_flag n (CInt v) = Some \<lparr>flagName = n, kind = IntFlag, DefValue = itoa_int v, Usage = desc_of n\<rparr>"
| "leaf_flag n _ = None"

definition flag_name :: "string \<Rightarrow> string \<Rightarrow> string" where
  "flag_name pre key = (if pre \<noteq> '''' then pre @ ''-'' @ key else key)"

fun RegisterFlags :: "(string \<times> cval) list \<Rightarrow> string \<Rightarrow> flag list \<Rightarrow> flag list option" where
  "RegisterFlags [] pre fs = Some fs"
| "RegisterFlags ((key, val) # m) pre fs =
     Option.bind
       (case val of
          CMap v \<Rightarrow> RegisterFlags v (flag_name pre key) fs
        | _ \<Rightarrow> (case leaf_flag (flag_name pre key) val of
                  Some f \<Rightarrow> flag_define f fs
                | None \<Rightarrow> Some fs))
       (RegisterFlags m pre)"

text \<open>\<open>LoadFlags\<close> registers the defaults and then \<open>-config\<close>.\<close>

definition register_all :: "flag list option" where
  "register_all =
     Option.bind (RegisterFlags DefaultConfig '''' [])
       (flag_define \<lparr>flagName = ''config'', kind = StringFlag, DefValue = '''', Usage = desc_of ''config''\<rparr>)"

section \<open>Help output\<close>

definition pad_right :: "nat \<Rightarrow> string \<Rightarrow> string" where
  "pad_right n s = s @ replicate (n - length s) (CHR '' '')"

definition newline :: string where
  "newline = [CHR 0x0A]"

definition help_line :: "flag list \<Rightarrow> string \<Rightarrow> string" where
  "help_line registered name =
     (case find (\<lambda>f. flagName f = name) registered of
        Some f \<Rightarrow>
          let defVal = (if DefValue f = '''' then [CHR 0x22, CHR 0x22] else DefValue f)
          in ''    -'' @ pad_right 38 name @ '' '' @ desc_of name @ '' (default: '' @ defVal @ '')'' @ newline
      | None \<Rightarrow> ''    -'' @ pad_right 38 name @ '' '' @ desc_of name @ newline)"

definition printGroupedHelp :: "flag list \<Rightarrow> string" where
  "printGroupedHelp registered =
     concat (map (\<lambda>g. ''  '' @ group_name g @ '':'' @ newline @ concat (map (help_line registered) (flags g)) @ newline)
       helpGroups)"

definition usage_text :: "string \<Rightarrow> string \<Rightarrow> flag list \<Rightarrow> string" where
  "usage_text appVersion commitID registered =
     ''tlspxy '' @ [CHR 0xE2, CHR 0x80, CHR 0x94] @ '' TLS-terminating TCP and HTTP reverse proxy'' @ newline @ newline
     @ (if appVersion \<noteq> '''' \<or> commitID \<noteq> ''''
        then ''  Version:  '' @ appVersion @ '' (commit '' @ commitID @ '')'' @ newline @ newline else '''')
     @ ''Usage:'' @ newline @ ''  tlspxy [OPTIONS]'' @ newline @ newline
     @ printGroupedHelp registered
     @ ''Configuration is loaded in layers (each overrides the previous):'' @ newline
     @ ''  1. Built-in defaults'' @ newline
     @ ''  2. YAML files in working directory (auto-discovered)'' @ newline
     @ ''  3. YAML files/directories specified via -config'' @ newline
     @ ''  4. Environment variables (TLSPXY_ prefix)'' @ newline
     @ ''  5. CLI flags'' @ newline @ newline
     @ ''See https://github.com/colebrumley/tlspxy for documentation.'' @ newline"

lemma cmap_size: "(k, CMap v) \<in> set m \<Longrightarrow> size_list (size_prod (\<lambda>_. 0) size) v < size_list (size_prod (\<lambda>_. 0) size) m"
  by (induction m) auto

function PrettyPrintFlagMap :: "(string \<times> cval) list \<Rightarrow> string list \<Rightarrow> string" where
  "PrettyPrintFlagMap m pre =
     concat (map (\<lambda>(k, v).
       (let flagName = (if pre \<noteq> [] then ''-'' @ Join ''-'' pre @ ''-'' @ k else ''-'' @ k) in
        case v of
          CStr v \<Rightarrow> ''  '' @ flagName @ ''='' @ v @ newline
        | CInt v \<Rightarrow> ''  '' @ flagName @ ''='' @ itoa_int v @ newline
        | CBool v \<Rightarrow> ''  '' @ flagName @ ''='' @ bool_string v @ newline
        | CMap v \<Rightarrow> PrettyPrintFlagMap v (pre @ [k])
        | _ \<Rightarrow> '''')) (sort_key fst m))"
  by pat_completeness auto
termination
  by (relation "measure (\<lambda>(m, pre). size_list (size_prod (\<lambda>_. 0) size) m)") (auto simp: cmap_size)

section \<open>Leaves\<close>

text \<open>The leaves of a nested map with the path that leads to each.\<close>

fun leaf_paths :: "(string \<times> cval) list \<Rightarrow> string list \<Rightarrow> (string list \<times> cval) list" where
  "leaf_paths [] pre = []"
| "leaf_paths ((key, val) # m) pre =
     (case val of CMap v \<Rightarrow> leaf_paths v (pre @ [key]) | _ \<Rightarrow> [(pre @ [key], val)]) @ leaf_paths m pre"

text \<open>The flat layer that \<open>confmap\<close> loads for the defaults: dotted paths to values.\<close>

definition default_leaves :: "(string \<times> cval) list" where
  "default_leaves = map (\<lambda>(p, v). (Join ''.'' p, v)) (leaf_paths DefaultConfig [])"

definition default_layer :: layer where
  "default_layer = map_of default_leaves"

definition flag_key :: "string \<Rightarrow> string" where
  "flag_key name = ReplaceChar (CHR ''-'') (CHR ''.'') name"

end
