(* ===== verification/Go_Path.thy ===== *)
theory Go_Path
  imports Go_Strings
begin

text \<open>
  The functions of Go's \<open>path/filepath\<close> (on a Unix system) that the program calls. \<open>Clean\<close> is the lexical
  normalisation by components: empty and \<open>.\<close> components go away, \<open>..\<close> takes away the component before
  it, a \<open>..\<close> at the root goes away.
\<close>

definition IsAbs :: "string \<Rightarrow> bool" where
  "IsAbs p = HasPrefix p ''/''"

text \<open>One component pushed on the stack of components (last one first).\<close>

definition clean_push :: "bool \<Rightarrow> string \<Rightarrow> string list \<Rightarrow> string list" where
  "clean_push rooted c st =
     (if c = '''' \<or> c = ''.'' then st
      else if c = ''..'' then
        (case st of
           [] \<Rightarrow> if rooted then [] else [''..'']
         | t # rest \<Rightarrow> if t = ''..'' then ''..'' # st else rest)
      else c # st)"

definition clean_stack :: "bool \<Rightarrow> string \<Rightarrow> string list" where
  "clean_stack rooted p = fold (clean_push rooted) (Split (CHR ''/'') p) []"

definition unsplit :: "bool \<Rightarrow> string list \<Rightarrow> string" where
  "unsplit rooted st =
     (if st = [] then (if rooted then ''/'' else ''.'')
      else (if rooted then ''/'' else '''') @ Join ''/'' (rev st))"

definition Clean :: "string \<Rightarrow> string" where
  "Clean p = unsplit (IsAbs p) (clean_stack (IsAbs p) p)"

text \<open>\<open>filepath.Join(a, b)\<close>, \<open>Dir\<close>, \<open>Ext\<close>, \<open>Base\<close>.\<close>

definition PathJoin :: "string \<Rightarrow> string \<Rightarrow> string" where
  "PathJoin a b =
     (if a = '''' \<and> b = '''' then '''' else if a = '''' then Clean b else if b = '''' then Clean a
      else Clean (a @ ''/'' @ b))"

definition dir_part :: "string \<Rightarrow> string" where
  "dir_part p = rev (dropWhile (\<lambda>c. c \<noteq> CHR ''/'') (rev p))"

definition Dir :: "string \<Rightarrow> string" where
  "Dir p = Clean (dir_part p)"

definition base_part :: "string \<Rightarrow> string" where
  "base_part p = rev (takeWhile (\<lambda>c. c \<noteq> CHR ''/'') (rev p))"

definition Ext :: "string \<Rightarrow> string" where
  "Ext p =
     (let b = base_part p in
      if CHR ''.'' \<in> set b then ''.'' @ rev (takeWhile (\<lambda>c. c \<noteq> CHR ''.'') (rev b)) else '''')"

text \<open>\<open>filepath.Abs\<close> with the result of \<open>os.Getwd\<close>.\<close>

definition Abs :: "'e + string \<Rightarrow> string \<Rightarrow> 'e + string" where
  "Abs wd p = (if IsAbs p then Inr (Clean p) else map_sum (\<lambda>e. e) (\<lambda>d. PathJoin d p) wd)"

section \<open>Clean is idempotent\<close>

text \<open>A clean stack: real components above a run of \<open>..\<close>, the latter only when the path is relative.\<close>

definition clean_comp :: "string \<Rightarrow> bool" where
  "clean_comp c \<longleftrightarrow> c \<noteq> '''' \<and> c \<noteq> ''.'' \<and> CHR ''/'' \<notin> set c"

fun clean_st :: "bool \<Rightarrow> string list \<Rightarrow> bool" where
  "clean_st rooted [] = True"
| "clean_st rooted (c # st) =
     (clean_comp c \<and> clean_st rooted st \<and> (c = ''..'' \<longrightarrow> \<not> rooted \<and> (\<forall>t \<in> set st. t = ''..'')))"

lemma clean_st_push:
  assumes "CHR ''/'' \<notin> set c" "clean_st rooted st"
  shows "clean_st rooted (clean_push rooted c st)"
proof (cases "c = '''' \<or> c = ''.''")
  case True
  with assms show ?thesis by (auto simp: clean_push_def)
next
  case False
  show ?thesis
  proof (cases "c = ''..''")
    case up: True
    show ?thesis
    proof (cases st)
      case Nil
      with up show ?thesis by (simp add: clean_push_def clean_comp_def)
    next
      case (Cons t rest)
      with up assms(2) show ?thesis by (cases rooted; cases "t = ''..''") (simp_all add: clean_push_def)
    qed
  next
    case other: False
    with False assms show ?thesis by (simp add: clean_push_def clean_comp_def)
  qed
qed

lemma clean_st_fold:
  "\<forall>c \<in> set cs. CHR ''/'' \<notin> set c \<Longrightarrow> clean_st rooted st \<Longrightarrow> clean_st rooted (fold (clean_push rooted) cs st)"
  by (induction cs arbitrary: st) (auto simp: clean_st_push)

lemma clean_stack_clean: "clean_st rooted (clean_stack rooted p)"
  unfolding clean_stack_def by (rule clean_st_fold) (auto dest: Split_pieces)

lemma clean_push_clean: "clean_st rooted (c # st) \<Longrightarrow> clean_push rooted c st = c # st"
  by (cases "c = ''..''"; cases st) (simp_all add: clean_push_def clean_comp_def)

lemma clean_st_append: "clean_st rooted (a @ b) \<Longrightarrow> clean_st rooted b"
  by (induction a) auto

lemma fold_push_clean: "clean_st rooted (rev cs @ st) \<Longrightarrow> fold (clean_push rooted) cs st = rev cs @ st"
proof (induction cs arbitrary: st)
  case (Cons c cs)
  then have "clean_push rooted c st = c # st"
    using clean_st_append [of rooted "rev cs" "c # st"] by (auto intro: clean_push_clean)
  with Cons show ?case by simp
qed simp

lemma clean_st_comps: "clean_st rooted st \<Longrightarrow> c \<in> set st \<Longrightarrow> clean_comp c"
  by (induction st) auto

lemma clean_stack_unsplit:
  assumes "clean_st rooted st"
  shows "clean_stack rooted (unsplit rooted st) = st"
proof (cases "st = []")
  case True
  then show ?thesis
    by (cases rooted) (simp_all add: clean_stack_def unsplit_def clean_push_def)
next
  case False
  have comps: "CHR ''/'' \<notin> set c" if "c \<in> set (rev st)" for c
    using that clean_st_comps [OF assms] by (auto simp: clean_comp_def)
  then have split: "Split (CHR ''/'') (Join ''/'' (rev st)) = rev st"
    using False by (intro Split_Join) auto
  have "fold (clean_push rooted) (rev st) [] = st"
    using fold_push_clean [of rooted "rev st" "[]"] assms by simp
  with split False show ?thesis
    by (cases rooted) (simp_all add: clean_stack_def unsplit_def clean_push_def)
qed

lemma IsAbs_unsplit:
  assumes "clean_st rooted st"
  shows "IsAbs (unsplit rooted st) = rooted"
proof (cases "rooted \<or> st = []")
  case True
  then show ?thesis by (auto simp: IsAbs_def unsplit_def)
next
  case False
  then obtain c cs where rev: "rev st = c # cs" by (cases "rev st") auto
  then have "clean_comp c" using clean_st_comps [OF assms, of c] by (metis list.set_intros(1) set_rev)
  then obtain x c' where "c = x # c'" "x \<noteq> CHR ''/''" by (cases c) (auto simp: clean_comp_def)
  with rev False show ?thesis by (cases cs) (simp_all add: IsAbs_def unsplit_def)
qed

lemma Clean_idem: "Clean (Clean p) = Clean p"
  by (simp add: Clean_def IsAbs_unsplit clean_stack_unsplit clean_stack_clean)

lemma Clean_IsAbs: "IsAbs (Clean p) = IsAbs p"
  by (simp add: Clean_def IsAbs_unsplit clean_stack_clean)

end
