(* ===== verification/Config_Load.thy ===== *)
theory Config_Load
  imports Config_Tables Go_Path
begin

text \<open>
  \<open>internal/config\<close>, loading: the \<open>-config\<close> arguments, the YAML files of the working directory and of the
  extra paths, the environment variables and the command-line flags, in the order \<open>main\<close> loads them.
  The operating system and the koanf providers are arguments: \<open>os_env\<close> has the outcomes of the system
  calls, \<open>providers\<close> what the file, environment and flag providers produce. The store is mutated through a
  pointer, so a step that fails half-way keeps what it has loaded: loading returns the store and an error.
\<close>

record os_env =
  Getwd :: string
  ReadDir :: "string \<Rightarrow> kerr + (string \<times> bool) list"
  Stat :: "string \<Rightarrow> kerr + bool"
  OpenRead :: "string \<Rightarrow> string option"

type_synonym flag_values = "(string \<times> string \<times> bool) list"

record 'k providers =
  yamlFile :: "string \<Rightarrow> kerr + layer"
  envProvider :: "string \<Rightarrow> (string \<Rightarrow> string) \<Rightarrow> kerr + layer"
  flagProvider :: "flag_values \<Rightarrow> (string \<Rightarrow> string \<Rightarrow> string \<times> string) \<Rightarrow> 'k \<Rightarrow> kerr + layer"

section \<open>The -config arguments\<close>

fun ParseConfigPaths :: "string list \<Rightarrow> string list" where
  "ParseConfigPaths [] = []"
| "ParseConfigPaths (arg # args) =
     (if arg = ''-config'' \<or> arg = ''--config'' then
        (case args of
           [] \<Rightarrow> []
         | p # args' \<Rightarrow> p # ParseConfigPaths args')
      else if HasPrefix arg ''-config='' then TrimPrefix arg ''-config='' # ParseConfigPaths args
      else if HasPrefix arg ''--config='' then TrimPrefix arg ''--config='' # ParseConfigPaths args
      else ParseConfigPaths args)"

section \<open>Files\<close>

text \<open>\<open>k.Load\<close>: the provider's error, or the layer merged into the store.\<close>

definition load_layer :: "'k koanf \<Rightarrow> 'k \<Rightarrow> kerr + layer \<Rightarrow> 'k \<times> kerr option" where
  "load_layer K k r =
     (case r of
        Inl e \<Rightarrow> (k, Some e)
      | Inr l \<Rightarrow> (case kMerge K k l of Inl e \<Rightarrow> (k, Some e) | Inr k' \<Rightarrow> (k', None)))"

definition is_yaml :: "string \<Rightarrow> bool" where
  "is_yaml name \<longleftrightarrow> HasSuffix name ''.yml'' \<or> HasSuffix name ''.yaml''"

definition loadConfigFile :: "'k koanf \<Rightarrow> 'k providers \<Rightarrow> 'k \<Rightarrow> string \<Rightarrow> 'k \<times> kerr option" where
  "loadConfigFile K P k path = (if is_yaml path then load_layer K k (yamlFile P path) else (k, None))"

text \<open>\<open>ReadString('\n')\<close> reads up to and including the first line feed, or to the end of the file.\<close>

definition first_line :: "string \<Rightarrow> string" where
  "first_line s = (let l = takeWhile (\<lambda>c. c \<noteq> CHR 0x0A) s in take (Suc (length l)) s)"

definition hasMarker :: "os_env \<Rightarrow> string \<Rightarrow> bool" where
  "hasMarker W path =
     (case OpenRead W path of
        None \<Rightarrow> False
      | Some content \<Rightarrow> HasPrefix (TrimSpace (first_line content)) ''#tlspxy'')"

fun load_entries ::
  "'k koanf \<Rightarrow> os_env \<Rightarrow> 'k providers \<Rightarrow> string \<Rightarrow> bool \<Rightarrow> 'k \<Rightarrow> (string \<times> bool) list \<Rightarrow> 'k \<times> kerr option" where
  "load_entries K W P dirname requireMarker k [] = (k, None)"
| "load_entries K W P dirname requireMarker k ((name, isDir) # files) =
     (if isDir then load_entries K W P dirname requireMarker k files
      else if \<not> HasSuffix name ''.yml'' \<and> \<not> HasSuffix name ''.yaml''
      then load_entries K W P dirname requireMarker k files
      else
        let path = PathJoin dirname name in
        if requireMarker \<and> \<not> hasMarker W path then load_entries K W P dirname requireMarker k files
        else (case loadConfigFile K P k path of
                (k', Some e) \<Rightarrow> (k', Some e)
              | (k', None) \<Rightarrow> load_entries K W P dirname requireMarker k' files))"

definition loadConfigsFromDir ::
  "'k koanf \<Rightarrow> os_env \<Rightarrow> 'k providers \<Rightarrow> 'k \<Rightarrow> string \<Rightarrow> bool \<Rightarrow> 'k \<times> kerr option" where
  "loadConfigsFromDir K W P k dirname requireMarker =
     (case ReadDir W dirname of
        Inl e \<Rightarrow> (k, Some e)
      | Inr files \<Rightarrow> load_entries K W P dirname requireMarker k files)"

datatype load_error = LoadDefaults kerr | ConfigPath string kerr | ConfigDir string kerr | ConfigFile string kerr

fun load_extra ::
  "'k koanf \<Rightarrow> os_env \<Rightarrow> 'k providers \<Rightarrow> 'k \<Rightarrow> string list \<Rightarrow> load_error + 'k" where
  "load_extra K W P k [] = Inr k"
| "load_extra K W P k (p # ps) =
     (case Stat W p of
        Inl statErr \<Rightarrow> Inl (ConfigPath p statErr)
      | Inr isDir \<Rightarrow>
          if isDir then
            (case loadConfigsFromDir K W P k p False of
               (k', Some dirErr) \<Rightarrow> Inl (ConfigDir p dirErr)
             | (k', None) \<Rightarrow> load_extra K W P k' ps)
          else
            (case loadConfigFile K P k p of
               (k', Some fileErr) \<Rightarrow> Inl (ConfigFile p fileErr)
             | (k', None) \<Rightarrow> load_extra K W P k' ps))"

text \<open>A failure in the working directory is only logged; the store keeps what was loaded before it.\<close>

definition GetConfig :: "'k koanf \<Rightarrow> os_env \<Rightarrow> 'k providers \<Rightarrow> string list \<Rightarrow> load_error + 'k" where
  "GetConfig K W P extraPaths =
     (case load_layer K (kNew K) (Inr default_layer) of
        (_, Some e) \<Rightarrow> Inl (LoadDefaults e)
      | (k, None) \<Rightarrow>
          let (k, _) = loadConfigsFromDir K W P k (Getwd W) True
          in load_extra K W P k extraPaths)"

section \<open>Environment and flags\<close>

definition env_prefix :: string where
  "env_prefix = ''TLSPXY_''"

definition env_key :: "string \<Rightarrow> string" where
  "env_key s = ReplaceChar (CHR ''_'') (CHR ''.'') (ToLower (TrimPrefix s env_prefix))"

definition LoadEnvVars :: "'k koanf \<Rightarrow> 'k providers \<Rightarrow> 'k \<Rightarrow> 'k" where
  "LoadEnvVars K P k = fst (load_layer K k (envProvider P env_prefix env_key))"

definition flag_cb :: "string \<Rightarrow> string \<Rightarrow> string \<times> string" where
  "flag_cb key value = (if key = ''config'' then ('''', '''') else (flag_key key, value))"

text \<open>
  \<open>LoadFlags\<close> after \<open>flag.Parse\<close>: \<open>parsed\<close> has every registered flag with its value and whether it was
  given on the command line.
\<close>

definition LoadFlags :: "'k koanf \<Rightarrow> 'k providers \<Rightarrow> flag_values \<Rightarrow> 'k \<Rightarrow> 'k" where
  "LoadFlags K P parsed k = fst (load_layer K k (flagProvider P parsed flag_cb k))"

text \<open>\<open>main\<close>: \<open>ParseConfigPaths\<close>, \<open>GetConfig\<close>, \<open>LoadEnvVars\<close>, \<open>LoadFlags\<close>.\<close>

definition load_config ::
  "'k koanf \<Rightarrow> os_env \<Rightarrow> 'k providers \<Rightarrow> string list \<Rightarrow> flag_values \<Rightarrow> load_error + 'k" where
  "load_config K W P args parsed =
     bind_res (GetConfig K W P (ParseConfigPaths args))
       (\<lambda>k. Inr (LoadFlags K P parsed (LoadEnvVars K P k)))"

definition IsCfgFile :: "os_env \<Rightarrow> string \<Rightarrow> bool" where
  "IsCfgFile W path =
     (let ext = ToLower (Ext path) in
      if ext \<noteq> ''.yml'' \<and> ext \<noteq> ''.yaml'' then False else \<not> isl (Stat W path))"

end
