(* ===== verification/Tls_Versions.thy ===== *)
theory Tls_Versions
  imports Go_Strings
begin

text \<open>
  \<open>internal/tls/versions.go\<close>: the names of TLS versions and cipher suites. The suites the Go toolchain
  knows are an argument (\<open>CipherSuites()\<close> and \<open>InsecureCipherSuites()\<close>, each a list of names and
  identifiers, in the order of the library).
\<close>

definition VersionTLS10 :: u16 where "VersionTLS10 = 0x0301"
definition VersionTLS11 :: u16 where "VersionTLS11 = 0x0302"
definition VersionTLS12 :: u16 where "VersionTLS12 = 0x0303"
definition VersionTLS13 :: u16 where "VersionTLS13 = 0x0304"

lemmas version_defs = VersionTLS10_def VersionTLS11_def VersionTLS12_def VersionTLS13_def

definition TLSVersionNames :: "string \<rightharpoonup> u16" where
  "TLSVersionNames =
     [''1.0'' \<mapsto> VersionTLS10, ''1.1'' \<mapsto> VersionTLS11, ''1.2'' \<mapsto> VersionTLS12, ''1.3'' \<mapsto> VersionTLS13]"

datatype tls_error = UnknownTLSVersion string | UnknownCipherSuite string

definition ParseTLSVersion :: "string \<Rightarrow> tls_error + u16" where
  "ParseTLSVersion s =
     (let s = TrimSpace s in
      if s = '''' then Inr 0
      else (case TLSVersionNames s of
              None \<Rightarrow> Inl (UnknownTLSVersion s)
            | Some v \<Rightarrow> Inr v))"

record suite_tables =
  CipherSuites :: "(string \<times> u16) list"
  InsecureCipherSuites :: "(string \<times> u16) list"

text \<open>\<open>known[cs.Name] = cs.ID\<close> for the secure suites and then for the insecure ones.\<close>

definition known_suites :: "suite_tables \<Rightarrow> string \<rightharpoonup> u16" where
  "known_suites T = fold (\<lambda>(name, i) m. m(name \<mapsto> i)) (CipherSuites T @ InsecureCipherSuites T) Map.empty"

fun suite_loop :: "(string \<rightharpoonup> u16) \<Rightarrow> string list \<Rightarrow> u16 list \<Rightarrow> tls_error + u16 list" where
  "suite_loop known [] ids = Inr ids"
| "suite_loop known (name # names) ids =
     (let name = TrimSpace name in
      if name = '''' then suite_loop known names ids
      else (case known name of
              None \<Rightarrow> Inl (UnknownCipherSuite name)
            | Some i \<Rightarrow> suite_loop known names (ids @ [i])))"

text \<open>An empty list is Go's nil slice here: \<open>ids\<close> is nil until something is appended.\<close>

definition ParseCipherSuites :: "suite_tables \<Rightarrow> string \<Rightarrow> tls_error + u16 list" where
  "ParseCipherSuites T s =
     (let s = TrimSpace s in
      if s = '''' then Inr [] else suite_loop (known_suites T) (Split (CHR '','') s) [])"

definition ValidCipherSuiteNames :: "suite_tables \<Rightarrow> string list" where
  "ValidCipherSuiteNames T = map fst (CipherSuites T) @ map fst (InsecureCipherSuites T)"

section \<open>Versions\<close>

lemma Parse_empty [simp]: "ParseTLSVersion [] = Inr 0" "ParseCipherSuites T [] = Inr []" "TrimSpace [] = []"
proof -
  show t: "TrimSpace [] = []" by code_simp
  show "ParseTLSVersion [] = Inr 0" "ParseCipherSuites T [] = Inr []"
    by (simp_all add: ParseTLSVersion_def ParseCipherSuites_def t)
qed

lemma TLSVersionNames_cases:
  "TLSVersionNames s = Some v \<longleftrightarrow>
     (s, v) \<in> {(''1.0'', VersionTLS10), (''1.1'', VersionTLS11), (''1.2'', VersionTLS12), (''1.3'', VersionTLS13)}"
  by (auto simp: TLSVersionNames_def)

lemma version_nonzero: "TLSVersionNames s = Some v \<Longrightarrow> v \<noteq> 0"
  by (auto simp: TLSVersionNames_cases version_defs)

lemma ParseTLSVersion_zero: "ParseTLSVersion s = Inr 0 \<longleftrightarrow> TrimSpace s = ''''"
  by (auto simp: ParseTLSVersion_def Let_def dest: version_nonzero split: option.splits)

lemma ParseTLSVersion_range:
  "ParseTLSVersion s = Inr v \<Longrightarrow> v \<in> {0, VersionTLS10, VersionTLS11, VersionTLS12, VersionTLS13}"
  by (auto simp: ParseTLSVersion_def Let_def TLSVersionNames_cases split: if_splits option.splits)

section \<open>Cipher suites\<close>

lemma fold_upd_lookup:
  "fold (\<lambda>(name, i) m. m(name \<mapsto> i)) xs m n =
     (case map_of (rev xs) n of Some i \<Rightarrow> Some i | None \<Rightarrow> m n)"
  by (induction xs arbitrary: m) (auto simp: map_add_def split: option.splits)

lemma known_suites_dom: "known_suites T n \<noteq> None \<longleftrightarrow> n \<in> set (ValidCipherSuiteNames T)"
proof -
  have "map_of (rev (CipherSuites T @ InsecureCipherSuites T)) n \<noteq> None
    \<longleftrightarrow> n \<in> fst ` set (CipherSuites T @ InsecureCipherSuites T)"
    by (metis map_of_eq_None_iff set_rev)
  then show ?thesis
    by (auto simp: known_suites_def fold_upd_lookup ValidCipherSuiteNames_def image_Un split: option.splits)
qed

text \<open>The names a list asks for: its comma-separated parts without white space, empty ones dropped.\<close>

definition suite_names :: "string \<Rightarrow> string list" where
  "suite_names s = filter (\<lambda>n. n \<noteq> '''') (map TrimSpace (Split (CHR '','') (TrimSpace s)))"

lemma suite_loop_eq:
  "suite_loop known names ids =
     (case find (\<lambda>n. known n = None) (filter (\<lambda>n. n \<noteq> '''') (map TrimSpace names)) of
        Some n \<Rightarrow> Inl (UnknownCipherSuite n)
      | None \<Rightarrow> Inr (ids @ map (the \<circ> known) (filter (\<lambda>n. n \<noteq> '''') (map TrimSpace names))))"
  by (induction names arbitrary: ids) (auto simp: Let_def split: option.splits)

lemma ParseCipherSuites_eq:
  "ParseCipherSuites T s =
     (case find (\<lambda>n. known_suites T n = None) (suite_names s) of
        Some n \<Rightarrow> Inl (UnknownCipherSuite n)
      | None \<Rightarrow> Inr (map (the \<circ> known_suites T) (suite_names s)))"
  by (auto simp: ParseCipherSuites_def Let_def suite_loop_eq suite_names_def TrimSpace_idem split: option.splits)

text \<open>
  \<open>ParseCipherSuites\<close> accepts exactly the lists all of whose names are known (its own list of valid
  names), returns their identifiers in the order asked for, and otherwise names the first unknown one.
\<close>

theorem ParseCipherSuites_spec:
  "(if set (suite_names s) \<subseteq> set (ValidCipherSuiteNames T)
    then ParseCipherSuites T s = Inr (map (the \<circ> known_suites T) (suite_names s))
    else \<exists>ok n rest. suite_names s = ok @ n # rest \<and> set ok \<subseteq> set (ValidCipherSuiteNames T)
           \<and> n \<notin> set (ValidCipherSuiteNames T) \<and> ParseCipherSuites T s = Inl (UnknownCipherSuite n))"
proof -
  have dom: "known_suites T n = None \<longleftrightarrow> n \<notin> set (ValidCipherSuiteNames T)" for n
    using known_suites_dom by blast
  show ?thesis
  proof (cases "find (\<lambda>n. known_suites T n = None) (suite_names s)")
    case None
    then have "set (suite_names s) \<subseteq> set (ValidCipherSuiteNames T)"
      by (auto simp: find_None_iff dom)
    with None show ?thesis by (simp add: ParseCipherSuites_eq)
  next
    case (Some n)
    then obtain i where i: "i < length (suite_names s)" "n = suite_names s ! i"
        "n \<notin> set (ValidCipherSuiteNames T)" "\<forall>j < i. suite_names s ! j \<in> set (ValidCipherSuiteNames T)"
      by (auto simp: find_Some_iff dom)
    then have split: "suite_names s = take i (suite_names s) @ n # drop (Suc i) (suite_names s)"
      by (simp add: id_take_nth_drop)
    have "set (take i (suite_names s)) \<subseteq> set (ValidCipherSuiteNames T)"
      using i by (auto simp: in_set_conv_nth)
    moreover have "\<not> set (suite_names s) \<subseteq> set (ValidCipherSuiteNames T)"
      using i by (metis nth_mem subsetD)
    ultimately show ?thesis using split i Some by (simp add: ParseCipherSuites_eq) blast
  qed
qed

end
