(* ===== verification/Go_Runtime.thy ===== *)
theory Go_Runtime
  imports Tls_Versions
begin

text \<open>
  The parts of the Go runtime whose results depend on the system or the toolchain and that configuration
  code calls: address resolution, URL and duration parsing, the table of cipher suites. They are one
  record of functions, an argument of the definitions that call them; the theorems hold for every such
  record. A duration is a number of nanoseconds.
\<close>

record url =
  Scheme :: string
  Host :: string
  Path :: string
  RawPath :: string
  RawQuery :: string

record runtime =
  ResolveTCPAddr :: "string \<Rightarrow> string + string"
  urlParse :: "string \<Rightarrow> string + url"
  ParseDuration :: "string \<Rightarrow> string + int"
  suites :: suite_tables

end
