(* ===== verification/Config_Validate.thy ===== *)
theory Config_Validate
  imports Koanf Go_Runtime
begin

text \<open>
  \<open>internal/config\<close>, \<open>ValidateConfig\<close> and \<open>Duration\<close>. The checks are listed in the order of the code; the
  first that fails is the error. One step is not a check: a log level \<open>warning\<close> (in any case) is
  rewritten to \<open>warn\<close> in the store, and the checks after it read the new store.
\<close>

datatype cfg_error =
    BadServerType string
  | RemoteAddrRequired
  | BadServerAddr string string
  | ServerKeyRequired
  | ServerCertRequired
  | LetsEncryptDomainRequired
  | HttpsNeedsTLS
  | RemoteKeyRequired
  | RemoteCertRequired
  | RemoteTLSDisabled
  | RemoteURLInvalid string string
  | RemoteURLIncomplete string string
  | BadDuration string string string
  | NormalizeLogLevel string
  | Http2NeedsHttp string
  | BadTLSVersion string tls_error
  | BadCipherSuites string tls_error
  | BadProxyProtocol string
  | ProxyProtocolNeedsTCP string
  | MinAboveMax string string string

definition check :: "bool \<Rightarrow> cfg_error \<Rightarrow> cfg_error option" where
  "check bad e = (if bad then Some e else None)"

definition effective_type :: "'k koanf \<Rightarrow> 'k \<Rightarrow> string" where
  "effective_type K k = (if kString K k ''server.type'' = '''' then ''tcp'' else kString K k ''server.type'')"

definition effective_addr :: "'k koanf \<Rightarrow> 'k \<Rightarrow> string" where
  "effective_addr K k = (if kString K k ''server.addr'' = '''' then '':9898'' else kString K k ''server.addr'')"

definition timeout_keys :: "string list" where
  "timeout_keys = [''server.timeouts.read'', ''server.timeouts.write'', ''server.timeouts.idle'',
     ''server.timeouts.handshake'', ''remote.timeouts.dial'']"

definition version_keys :: "string list" where
  "version_keys = [''server.tls.minversion'', ''server.tls.maxversion'', ''remote.tls.minversion'', ''remote.tls.maxversion'']"

definition suite_keys :: "string list" where
  "suite_keys = [''server.tls.ciphersuites'', ''remote.tls.ciphersuites'']"

definition check_addrs :: "'k koanf \<Rightarrow> runtime \<Rightarrow> 'k \<Rightarrow> cfg_error option list" where
  "check_addrs K R k =
     [check (effective_type K k \<notin> {''tcp'', ''http'', ''https''}) (BadServerType (effective_type K k)),
      check (kString K k ''remote.addr'' = '''') RemoteAddrRequired,
      (case ResolveTCPAddr R (effective_addr K k) of Inl e \<Rightarrow> Some (BadServerAddr (effective_addr K k) e) | Inr _ \<Rightarrow> None)]"

definition check_tls :: "'k koanf \<Rightarrow> 'k \<Rightarrow> cfg_error option list" where
  "check_tls K k =
     (let tlsCert = kString K k ''server.tls.cert''; tlsKey = kString K k ''server.tls.key'';
          le = kBool K k ''server.tls.letsencrypt.enable'';
          rEnabled = kBool K k ''remote.tls.enable''; rCert = kString K k ''remote.tls.cert'';
          rKey = kString K k ''remote.tls.key''; rCA = kString K k ''remote.tls.ca''
      in
      [check (tlsCert \<noteq> '''' \<and> tlsKey = '''') ServerKeyRequired,
       check (tlsKey \<noteq> '''' \<and> tlsCert = '''') ServerCertRequired,
       check (le \<and> kString K k ''server.tls.letsencrypt.domain'' = '''') LetsEncryptDomainRequired,
       check (effective_type K k = ''https'' \<and> tlsCert = '''' \<and> \<not> le) HttpsNeedsTLS,
       check (rCert \<noteq> '''' \<and> rKey = '''') RemoteKeyRequired,
       check (rKey \<noteq> '''' \<and> rCert = '''') RemoteCertRequired,
       check (\<not> rEnabled \<and> (rCert \<noteq> '''' \<or> rKey \<noteq> '''' \<or> rCA \<noteq> '''')) RemoteTLSDisabled])"

definition check_url :: "'k koanf \<Rightarrow> runtime \<Rightarrow> 'k \<Rightarrow> cfg_error option" where
  "check_url K R k =
     (let t = effective_type K k; a = kString K k ''remote.addr'' in
      if t = ''http'' \<or> t = ''https'' then
        (case urlParse R a of
           Inl e \<Rightarrow> Some (RemoteURLInvalid t e)
         | Inr u \<Rightarrow> check (Scheme u = '''' \<or> Host u = '''') (RemoteURLIncomplete t a))
      else None)"

definition check_duration :: "'k koanf \<Rightarrow> runtime \<Rightarrow> 'k \<Rightarrow> string \<Rightarrow> cfg_error option" where
  "check_duration K R k key =
     (let v = kString K k key in
      if v \<noteq> '''' then (case ParseDuration R v of Inl e \<Rightarrow> Some (BadDuration key v e) | Inr _ \<Rightarrow> None) else None)"

definition normalize_log_level :: "'k koanf \<Rightarrow> 'k \<Rightarrow> string + 'k" where
  "normalize_log_level K k =
     (if EqualFold (kString K k ''log.level'') ''warning'' then kSet K k ''log.level'' (CStr ''warn'') else Inr k)"

definition check_version :: "'k koanf \<Rightarrow> 'k \<Rightarrow> string \<Rightarrow> cfg_error option" where
  "check_version K k key =
     (let v = kString K k key in
      if v \<noteq> '''' then (case ParseTLSVersion v of Inl e \<Rightarrow> Some (BadTLSVersion key e) | Inr _ \<Rightarrow> None) else None)"

definition check_suites :: "'k koanf \<Rightarrow> runtime \<Rightarrow> 'k \<Rightarrow> string \<Rightarrow> cfg_error option" where
  "check_suites K R k key =
     (let v = kString K k key in
      if v \<noteq> '''' then (case ParseCipherSuites (suites R) v of Inl e \<Rightarrow> Some (BadCipherSuites key e) | Inr _ \<Rightarrow> None)
      else None)"

definition check_proxyproto :: "'k koanf \<Rightarrow> 'k \<Rightarrow> cfg_error option list" where
  "check_proxyproto K k =
     (let pp = kString K k ''remote.proxyprotocol'' in
      [check (pp \<notin> {'''', ''v1'', ''v2''}) (BadProxyProtocol pp),
       check (pp \<noteq> '''' \<and> effective_type K k \<noteq> ''tcp'') (ProxyProtocolNeedsTCP (effective_type K k))])"

text \<open>The value half of Go's \<open>(uint16, error)\<close>: zero when there is an error.\<close>

definition version_value :: "string \<Rightarrow> u16" where
  "version_value s = (case ParseTLSVersion s of Inl _ \<Rightarrow> 0 | Inr v \<Rightarrow> v)"

definition check_range :: "'k koanf \<Rightarrow> 'k \<Rightarrow> string \<Rightarrow> cfg_error option" where
  "check_range K k pre =
     (let minStr = kString K k (pre @ ''.minversion''); maxStr = kString K k (pre @ ''.maxversion'') in
      if minStr \<noteq> '''' \<and> maxStr \<noteq> '''' then check (version_value minStr > version_value maxStr) (MinAboveMax pre minStr maxStr)
      else None)"

definition checks_before :: "'k koanf \<Rightarrow> runtime \<Rightarrow> 'k \<Rightarrow> cfg_error option list" where
  "checks_before K R k =
     check_addrs K R k @ check_tls K k @ [check_url K R k] @ map (check_duration K R k) timeout_keys"

definition checks_after :: "'k koanf \<Rightarrow> runtime \<Rightarrow> 'k \<Rightarrow> string \<Rightarrow> cfg_error option list" where
  "checks_after K R k serverType =
     [check (kBool K k ''server.http2'' \<and> serverType = ''tcp'') (Http2NeedsHttp serverType)]
     @ map (check_version K k) version_keys @ map (check_suites K R k) suite_keys
     @ check_proxyproto K k @ map (check_range K k) [''server.tls'', ''remote.tls'']"

definition ValidateConfig :: "'k koanf \<Rightarrow> runtime \<Rightarrow> 'k \<Rightarrow> cfg_error option \<times> 'k" where
  "ValidateConfig K R k =
     (case first_error (checks_before K R k) of
        Some e \<Rightarrow> (Some e, k)
      | None \<Rightarrow>
          (case normalize_log_level K k of
             Inl e \<Rightarrow> (Some (NormalizeLogLevel e), k)
           | Inr k' \<Rightarrow> (first_error (checks_after K R k' (effective_type K k)), k')))"

definition Duration :: "'k koanf \<Rightarrow> runtime \<Rightarrow> 'k \<Rightarrow> string \<Rightarrow> int" where
  "Duration K R k key =
     (let v = kString K k key in
      if v = '''' then 0 else (case ParseDuration R v of Inl _ \<Rightarrow> 0 | Inr d \<Rightarrow> d))"

section \<open>The specification of a valid configuration\<close>

definition valid_endpoints :: "'k koanf \<Rightarrow> runtime \<Rightarrow> 'k \<Rightarrow> bool" where
  "valid_endpoints K R k \<longleftrightarrow>
     effective_type K k \<in> {''tcp'', ''http'', ''https''} \<and> kString K k ''remote.addr'' \<noteq> ''''
     \<and> \<not> isl (ResolveTCPAddr R (effective_addr K k))
     \<and> (effective_type K k \<noteq> ''tcp'' \<longrightarrow>
          (\<exists>u. urlParse R (kString K k ''remote.addr'') = Inr u \<and> Scheme u \<noteq> '''' \<and> Host u \<noteq> ''''))
     \<and> (kBool K k ''server.http2'' \<longrightarrow> effective_type K k \<noteq> ''tcp'')
     \<and> kString K k ''remote.proxyprotocol'' \<in> {'''', ''v1'', ''v2''}
     \<and> (kString K k ''remote.proxyprotocol'' \<noteq> '''' \<longrightarrow> effective_type K k = ''tcp'')"

definition valid_tls :: "'k koanf \<Rightarrow> 'k \<Rightarrow> bool" where
  "valid_tls K k \<longleftrightarrow>
     (kString K k ''server.tls.cert'' = '''' \<longleftrightarrow> kString K k ''server.tls.key'' = '''')
     \<and> (kBool K k ''server.tls.letsencrypt.enable'' \<longrightarrow> kString K k ''server.tls.letsencrypt.domain'' \<noteq> '''')
     \<and> (effective_type K k = ''https'' \<longrightarrow>
          kString K k ''server.tls.cert'' \<noteq> '''' \<or> kBool K k ''server.tls.letsencrypt.enable'')
     \<and> (kString K k ''remote.tls.cert'' = '''' \<longleftrightarrow> kString K k ''remote.tls.key'' = '''')
     \<and> (\<not> kBool K k ''remote.tls.enable'' \<longrightarrow>
          kString K k ''remote.tls.cert'' = '''' \<and> kString K k ''remote.tls.key'' = '''' \<and> kString K k ''remote.tls.ca'' = '''')"

definition valid_values :: "'k koanf \<Rightarrow> runtime \<Rightarrow> 'k \<Rightarrow> bool" where
  "valid_values K R k \<longleftrightarrow>
     (\<forall>key \<in> set timeout_keys. kString K k key = '''' \<or> \<not> isl (ParseDuration R (kString K k key)))
     \<and> (\<forall>key \<in> set version_keys. \<not> isl (ParseTLSVersion (kString K k key)))
     \<and> (\<forall>key \<in> set suite_keys. \<not> isl (ParseCipherSuites (suites R) (kString K k key)))
     \<and> (\<forall>pre \<in> {''server.tls'', ''remote.tls''}.
          kString K k (pre @ ''.minversion'') = '''' \<or> kString K k (pre @ ''.maxversion'') = ''''
          \<or> version_value (kString K k (pre @ ''.minversion'')) \<le> version_value (kString K k (pre @ ''.maxversion'')))"

definition valid_config :: "'k koanf \<Rightarrow> runtime \<Rightarrow> 'k \<Rightarrow> bool" where
  "valid_config K R k \<longleftrightarrow> valid_endpoints K R k \<and> valid_tls K k \<and> valid_values K R k"

section \<open>Checks against the specification\<close>

lemma check_None [simp]: "check bad e = None \<longleftrightarrow> \<not> bad"
  by (simp add: check_def)

lemma check_addrs_None:
  "(\<forall>c \<in> set (check_addrs K R k). c = None) \<longleftrightarrow>
     effective_type K k \<in> {''tcp'', ''http'', ''https''} \<and> kString K k ''remote.addr'' \<noteq> ''''
     \<and> \<not> isl (ResolveTCPAddr R (effective_addr K k))"
  by (auto simp: check_addrs_def split: sum.splits)

lemma check_tls_None: "(\<forall>c \<in> set (check_tls K k). c = None) \<longleftrightarrow> valid_tls K k"
  by (simp add: check_tls_def valid_tls_def Let_def) blast

lemma check_url_None:
  "check_url K R k = None \<longleftrightarrow>
     (effective_type K k = ''http'' \<or> effective_type K k = ''https'' \<longrightarrow>
        (\<exists>u. urlParse R (kString K k ''remote.addr'') = Inr u \<and> Scheme u \<noteq> '''' \<and> Host u \<noteq> ''''))"
  by (auto simp: check_url_def Let_def split: sum.splits)

lemma check_duration_None:
  "check_duration K R k key = None \<longleftrightarrow> kString K k key = '''' \<or> \<not> isl (ParseDuration R (kString K k key))"
  by (auto simp: check_duration_def Let_def split: sum.splits)

lemma check_version_None: "check_version K k key = None \<longleftrightarrow> \<not> isl (ParseTLSVersion (kString K k key))"
  by (auto simp: check_version_def Let_def split: sum.splits)

lemma check_suites_None: "check_suites K R k key = None \<longleftrightarrow> \<not> isl (ParseCipherSuites (suites R) (kString K k key))"
  by (auto simp: check_suites_def Let_def split: sum.splits)

lemma check_range_None:
  "check_range K k pre = None \<longleftrightarrow>
     kString K k (pre @ ''.minversion'') = '''' \<or> kString K k (pre @ ''.maxversion'') = ''''
     \<or> version_value (kString K k (pre @ ''.minversion'')) \<le> version_value (kString K k (pre @ ''.maxversion''))"
  by (auto simp: check_range_def Let_def)

lemmas checks_None = check_addrs_None check_tls_None check_url_None check_duration_None check_version_None
  check_suites_None check_range_None

text \<open>Rewriting the log level changes no other setting.\<close>

definition same_settings :: "'k koanf \<Rightarrow> 'k \<Rightarrow> 'k \<Rightarrow> bool" where
  "same_settings K k k' \<longleftrightarrow>
     (\<forall>q. \<not> related ''log.level'' q \<longrightarrow>
        kString K k' q = kString K k q \<and> kBool K k' q = kBool K k q \<and> kInt K k' q = kInt K k q)"

lemma normalize_same:
  assumes "koanf_ok K" "normalize_log_level K k = Inr k'"
  shows "same_settings K k k'"
proof (cases "EqualFold (kString K k ''log.level'') ''warning''")
  case True
  with assms(2) have set: "kSet K k ''log.level'' (CStr ''warn'') = Inr k'" by (simp add: normalize_log_level_def)
  have "kGet K k' q = kGet K k q" if "\<not> related ''log.level'' q" for q
    using kSet_miss [OF koanf_okD(3) [OF assms(1)] set that] .
  then show ?thesis unfolding same_settings_def using getters_cong [OF koanf_okD(1) [OF assms(1)]] by metis
next
  case False
  with assms(2) show ?thesis by (simp add: normalize_log_level_def same_settings_def)
qed

lemma same_settings_reads:
  assumes "same_settings K k k'" "\<not> related ''log.level'' q"
  shows "kString K k' q = kString K k q" "kBool K k' q = kBool K k q" "kInt K k' q = kInt K k q"
  using assms by (simp_all add: same_settings_def)

lemma server_remote_unrelated:
  "\<not> related ''log.level'' (''server'' @ q)" "\<not> related ''log.level'' (''remote'' @ q)"
  by (simp_all add: related_def)

lemma same_settings_server:
  assumes "same_settings K k k'"
  shows "kString K k' (CHR ''s'' # CHR ''e'' # CHR ''r'' # CHR ''v'' # q) = kString K k (CHR ''s'' # CHR ''e'' # CHR ''r'' # CHR ''v'' # q)"
    "kString K k' (CHR ''r'' # CHR ''e'' # CHR ''m'' # CHR ''o'' # q) = kString K k (CHR ''r'' # CHR ''e'' # CHR ''m'' # CHR ''o'' # q)"
    "kBool K k' (CHR ''s'' # CHR ''e'' # CHR ''r'' # CHR ''v'' # q) = kBool K k (CHR ''s'' # CHR ''e'' # CHR ''r'' # CHR ''v'' # q)"
    "kBool K k' (CHR ''r'' # CHR ''e'' # CHR ''m'' # CHR ''o'' # q) = kBool K k (CHR ''r'' # CHR ''e'' # CHR ''m'' # CHR ''o'' # q)"
  by (rule same_settings_reads [OF assms], simp add: related_def)+

lemma same_effective:
  "same_settings K k k' \<Longrightarrow> effective_type K k' = effective_type K k"
  "same_settings K k k' \<Longrightarrow> effective_addr K k' = effective_addr K k"
  by (simp_all add: effective_type_def effective_addr_def same_settings_server)

lemma same_valid: "same_settings K k k' \<Longrightarrow> valid_config K R k' \<longleftrightarrow> valid_config K R k"
  by (simp add: valid_config_def valid_endpoints_def valid_tls_def valid_values_def timeout_keys_def
      version_keys_def suite_keys_def same_effective same_settings_server)

lemma normalized_log_level:
  assumes "koanf_ok K" "normalize_log_level K k = Inr k'"
  shows "kString K k' ''log.level'' \<noteq> ''warning''"
proof (cases "EqualFold (kString K k ''log.level'') ''warning''")
  case True
  with assms(2) have "kSet K k ''log.level'' (CStr ''warn'') = Inr k'" by (simp add: normalize_log_level_def)
  from kString_CStr [OF koanf_okD(1) kSet_hit [OF koanf_okD(3) this]] assms(1) show ?thesis by simp
next
  case False
  have "EqualFold s s" for s by (simp add: EqualFold_def)
  with False assms(2) show ?thesis by (auto simp: normalize_log_level_def)
qed

lemma check_proxyproto_None:
  "(\<forall>c \<in> set (check_proxyproto K k). c = None) \<longleftrightarrow>
     kString K k ''remote.proxyprotocol'' \<in> {'''', ''v1'', ''v2''}
     \<and> (kString K k ''remote.proxyprotocol'' \<noteq> '''' \<longrightarrow> effective_type K k = ''tcp'')"
  by (simp add: check_proxyproto_def Let_def) argo

lemma checks_before_None:
  "first_error (checks_before K R k) = None \<longleftrightarrow>
     (\<forall>c \<in> set (check_addrs K R k). c = None) \<and> (\<forall>c \<in> set (check_tls K k). c = None)
     \<and> check_url K R k = None \<and> (\<forall>key \<in> set timeout_keys. check_duration K R k key = None)"
  unfolding checks_before_def first_error_None by (simp add: ball_Un) argo

lemma checks_after_None:
  "first_error (checks_after K R k t) = None \<longleftrightarrow>
     (kBool K k ''server.http2'' \<longrightarrow> t \<noteq> ''tcp'')
     \<and> (\<forall>key \<in> set version_keys. check_version K k key = None) \<and> (\<forall>key \<in> set suite_keys. check_suites K R k key = None)
     \<and> (\<forall>c \<in> set (check_proxyproto K k). c = None) \<and> (\<forall>pre \<in> {''server.tls'', ''remote.tls''}. check_range K k pre = None)"
  unfolding checks_after_def first_error_None by (simp add: ball_Un) argo

lemma type_cases: "t \<in> {''tcp'', ''http'', ''https''} \<Longrightarrow> (t = ''http'' \<or> t = ''https'') \<longleftrightarrow> t \<noteq> ''tcp''"
  by auto

lemma checks_valid:
  "first_error (checks_before K R k) = None \<and> first_error (checks_after K R k (effective_type K k)) = None
   \<longleftrightarrow> valid_config K R k"
proof (cases "effective_type K k \<in> {''tcp'', ''http'', ''https''}")
  case True
  show ?thesis
    unfolding checks_before_None checks_after_None checks_None check_proxyproto_None type_cases [OF True]
      valid_config_def valid_endpoints_def valid_values_def by argo
next
  case False
  then show ?thesis
    unfolding checks_before_None checks_None valid_config_def valid_endpoints_def by argo
qed

lemma checks_after_same:
  "same_settings K k k' \<Longrightarrow> checks_after K R k' t = checks_after K R k t"
  by (simp add: checks_after_def check_version_def check_suites_def check_proxyproto_def check_range_def
      version_keys_def suite_keys_def same_effective same_settings_server)

text \<open>What is known once validation has succeeded.\<close>

lemma validated:
  assumes "koanf_ok K" "ValidateConfig K R k = (None, k')"
  shows "normalize_log_level K k = Inr k'" "same_settings K k k'" "valid_config K R k'"
proof -
  from assms(2) have before: "first_error (checks_before K R k) = None"
    by (auto simp: ValidateConfig_def simp del: first_error_None split: option.splits)
  with assms(2) show norm: "normalize_log_level K k = Inr k'"
    by (auto simp: ValidateConfig_def simp del: first_error_None split: sum.splits)
  then show same: "same_settings K k k'" by (rule normalize_same [OF assms(1)])
  have "valid_config K R k"
    using assms(2) before norm same checks_valid [of K R k]
    by (simp add: ValidateConfig_def checks_after_same del: first_error_None)
  then show "valid_config K R k'" using same_valid [OF same] by simp
qed

text \<open>
  C8. \<open>ValidateConfig\<close> accepts exactly the valid configurations: it returns no error iff the
  configuration meets the specification \<open>valid_config\<close> and the store accepts the rewriting of the log
  level. Whatever it returns, every other setting of the store is untouched.
\<close>

theorem ValidateConfig_accepts_iff:
  assumes "koanf_ok K"
  shows "(fst (ValidateConfig K R k) = None \<longleftrightarrow> valid_config K R k \<and> \<not> isl (normalize_log_level K k))
    \<and> same_settings K k (snd (ValidateConfig K R k))"
proof (cases "first_error (checks_before K R k)")
  case (Some e)
  then show ?thesis using checks_valid [of K R k]
    by (auto simp: ValidateConfig_def same_settings_def simp del: first_error_None)
next
  case None
  show ?thesis
  proof (cases "normalize_log_level K k")
    case (Inl e)
    with None show ?thesis by (simp add: ValidateConfig_def same_settings_def del: first_error_None)
  next
    case (Inr k')
    with None normalize_same [OF assms Inr] checks_valid [of K R k] show ?thesis
      by (simp add: ValidateConfig_def checks_after_same del: first_error_None)
  qed
qed

definition demo_runtime :: runtime where
  "demo_runtime = \<lparr>ResolveTCPAddr = (\<lambda>a. Inr a), urlParse = (\<lambda>_. Inl ''bad URL''),
     ParseDuration = (\<lambda>s. if s = ''10s'' then Inr 10000000000 else Inl ''invalid duration''),
     suites = \<lparr>CipherSuites = [(''TLS_AES_128_GCM_SHA256'', 0x1301)], InsecureCipherSuites = []\<rparr>\<rparr>"

definition demo_config :: layer where
  "demo_config = [''server.type'' \<mapsto> CStr ''tcp'', ''server.addr'' \<mapsto> CStr '':8443'', ''remote.addr'' \<mapsto> CStr ''b:1'',
     ''remote.timeouts.dial'' \<mapsto> CStr ''10s'', ''remote.proxyprotocol'' \<mapsto> CStr ''v2'', ''log.level'' \<mapsto> CStr ''Warning'']"

lemma demo_Validate:
  "ValidateConfig flat_store demo_runtime demo_config = (None, demo_config(''log.level'' \<mapsto> CStr ''warn''))"
proof -
  have fold: "EqualFold ''Warning'' ''warning''" by code_simp
  show ?thesis
    by (simp add: ValidateConfig_def checks_before_def check_addrs_def check_tls_def check_url_def check_duration_def
        timeout_keys_def effective_type_def effective_addr_def demo_config_def demo_runtime_def flat_store_simps
        normalize_log_level_def fold checks_after_def check_version_def check_suites_def check_proxyproto_def
        check_range_def version_keys_def suite_keys_def check_def Let_def)
qed

theorem ValidateConfig_accepts_iff_witness:
  "valid_config flat_store demo_runtime demo_config
   \<and> \<not> valid_config flat_store demo_runtime (demo_config(''remote.proxyprotocol'' \<mapsto> CStr ''v3''))"
proof
  show "valid_config flat_store demo_runtime demo_config"
    using ValidateConfig_accepts_iff [OF flat_store_ok, of demo_runtime demo_config] demo_Validate by simp
  show "\<not> valid_config flat_store demo_runtime (demo_config(''remote.proxyprotocol'' \<mapsto> CStr ''v3''))"
    by (simp add: valid_config_def valid_endpoints_def flat_store_simps)
qed

text \<open>
  Validation is idempotent: a configuration that has passed passes again and is not changed, so a
  log level is rewritten at most once.
\<close>

theorem ValidateConfig_idempotent:
  assumes "koanf_ok K" and "ValidateConfig K R k = (None, k')"
  shows "ValidateConfig K R k' = (None, k')"
proof -
  note norm = validated(1) [OF assms] and valid = validated(3) [OF assms]
  have "normalize_log_level K k' = Inr k'"
  proof (cases "EqualFold (kString K k ''log.level'') ''warning''")
    case True
    with norm have "kSet K k ''log.level'' (CStr ''warn'') = Inr k'" by (simp add: normalize_log_level_def)
    then have "kString K k' ''log.level'' = ''warn''"
      using kSet_hit [OF koanf_okD(3) [OF assms(1)]] kString_CStr [OF koanf_okD(1) [OF assms(1)]] by metis
    moreover have "\<not> EqualFold ''warn'' ''warning''" by code_simp
    ultimately show ?thesis by (simp add: normalize_log_level_def)
  next
    case False
    with norm show ?thesis by (simp add: normalize_log_level_def)
  qed
  with valid checks_valid [of K R k'] show ?thesis by (simp add: ValidateConfig_def del: first_error_None)
qed

theorem ValidateConfig_idempotent_witness:
  "ValidateConfig flat_store demo_runtime (demo_config(''log.level'' \<mapsto> CStr ''warn''))
   = (None, demo_config(''log.level'' \<mapsto> CStr ''warn''))"
  by (rule ValidateConfig_idempotent [OF flat_store_ok demo_Validate])

text \<open>
  After validation no timeout is silently dropped: for each timeout setting, \<open>Duration\<close> gives zero
  for an empty value and otherwise exactly the duration the value denotes; the branch that ignores an
  unparseable value is not taken.
\<close>

theorem Duration_after_validation:
  assumes "koanf_ok K" and "ValidateConfig K R k = (None, k')" and "key \<in> set timeout_keys"
  shows "if kString K k' key = '''' then Duration K R k' key = 0
    else ParseDuration R (kString K k' key) = Inr (Duration K R k' key)"
proof -
  from validated(3) [OF assms(1,2)] have "kString K k' key = '''' \<or> \<not> isl (ParseDuration R (kString K k' key))"
    using assms(3) by (simp add: valid_config_def valid_values_def)
  then show ?thesis by (cases "ParseDuration R (kString K k' key)") (auto simp: Duration_def)
qed

theorem Duration_after_validation_witness:
  "Duration flat_store demo_runtime (demo_config(''log.level'' \<mapsto> CStr ''warn'')) ''remote.timeouts.dial'' = 10000000000"
  using Duration_after_validation [OF flat_store_ok demo_Validate, of "''remote.timeouts.dial''"]
  by (simp add: timeout_keys_def flat_store_simps demo_config_def demo_runtime_def)

end
