(* ===== verification/Cert_Store.thy ===== *)
theory Cert_Store
  imports Koanf
begin

text \<open>
  \<open>internal/tls/certstore.go\<close>: the store of the server's certificates, with SNI and reload. A certificate
  is opaque (its identity is a string); \<open>LoadX509KeyPair\<close> is an argument. During a reload the files may
  change between two loads, so the loads of one reload are numbered and each has its own outcome.
  \<open>reloadable\<close> is the interface the signal handler and the file watcher rely on: a reload never leaves a
  client without a certificate and never loses a working one.
\<close>

type_synonym cert = string
type_synonym pair_loader = "string \<Rightarrow> string \<Rightarrow> kerr + cert"

record SNICertEntry =
  Hostname :: string
  CertPath :: string
  KeyPath :: string

record CertStore =
  defaultCert :: cert
  certs :: "string \<rightharpoonup> cert"
  certPath :: string
  keyPath :: string
  sniEntries :: "SNICertEntry list"

datatype store_error = LoadingCert kerr | LoadingSNI string kerr | ReloadingCert kerr | ReloadingSNI string kerr

definition NewCertStore :: "pair_loader \<Rightarrow> string \<Rightarrow> string \<Rightarrow> store_error + CertStore" where
  "NewCertStore load cPath kPath =
     (case load cPath kPath of
        Inl e \<Rightarrow> Inl (LoadingCert e)
      | Inr cert \<Rightarrow> Inr \<lparr>defaultCert = cert, certs = Map.empty, certPath = cPath, keyPath = kPath, sniEntries = []\<rparr>)"

text \<open>The hello of a client: \<open>None\<close> is a nil pointer, the name may be empty.\<close>

definition GetCertificate :: "CertStore \<Rightarrow> string option \<Rightarrow> cert" where
  "GetCertificate cs hello =
     (case hello of
        Some name \<Rightarrow>
          if name \<noteq> '''' then (case certs cs name of Some cert \<Rightarrow> cert | None \<Rightarrow> defaultCert cs) else defaultCert cs
      | None \<Rightarrow> defaultCert cs)"

definition AddSNICert :: "pair_loader \<Rightarrow> string \<Rightarrow> string \<Rightarrow> string \<Rightarrow> CertStore \<Rightarrow> store_error option \<times> CertStore" where
  "AddSNICert load hostname cPath kPath cs =
     (case load cPath kPath of
        Inl e \<Rightarrow> (Some (LoadingSNI hostname e), cs)
      | Inr cert \<Rightarrow>
          (None, cs\<lparr>certs := (certs cs)(hostname \<mapsto> cert),
                    sniEntries := sniEntries cs @ [\<lparr>Hostname = hostname, CertPath = cPath, KeyPath = kPath\<rparr>]\<rparr>))"

definition Reload :: "pair_loader \<Rightarrow> CertStore \<Rightarrow> store_error option \<times> CertStore" where
  "Reload load cs =
     (case load (certPath cs) (keyPath cs) of
        Inl e \<Rightarrow> (Some (ReloadingCert e), cs)
      | Inr cert \<Rightarrow> (None, cs\<lparr>defaultCert := cert\<rparr>))"

text \<open>The loop of \<open>ReloadAll\<close> over the copied entries; \<open>loads i\<close> is the i-th load of the reload.\<close>

fun reload_entries ::
  "(nat \<Rightarrow> pair_loader) \<Rightarrow> nat \<Rightarrow> SNICertEntry list \<Rightarrow> store_error option \<Rightarrow> CertStore \<Rightarrow> store_error option \<times> CertStore" where
  "reload_entries loads i [] firstErr cs = (firstErr, cs)"
| "reload_entries loads i (entry # entries) firstErr cs =
     (case loads i (CertPath entry) (KeyPath entry) of
        Inl e \<Rightarrow>
          reload_entries loads (Suc i) entries
            (if firstErr = None then Some (ReloadingSNI (Hostname entry) e) else firstErr) cs
      | Inr cert \<Rightarrow>
          reload_entries loads (Suc i) entries firstErr (cs\<lparr>certs := (certs cs)(Hostname entry \<mapsto> cert)\<rparr>))"

definition ReloadAll :: "(nat \<Rightarrow> pair_loader) \<Rightarrow> CertStore \<Rightarrow> store_error option \<times> CertStore" where
  "ReloadAll loads cs =
     (let (firstErr, cs) = Reload (loads 0) cs in reload_entries loads 1 (sniEntries cs) firstErr cs)"

section \<open>SNI entries from the configuration\<close>

datatype sni_error = SNIExpectedMap nat | SNIHostname nat | SNICert nat | SNIKey nat

text \<open>\<open>m[\<dots>].(string)\<close> with the zero value when the key is missing or has another type.\<close>

definition str_field :: "(string \<times> cval) list \<Rightarrow> string \<Rightarrow> string" where
  "str_field m key = (case map_of m key of Some (CStr s) \<Rightarrow> s | _ \<Rightarrow> '''')"

fun sni_items :: "nat \<Rightarrow> cval list \<Rightarrow> sni_error + SNICertEntry list" where
  "sni_items i [] = Inr []"
| "sni_items i (item # items) =
     (case item of
        CMap m \<Rightarrow>
          let hostname = str_field m ''hostname''; cPath = str_field m ''cert''; kPath = str_field m ''key'' in
          if hostname = '''' then Inl (SNIHostname i)
          else if cPath = '''' then Inl (SNICert i)
          else if kPath = '''' then Inl (SNIKey i)
          else bind_res (sni_items (Suc i) items)
                 (\<lambda>es. Inr (\<lparr>Hostname = hostname, CertPath = cPath, KeyPath = kPath\<rparr> # es))
      | _ \<Rightarrow> Inl (SNIExpectedMap i))"

definition ParseSNIConfig :: "'k koanf \<Rightarrow> 'k \<Rightarrow> sni_error + SNICertEntry list" where
  "ParseSNIConfig K k =
     (case kGet K k ''server.tls.sni'' of
        Some (CList items) \<Rightarrow> sni_items 0 items
      | _ \<Rightarrow> Inr [])"

section \<open>Invariant: every entry has a certificate\<close>

definition store_inv :: "CertStore \<Rightarrow> bool" where
  "store_inv cs \<longleftrightarrow> dom (certs cs) = Hostname ` set (sniEntries cs)"

lemma NewCertStore_inv: "NewCertStore load c k = Inr cs \<Longrightarrow> store_inv cs"
  by (auto simp: NewCertStore_def store_inv_def split: sum.splits)

lemma AddSNICert_inv: "store_inv cs \<Longrightarrow> store_inv (snd (AddSNICert load h c k cs))"
  by (auto simp: AddSNICert_def store_inv_def split: sum.splits)

lemma Reload_frame:
  "certs (snd (Reload load cs)) = certs cs" "sniEntries (snd (Reload load cs)) = sniEntries cs"
  "certPath (snd (Reload load cs)) = certPath cs" "keyPath (snd (Reload load cs)) = keyPath cs"
  by (simp_all add: Reload_def split: sum.split)

lemma reload_entries_frame:
  "sniEntries (snd (reload_entries loads i es err cs)) = sniEntries cs
   \<and> defaultCert (snd (reload_entries loads i es err cs)) = defaultCert cs
   \<and> certPath (snd (reload_entries loads i es err cs)) = certPath cs
   \<and> keyPath (snd (reload_entries loads i es err cs)) = keyPath cs"
  by (induction loads i es err cs rule: reload_entries.induct) (auto split: sum.split)

lemma ReloadAll_eq:
  "ReloadAll loads cs =
     reload_entries loads 1 (sniEntries cs) (fst (Reload (loads 0) cs)) (snd (Reload (loads 0) cs))"
  by (simp add: ReloadAll_def Reload_frame case_prod_unfold Let_def)

lemma ReloadAll_frame:
  "sniEntries (snd (ReloadAll loads cs)) = sniEntries cs"
  "defaultCert (snd (ReloadAll loads cs)) = defaultCert (snd (Reload (loads 0) cs))"
  "certPath (snd (ReloadAll loads cs)) = certPath cs" "keyPath (snd (ReloadAll loads cs)) = keyPath cs"
  by (simp_all add: ReloadAll_eq reload_entries_frame Reload_frame)

section \<open>What a reload does\<close>

text \<open>The loads of a reload, in order: what was loaded (\<open>None\<close> the default certificate) and the outcome.\<close>

definition reload_plan :: "CertStore \<Rightarrow> (string option \<times> string \<times> string) list" where
  "reload_plan cs =
     (None, certPath cs, keyPath cs) # map (\<lambda>e. (Some (Hostname e), CertPath e, KeyPath e)) (sniEntries cs)"

definition outcome :: "(nat \<Rightarrow> pair_loader) \<Rightarrow> CertStore \<Rightarrow> nat \<Rightarrow> kerr + cert" where
  "outcome loads cs i = (case reload_plan cs ! i of (_, c, k) \<Rightarrow> loads i c k)"

text \<open>The entry of a host whose load came last and succeeded.\<close>

fun last_loaded :: "(nat \<Rightarrow> pair_loader) \<Rightarrow> nat \<Rightarrow> SNICertEntry list \<Rightarrow> string \<Rightarrow> cert option" where
  "last_loaded loads i [] h = None"
| "last_loaded loads i (e # es) h =
     (case last_loaded loads (Suc i) es h of
        Some c \<Rightarrow> Some c
      | None \<Rightarrow>
          if Hostname e = h then (case loads i (CertPath e) (KeyPath e) of Inr c \<Rightarrow> Some c | Inl _ \<Rightarrow> None) else None)"

lemma reload_entries_certs:
  "certs (snd (reload_entries loads i es err cs)) h =
     (case last_loaded loads i es h of Some c \<Rightarrow> Some c | None \<Rightarrow> certs cs h)"
  by (induction loads i es err cs rule: reload_entries.induct) (auto split: sum.split option.split)

lemma last_loaded_host: "last_loaded loads i es h = Some c \<Longrightarrow> h \<in> Hostname ` set es"
  by (induction loads i es h rule: last_loaded.induct) (auto split: option.splits if_splits)

lemma reload_entries_dom:
  "dom (certs (snd (reload_entries loads i es err cs))) \<subseteq> dom (certs cs) \<union> Hostname ` set es
   \<and> dom (certs cs) \<subseteq> dom (certs (snd (reload_entries loads i es err cs)))"
  using last_loaded_host [of loads i es] by (auto simp: dom_def reload_entries_certs split: option.splits)

lemma ReloadAll_inv:
  assumes "store_inv cs"
  shows "store_inv (snd (ReloadAll loads cs))"
proof -
  have "dom (certs (snd (ReloadAll loads cs))) = dom (certs cs)"
    using reload_entries_dom [of loads 1 "sniEntries cs" "fst (Reload (loads 0) cs)" "snd (Reload (loads 0) cs)"] assms
    unfolding ReloadAll_eq [symmetric] store_inv_def Reload_frame by blast
  with assms show ?thesis by (simp add: store_inv_def ReloadAll_frame)
qed

lemma reload_entries_err:
  "fst (reload_entries loads i es err cs) = None \<longleftrightarrow>
     err = None \<and> (\<forall>j < length es. \<not> isl (loads (i + j) (CertPath (es ! j)) (KeyPath (es ! j))))"
proof (induction loads i es err cs rule: reload_entries.induct)
  case (2 loads i entry entries firstErr cs)
  then show ?case
    by (cases "loads i (CertPath entry) (KeyPath entry)") (auto simp: All_less_Suc2)
qed simp

section \<open>The interface of a reloadable certificate source\<close>

locale reloadable =
  fixes get :: "'s \<Rightarrow> string option \<Rightarrow> cert" and reload :: "(nat \<Rightarrow> pair_loader) \<Rightarrow> 's \<Rightarrow> 's" and good :: "'s \<Rightarrow> bool"
  assumes reload_good: "good s \<Longrightarrow> good (reload loads s)"
    and reload_fresh: "good s \<Longrightarrow>
      get (reload loads s) h = get s h \<or> (\<exists>i c k. loads i c k = Inr (get (reload loads s) h))"
begin

text \<open>A reload all of whose loads fail changes nothing a client sees.\<close>

lemma failing_keeps: "good s \<Longrightarrow> (\<And>i c k. isl (loads i c k)) \<Longrightarrow> get (reload loads s) h = get s h"
  using reload_fresh [of s loads h] by (metis sum.disc(2))

lemma reloads_good: "good s \<Longrightarrow> good (fold reload ls s)"
  by (induction ls arbitrary: s) (auto intro: reload_good)

text \<open>After any number of reloads a client is served what it was served before, or what one of them loaded.\<close>

lemma reloads_fresh:
  "good s \<Longrightarrow> get (fold reload ls s) h = get s h
     \<or> (\<exists>loads \<in> set ls. \<exists>i c k. loads i c k = Inr (get (fold reload ls s) h))"
proof (induction ls arbitrary: s)
  case (Cons l ls)
  from Cons.IH [OF reload_good [OF Cons.prems], of l] reload_fresh [OF Cons.prems, of l h]
  show ?case by auto
qed simp

end

lemma last_loaded_load: "last_loaded loads i es h = Some c \<Longrightarrow> \<exists>j p q. loads j p q = Inr c"
  by (induction loads i es h rule: last_loaded.induct) (auto split: option.splits if_splits sum.splits)

lemma Reload_default:
  "defaultCert (snd (Reload load cs)) =
     (case load (certPath cs) (keyPath cs) of Inr c \<Rightarrow> c | Inl _ \<Rightarrow> defaultCert cs)"
  by (simp add: Reload_def split: sum.split)

lemma ReloadAll_certs:
  "certs (snd (ReloadAll loads cs)) h =
     (case last_loaded loads 1 (sniEntries cs) h of Some c \<Rightarrow> Some c | None \<Rightarrow> certs cs h)"
  by (simp only: ReloadAll_eq reload_entries_certs Reload_frame)

lemma ReloadAll_fresh:
  "store_inv cs \<Longrightarrow>
   GetCertificate (snd (ReloadAll loads cs)) h = GetCertificate cs h
   \<or> (\<exists>i c k. loads i c k = Inr (GetCertificate (snd (ReloadAll loads cs)) h))"
proof -
  assume inv: "store_inv cs"
  have default: "defaultCert (snd (ReloadAll loads cs)) = defaultCert cs
      \<or> (\<exists>i c k. loads i c k = Inr (defaultCert (snd (ReloadAll loads cs))))"
    by (cases "loads 0 (certPath cs) (keyPath cs)") (auto simp: ReloadAll_frame Reload_default)
  show ?thesis
  proof (cases "\<exists>n. h = Some n \<and> n \<noteq> '''' \<and> certs cs n \<noteq> None")
    case False
    have "certs (snd (ReloadAll loads cs)) n = None" if "certs cs n = None" for n
      using ReloadAll_inv [OF inv, of loads] inv that by (auto simp: store_inv_def ReloadAll_frame)
    with False default show ?thesis by (auto simp: GetCertificate_def split: option.splits)
  next
    case True
    then obtain n c where "h = Some n" "n \<noteq> ''''" "certs cs n = Some c" by auto
    then show ?thesis using last_loaded_load [of loads 1 "sniEntries cs" n]
      by (cases "last_loaded loads 1 (sniEntries cs) n") (auto simp: GetCertificate_def ReloadAll_certs)
  qed
qed

interpretation cert_store: reloadable GetCertificate "\<lambda>loads cs. snd (ReloadAll loads cs)" store_inv
  by unfold_locales (rule ReloadAll_inv ReloadAll_fresh, assumption)+

section \<open>Properties\<close>

text \<open>
  C12. A reload is fail-safe, certificate by certificate. A client that names a configured host gets the
  certificate that the last successful load of an entry for that host gave, and the one it got before
  when no such load succeeded; every other client gets the reloaded default certificate, or the old one
  when the default could not be loaded. One failing file never affects the others.
\<close>

theorem ReloadAll_serves:
  assumes "store_inv cs"
  shows "GetCertificate (snd (ReloadAll loads cs)) hello =
    (if \<exists>e \<in> set (sniEntries cs). hello = Some (Hostname e) \<and> Hostname e \<noteq> ''''
     then (case last_loaded loads 1 (sniEntries cs) (the hello) of Some c \<Rightarrow> c | None \<Rightarrow> GetCertificate cs hello)
     else (case loads 0 (certPath cs) (keyPath cs) of Inr c \<Rightarrow> c | Inl _ \<Rightarrow> defaultCert cs))"
proof (cases "\<exists>e \<in> set (sniEntries cs). hello = Some (Hostname e) \<and> Hostname e \<noteq> ''''")
  case True
  then obtain e where e: "e \<in> set (sniEntries cs)" "hello = Some (Hostname e)" "Hostname e \<noteq> ''''" by blast
  with assms obtain c where "certs cs (Hostname e) = Some c" by (force simp: store_inv_def)
  with e True show ?thesis by (simp add: GetCertificate_def ReloadAll_certs split: option.split)
next
  case False
  have "certs (snd (ReloadAll loads cs)) n = None" if "hello = Some n" "n \<noteq> ''''" for n
    using ReloadAll_inv [OF assms, of loads] False that by (auto simp: store_inv_def ReloadAll_frame)
  with False show ?thesis
    by (auto simp: GetCertificate_def ReloadAll_frame Reload_default split: option.split)
qed

text \<open>A store with two hosts, and a reload in which the files of the second host are missing.\<close>

definition demo_store :: CertStore where
  "demo_store = \<lparr>defaultCert = ''d0'', certs = [''a'' \<mapsto> ''a0'', ''b'' \<mapsto> ''b0''], certPath = ''d.crt'', keyPath = ''d.key'',
     sniEntries = [\<lparr>Hostname = ''a'', CertPath = ''a.crt'', KeyPath = ''a.key''\<rparr>,
                   \<lparr>Hostname = ''b'', CertPath = ''b.crt'', KeyPath = ''b.key''\<rparr>]\<rparr>"

definition demo_loads :: "nat \<Rightarrow> pair_loader" where
  "demo_loads i c k = (if c = ''b.crt'' then Inl ''no such file'' else Inr (c @ ''.new''))"

lemma demo_store_inv: "store_inv demo_store"
  by (auto simp: store_inv_def demo_store_def)

theorem ReloadAll_serves_witness:
  "GetCertificate (snd (ReloadAll demo_loads demo_store)) (Some ''a'') = ''a.crt.new''
   \<and> GetCertificate (snd (ReloadAll demo_loads demo_store)) (Some ''b'') = ''b0''
   \<and> GetCertificate (snd (ReloadAll demo_loads demo_store)) (Some ''c'') = ''d.crt.new''"
  using ReloadAll_serves [OF demo_store_inv, of demo_loads "Some ''a''"]
    ReloadAll_serves [OF demo_store_inv, of demo_loads "Some ''b''"]
    ReloadAll_serves [OF demo_store_inv, of demo_loads "Some ''c''"]
  by (simp add: demo_store_def demo_loads_def GetCertificate_def)

definition entry_error :: "pair_loader \<Rightarrow> SNICertEntry \<Rightarrow> store_error option" where
  "entry_error load e = (case load (CertPath e) (KeyPath e) of Inl x \<Rightarrow> Some (ReloadingSNI (Hostname e) x) | Inr _ \<Rightarrow> None)"

lemma reload_entries_first_error:
  "fst (reload_entries loads i es err cs) =
     first_error (err # map (\<lambda>j. entry_error (loads (i + j)) (es ! j)) [0..<length es])"
proof (induction loads i es err cs rule: reload_entries.induct)
  case (2 loads i entry entries firstErr cs)
  have shift: "[0..<Suc (length entries)] = 0 # map Suc [0..<length entries]"
    by (simp add: map_Suc_upt upt_conv_Cons del: upt_Suc)
  have here: "entry_error (loads i) entry =
      (case loads i (CertPath entry) (KeyPath entry) of Inl x \<Rightarrow> Some (ReloadingSNI (Hostname entry) x) | Inr _ \<Rightarrow> None)"
    by (simp add: entry_error_def)
  show ?case using 2
    by (cases "loads i (CertPath entry) (KeyPath entry)"; cases firstErr)
      (simp_all add: shift comp_def here del: upt_Suc)
qed (simp split: option.split)

text \<open>
  \<open>ReloadAll\<close> returns the first error, in the order default certificate, then SNI entries, and goes on
  to the end: it returns nil exactly when every load succeeded.
\<close>

theorem ReloadAll_first_error:
  "fst (ReloadAll loads cs) =
     first_error
       ((case loads 0 (certPath cs) (keyPath cs) of Inl e \<Rightarrow> Some (ReloadingCert e) | Inr _ \<Rightarrow> None)
        # map (\<lambda>j. entry_error (loads (Suc j)) (sniEntries cs ! j)) [0..<length (sniEntries cs)])"
  unfolding ReloadAll_eq reload_entries_first_error
  by (cases "loads 0 (certPath cs) (keyPath cs)") (simp_all add: Reload_def)

text \<open>
  The states a handshake can observe while \<open>ReloadAll\<close> runs: the lock is released between the loads, so
  after the default certificate any number of entries may have been reloaded.
\<close>

definition during_reload :: "(nat \<Rightarrow> pair_loader) \<Rightarrow> CertStore \<Rightarrow> nat \<Rightarrow> CertStore" where
  "during_reload loads cs n =
     (if n = 0 then cs else snd (reload_entries loads 1 (take (n - 1) (sniEntries cs)) None (snd (Reload (loads 0) cs))))"

lemma reload_entries_err_irrelevant: "snd (reload_entries loads i es err cs) = snd (reload_entries loads i es err' cs)"
proof (induction es arbitrary: i err err' cs)
  case (Cons e es)
  show ?case
  proof (cases "loads i (CertPath e) (KeyPath e)")
    case (Inl x)
    show ?thesis unfolding reload_entries.simps Inl sum.case by (rule Cons.IH)
  next
    case (Inr c)
    show ?thesis unfolding reload_entries.simps Inr sum.case by (rule Cons.IH)
  qed
qed simp

lemma during_reload_final: "length (sniEntries cs) < n \<Longrightarrow> during_reload loads cs n = snd (ReloadAll loads cs)"
  by (auto simp: during_reload_def ReloadAll_eq intro: reload_entries_err_irrelevant)

lemma last_loaded_append:
  "last_loaded loads i (xs @ ys) h =
     (case last_loaded loads (i + length xs) ys h of Some c \<Rightarrow> Some c | None \<Rightarrow> last_loaded loads i xs h)"
  by (induction xs arbitrary: i) (auto split: option.split)

lemma last_loaded_nth:
  "last_loaded loads i es h = Some c \<Longrightarrow>
   \<exists>j < length es. Hostname (es ! j) = h \<and> loads (i + j) (CertPath (es ! j)) (KeyPath (es ! j)) = Inr c"
proof (induction loads i es h rule: last_loaded.induct)
  case (2 loads i e es h)
  show ?case
  proof (cases "last_loaded loads (Suc i) es h")
    case None
    with "2.prems" show ?thesis by (intro exI [of _ 0]) (auto split: if_splits sum.splits)
  next
    case (Some c')
    then obtain j where "j < length es" "Hostname (es ! j) = h" "loads (Suc i + j) (CertPath (es ! j)) (KeyPath (es ! j)) = Inr c"
      using "2.IH" "2.prems" by auto
    then show ?thesis by (intro exI [of _ "Suc j"]) simp
  qed
qed simp

text \<open>A load in the first entries that the whole reload replaces comes from a host that is configured again.\<close>

lemma last_loaded_take:
  assumes "last_loaded loads i (take n es) h = Some c" "last_loaded loads i es h \<noteq> Some c"
  shows "\<exists>j l. j < l \<and> l < length es \<and> Hostname (es ! j) = h \<and> Hostname (es ! l) = h
    \<and> loads (i + j) (CertPath (es ! j)) (KeyPath (es ! j)) = Inr c"
proof -
  from last_loaded_nth [OF assms(1)] obtain j where
    j: "j < n" "j < length es" "Hostname (es ! j) = h" "loads (i + j) (CertPath (es ! j)) (KeyPath (es ! j)) = Inr c" by auto
  have "last_loaded loads i (take n es @ drop n es) h \<noteq> Some c" using assms(2) by simp
  then obtain c' where "last_loaded loads (i + length (take n es)) (drop n es) h = Some c'"
    using assms(1) unfolding last_loaded_append by (auto split: option.splits)
  from last_loaded_nth [OF this] obtain l where "l < length (drop n es)" "Hostname (drop n es ! l) = h" by blast
  then have "n + l < length es" "Hostname (es ! (n + l)) = h" by simp_all
  with j show ?thesis by (intro exI [of _ j] exI [of _ "n + l"]) simp
qed

lemma during_reload_parts:
  "certs (during_reload loads cs (Suc m)) h =
     (case last_loaded loads 1 (take m (sniEntries cs)) h of Some c \<Rightarrow> Some c | None \<Rightarrow> certs cs h)"
  "defaultCert (during_reload loads cs (Suc m)) = defaultCert (snd (ReloadAll loads cs))"
  by (simp_all del: One_nat_def add: during_reload_def reload_entries_certs reload_entries_frame Reload_frame ReloadAll_frame
      split: option.split)

text \<open>
  C18. Handshakes during a reload: a client at any moment of a reload is served the certificate from
  before the reload or the one from after it; or, only if its host is configured more than once, the
  certificate this reload has loaded for an earlier one of its entries, until the later entry replaces it.
  With one entry per host it is never anything but the old or the new certificate.
\<close>

theorem handshake_during_reload:
  assumes "store_inv cs"
  shows "GetCertificate (during_reload loads cs n) hello
      \<in> {GetCertificate cs hello, GetCertificate (snd (ReloadAll loads cs)) hello}
    \<or> (\<exists>j l. j < l \<and> l < length (sniEntries cs) \<and> hello = Some (Hostname (sniEntries cs ! j))
         \<and> Hostname (sniEntries cs ! l) = Hostname (sniEntries cs ! j)
         \<and> loads (Suc j) (CertPath (sniEntries cs ! j)) (KeyPath (sniEntries cs ! j))
             = Inr (GetCertificate (during_reload loads cs n) hello))"
proof (cases n)
  case 0
  then show ?thesis by (simp add: during_reload_def)
next
  case (Suc m)
  let ?s = "during_reload loads cs n"
  note certs = during_reload_parts(1) [of loads cs m, folded Suc] and default = during_reload_parts(2) [of loads cs m, folded Suc]
  have dom: "certs cs h = None \<longleftrightarrow> certs (snd (ReloadAll loads cs)) h = None" for h
    using ReloadAll_inv [OF assms, of loads] assms unfolding store_inv_def ReloadAll_frame by (metis domIff)
  have served: "GetCertificate ?s hello \<in> {GetCertificate cs hello, GetCertificate (snd (ReloadAll loads cs)) hello}"
    if "hello = Some h" "certs ?s h = certs cs h \<or> certs ?s h = certs (snd (ReloadAll loads cs)) h" for h
    using that dom [of h] default by (cases "certs cs h") (auto simp: GetCertificate_def split: option.splits)
  show ?thesis
  proof (cases hello)
    case None
    then show ?thesis by (simp add: GetCertificate_def default)
  next
    case (Some h)
    show ?thesis
    proof (cases "last_loaded loads 1 (take m (sniEntries cs)) h")
      case None
      with served [OF Some] certs [of h] show ?thesis by simp
    next
      case (Some c)
      then have sc: "certs ?s h = Some c" using certs [of h] by simp
      show ?thesis
      proof (cases "last_loaded loads 1 (sniEntries cs) h = Some c \<or> h = ''''")
        case True
        then have "certs ?s h = certs (snd (ReloadAll loads cs)) h \<or> h = ''''" using sc by (auto simp: ReloadAll_certs)
        then show ?thesis using served [OF \<open>hello = Some h\<close>] default \<open>hello = Some h\<close> by (auto simp: GetCertificate_def)
      next
        case False
        with last_loaded_take [OF Some] have "\<exists>j l. j < l \<and> l < length (sniEntries cs) \<and> Hostname (sniEntries cs ! j) = h
            \<and> Hostname (sniEntries cs ! l) = h \<and> loads (Suc j) (CertPath (sniEntries cs ! j)) (KeyPath (sniEntries cs ! j)) = Inr c"
          by simp
        moreover have "GetCertificate ?s hello = c" using False sc \<open>hello = Some h\<close> by (simp add: GetCertificate_def)
        ultimately show ?thesis using \<open>hello = Some h\<close> by auto
      qed
    qed
  qed
qed

theorem handshake_during_reload_witness:
  "GetCertificate (during_reload demo_loads demo_store 2) (Some ''a'') \<in> {''a0'', ''a.crt.new''}"
proof -
  have "\<not> (\<exists>j l. j < l \<and> l < length (sniEntries demo_store) \<and> Hostname (sniEntries demo_store ! l) = Hostname (sniEntries demo_store ! j))"
    by (auto simp: demo_store_def less_Suc_eq)
  with handshake_during_reload [OF demo_store_inv, of demo_loads 2 "Some ''a''"]
  have "GetCertificate (during_reload demo_loads demo_store 2) (Some ''a'')
      \<in> {GetCertificate demo_store (Some ''a''), GetCertificate (snd (ReloadAll demo_loads demo_store)) (Some ''a'')}" by blast
  then show ?thesis by (simp add: demo_store_def demo_loads_def GetCertificate_def ReloadAll_def Reload_def)
qed

text \<open>
  SNI isolation: adding a certificate for a host serves it to clients that name the host and changes
  nothing for any other client; a failing add changes nothing; and every store that is built by these
  operations keeps a certificate for each configured host.
\<close>

theorem AddSNICert_isolated:
  assumes "store_inv cs" and "h \<noteq> ''''"
  shows "store_inv (snd (AddSNICert load h c k cs))
    \<and> GetCertificate (snd (AddSNICert load h c k cs)) hello =
        (case load c k of
           Inr new \<Rightarrow> if hello = Some h then new else GetCertificate cs hello
         | Inl _ \<Rightarrow> GetCertificate cs hello)"
  using assms AddSNICert_inv [OF assms(1)]
  by (auto simp: AddSNICert_def GetCertificate_def split: sum.split option.split)

theorem AddSNICert_isolated_witness:
  "GetCertificate (snd (AddSNICert (demo_loads 0) ''z'' ''z.crt'' ''z.key'' demo_store)) (Some ''z'') = ''z.crt.new''
   \<and> GetCertificate (snd (AddSNICert (demo_loads 0) ''z'' ''z.crt'' ''z.key'' demo_store)) (Some ''a'') = ''a0''"
  using AddSNICert_isolated [OF demo_store_inv, of "''z''" "demo_loads 0" "''z.crt''" "''z.key''" "Some ''z''"]
    AddSNICert_isolated [OF demo_store_inv, of "''z''" "demo_loads 0" "''z.crt''" "''z.key''" "Some ''a''"]
  by (simp add: demo_loads_def demo_store_def GetCertificate_def)

lemma sni_items_ok:
  "sni_items i items = Inr es \<Longrightarrow>
   list_all2 (\<lambda>item e. \<exists>m. item = CMap m \<and> Hostname e = str_field m ''hostname'' \<and> CertPath e = str_field m ''cert''
        \<and> KeyPath e = str_field m ''key'' \<and> Hostname e \<noteq> '''' \<and> CertPath e \<noteq> '''' \<and> KeyPath e \<noteq> '''') items es"
  by (induction i items arbitrary: es rule: sni_items.induct)
    (auto simp: Let_def bind_res_eq_Inr split: cval.splits if_splits)

text \<open>
  \<open>ParseSNIConfig\<close> loses no entry and invents none: when it succeeds on a list, there is one entry for
  each item, in order, with the item's own host and files, none of them empty.
\<close>

theorem ParseSNIConfig_entries:
  assumes "kGet K k ''server.tls.sni'' = Some (CList items)" and "ParseSNIConfig K k = Inr es"
  shows "list_all2 (\<lambda>item e. \<exists>m. item = CMap m \<and> Hostname e = str_field m ''hostname'' \<and> CertPath e = str_field m ''cert''
        \<and> KeyPath e = str_field m ''key'' \<and> Hostname e \<noteq> '''' \<and> CertPath e \<noteq> '''' \<and> KeyPath e \<noteq> '''') items es"
  using assms sni_items_ok [of 0 items es] by (simp add: ParseSNIConfig_def)

theorem ParseSNIConfig_entries_witness:
  "let item = CMap [(''hostname'', CStr ''a''), (''cert'', CStr ''a.crt''), (''key'', CStr ''a.key'')];
       e = \<lparr>Hostname = ''a'', CertPath = ''a.crt'', KeyPath = ''a.key''\<rparr>
   in ParseSNIConfig flat_store [''server.tls.sni'' \<mapsto> CList [item]] = Inr [e] \<and> Hostname e \<noteq> ''''"
  using ParseSNIConfig_entries [of flat_store "[''server.tls.sni'' \<mapsto> CList [CMap [(''hostname'', CStr ''a''), (''cert'', CStr ''a.crt''), (''key'', CStr ''a.key'')]]]"
      "[CMap [(''hostname'', CStr ''a''), (''cert'', CStr ''a.crt''), (''key'', CStr ''a.key'')]]"
      "[\<lparr>Hostname = ''a'', CertPath = ''a.crt'', KeyPath = ''a.key''\<rparr>]"]
  by (simp add: ParseSNIConfig_def flat_store_simps str_field_def)

end
