(* ===== verification/Tls_Config.thy ===== *)
theory Tls_Config
  imports Cert_Store Go_Runtime
begin

text \<open>
  \<open>internal/tls/tls.go\<close>, \<open>server.go\<close>, \<open>remote.go\<close>: the TLS configurations of both sides of the proxy, built
  from the configuration store. Files, certificates and the system's roots are an argument (\<open>tls_env\<close>);
  a certificate pool is the list of its certificates, \<open>None\<close> is a nil pool (which \<open>crypto/tls\<close> takes as
  the system's roots). A nil slice of suites or protocols is the empty list: both are only appended to.
\<close>

record TLSOptions =
  MinVersion :: u16
  MaxVersion :: u16
  optCipherSuites :: "u16 list"
  NextProtos :: "string list"

definition split_alpn :: "string \<Rightarrow> string list" where
  "split_alpn alpn = filter (\<lambda>p. p \<noteq> '''') (map TrimSpace (Split (CHR '','') alpn))"

definition ParseTLSOptions :: "'k koanf \<Rightarrow> suite_tables \<Rightarrow> 'k \<Rightarrow> string \<Rightarrow> tls_error + TLSOptions" where
  "ParseTLSOptions K T k pre =
     bind_res (ParseTLSVersion (kString K k (pre @ ''.minversion''))) (\<lambda>minV.
     bind_res (ParseTLSVersion (kString K k (pre @ ''.maxversion''))) (\<lambda>maxV.
     bind_res (ParseCipherSuites T (kString K k (pre @ ''.ciphersuites''))) (\<lambda>ids.
       let alpn = TrimSpace (kString K k (pre @ ''.alpn'')) in
       Inr \<lparr>MinVersion = minV, MaxVersion = maxV, optCipherSuites = ids,
            NextProtos = (if alpn \<noteq> '''' then split_alpn alpn else [])\<rparr>)))"

type_synonym pool = "string list"

record tls_env =
  statOk :: "string \<Rightarrow> bool"
  loadPair :: pair_loader
  sysRoots :: "kerr + pool"
  readFile :: "string \<Rightarrow> kerr + string"
  pemCerts :: "string \<Rightarrow> pool"

datatype client_auth = NoClientCert | RequireAnyClientCert | RequireAndVerifyClientCert
datatype get_cert = NoGetCertificate | FromStore | FromAutocert string string string

record tls_config =
  minVersion :: u16
  maxVersion :: u16
  cipherSuites :: "u16 list"
  nextProtos :: "string list"
  certificates :: "cert list"
  getCertificate :: get_cert
  ClientCAs :: "pool option"
  RootCAs :: "pool option"
  ClientAuth :: client_auth
  InsecureSkipVerify :: bool

text \<open>
  \<open>&cryptotls.Config{...}\<close> with the minimum version defaulted and the other options set when given; the
  five lines that do this are the same in \<open>LoadConfigFromFiles\<close>, \<open>GetServerConfig\<close> (twice) and \<open>ConfigRemote\<close>.
\<close>

definition base_config :: "TLSOptions \<Rightarrow> tls_config" where
  "base_config opts =
     \<lparr>minVersion = (if MinVersion opts = 0 then VersionTLS12 else MinVersion opts),
      maxVersion = MaxVersion opts, cipherSuites = optCipherSuites opts, nextProtos = NextProtos opts,
      certificates = [], getCertificate = NoGetCertificate, ClientCAs = None, RootCAs = None,
      ClientAuth = NoClientCert, InsecureSkipVerify = False\<rparr>"

definition FileExists :: "tls_env \<Rightarrow> string \<Rightarrow> bool" where
  "FileExists V name = statOk V name"

definition SystemCAPool :: "tls_env \<Rightarrow> kerr + pool" where
  "SystemCAPool V = sysRoots V"

datatype config_error =
    ParsingOptions tls_error
  | CertKeyMissing
  | PairError kerr
  | NoCASource
  | PoolError kerr
  | ReadCA kerr
  | BadCA string
  | StoreError store_error
  | SNIConfig sni_error
  | SNILoad store_error

text \<open>\<open>AppendCertsFromPEM\<close> reports whether any certificate was added.\<close>

definition append_ca :: "tls_env \<Rightarrow> string \<Rightarrow> pool \<Rightarrow> config_error + pool" where
  "append_ca V ca caPool =
     (case readFile V ca of
        Inl e \<Rightarrow> Inl (ReadCA e)
      | Inr caPem \<Rightarrow> if pemCerts V caPem = [] then Inl (BadCA ca) else Inr (caPool @ pemCerts V caPem))"

definition LoadConfigFromFiles ::
  "tls_env \<Rightarrow> string \<Rightarrow> string \<Rightarrow> string \<Rightarrow> bool \<Rightarrow> TLSOptions \<Rightarrow> config_error + tls_config" where
  "LoadConfigFromFiles V cert key ca loadSystemRoots opts =
     (if \<not> FileExists V cert \<or> \<not> FileExists V key then Inl CertKeyMissing
      else
        (case loadPair V cert key of
           Inl e \<Rightarrow> Inl (PairError e)
         | Inr tlsCert \<Rightarrow>
             if ca = '''' \<and> \<not> loadSystemRoots then Inl NoCASource
             else
               bind_res (if loadSystemRoots then map_err PoolError (SystemCAPool V) else Inr []) (\<lambda>caPool.
               bind_res (if ca \<noteq> '''' then append_ca V ca caPool else Inr caPool) (\<lambda>caPool.
                 Inr ((base_config opts)\<lparr>ClientCAs := Some caPool, RootCAs := Some caPool, certificates := [tlsCert]\<rparr>)))))"

definition loadCAPool :: "tls_env \<Rightarrow> string \<Rightarrow> bool \<Rightarrow> config_error + pool" where
  "loadCAPool V ca loadSystemRoots =
     bind_res (if loadSystemRoots then map_err PoolError (SystemCAPool V) else Inr []) (\<lambda>caPool.
       if ca \<noteq> '''' then append_ca V ca caPool else Inr caPool)"

section \<open>The server side\<close>

fun add_all :: "pair_loader \<Rightarrow> SNICertEntry list \<Rightarrow> CertStore \<Rightarrow> store_error + CertStore" where
  "add_all load [] store = Inr store"
| "add_all load (e # es) store =
     (case AddSNICert load (Hostname e) (CertPath e) (KeyPath e) store of
        (Some addErr, _) \<Rightarrow> Inl addErr
      | (None, store') \<Rightarrow> add_all load es store')"

definition cert_server_config ::
  "'k koanf \<Rightarrow> tls_env \<Rightarrow> 'k \<Rightarrow> TLSOptions \<Rightarrow> string \<Rightarrow> string \<Rightarrow> string \<Rightarrow> config_error + (tls_config \<times> CertStore)" where
  "cert_server_config K V k opts cert key ca =
     bind_res (map_err StoreError (NewCertStore (loadPair V) cert key)) (\<lambda>store.
     bind_res (map_err SNIConfig (ParseSNIConfig K k)) (\<lambda>entries.
     bind_res (map_err SNILoad (add_all (loadPair V) entries store)) (\<lambda>store.
       let conf = (base_config opts)\<lparr>getCertificate := FromStore\<rparr> in
       if ca \<noteq> '''' then
         bind_res (loadCAPool V ca False) (\<lambda>caPool.
           Inr (conf\<lparr>ClientCAs := Some caPool, RootCAs := Some caPool\<rparr>, store))
       else Inr (conf, store))))"

text \<open>\<open>require\<close> and \<open>verify\<close>, in this order: \<open>verify\<close> overrides \<open>require\<close>.\<close>

definition set_client_auth :: "'k koanf \<Rightarrow> 'k \<Rightarrow> tls_config \<Rightarrow> tls_config" where
  "set_client_auth K k conf =
     (let conf = (if kBool K k ''server.tls.require'' then conf\<lparr>ClientAuth := RequireAnyClientCert\<rparr> else conf) in
      if kBool K k ''server.tls.verify'' then conf\<lparr>ClientAuth := RequireAndVerifyClientCert\<rparr> else conf)"

definition GetServerConfig ::
  "'k koanf \<Rightarrow> suite_tables \<Rightarrow> tls_env \<Rightarrow> 'k \<Rightarrow> config_error + (tls_config option \<times> CertStore option)" where
  "GetServerConfig K T V k =
     (let cert = kString K k ''server.tls.cert''; key = kString K k ''server.tls.key''; ca = kString K k ''server.tls.ca'' in
      bind_res (map_err ParsingOptions (ParseTLSOptions K T k ''server.tls'')) (\<lambda>opts.
        if kBool K k ''server.tls.letsencrypt.enable'' then
          Inr (Some (set_client_auth K k ((base_config opts)\<lparr>getCertificate :=
                 FromAutocert (kString K k ''server.tls.letsencrypt.domain'')
                   (kString K k ''server.tls.letsencrypt.email'') (kString K k ''server.tls.letsencrypt.cachedir'')\<rparr>)), None)
        else if cert \<noteq> '''' \<or> key \<noteq> '''' then
          bind_res (cert_server_config K V k opts cert key ca) (\<lambda>(conf, store).
            Inr (Some (set_client_auth K k conf), Some store))
        else Inr (None, None)))"

datatype listener = PlainListener | TLSListener tls_config

definition ConfigServer ::
  "'k koanf \<Rightarrow> suite_tables \<Rightarrow> tls_env \<Rightarrow> 'k \<Rightarrow> config_error + (listener \<times> CertStore option)" where
  "ConfigServer K T V k =
     bind_res (GetServerConfig K T V k) (\<lambda>(tlsConf, store).
       case tlsConf of
         Some conf \<Rightarrow> Inr (TLSListener conf, store)
       | None \<Rightarrow> Inr (PlainListener, None))"

section \<open>The remote side\<close>

definition remote_base :: "'k koanf \<Rightarrow> tls_env \<Rightarrow> 'k \<Rightarrow> TLSOptions \<Rightarrow> config_error + tls_config option" where
  "remote_base K V k opts =
     (let isTLS = kBool K k ''remote.tls.enable''; cert = kString K k ''remote.tls.cert'';
          key = kString K k ''remote.tls.key''; ca = kString K k ''remote.tls.ca'';
          useSysRoots = kBool K k ''remote.tls.sysroots'' in
      if FileExists V cert \<and> FileExists V key
      then bind_res (LoadConfigFromFiles V cert key ca useSysRoots opts) (\<lambda>conf. Inr (Some conf))
      else if isTLS then Inr (Some (base_config opts))
      else Inr None)"

definition remote_verify :: "'k koanf \<Rightarrow> tls_env \<Rightarrow> 'k \<Rightarrow> tls_config \<Rightarrow> config_error + tls_config" where
  "remote_verify K V k conf =
     (let doVerify = kBool K k ''remote.tls.verify''; useSysRoots = kBool K k ''remote.tls.sysroots'' in
      bind_res
        (if doVerify \<and> useSysRoots
         then bind_res (map_err PoolError (SystemCAPool V))
                (\<lambda>capool. Inr (conf\<lparr>RootCAs := Some capool, ClientCAs := Some capool\<rparr>))
         else Inr conf)
        (\<lambda>conf. Inr (if \<not> doVerify then conf\<lparr>InsecureSkipVerify := True\<rparr> else conf)))"

definition ConfigRemote :: "'k koanf \<Rightarrow> suite_tables \<Rightarrow> tls_env \<Rightarrow> 'k \<Rightarrow> config_error + tls_config option" where
  "ConfigRemote K T V k =
     bind_res (map_err ParsingOptions (ParseTLSOptions K T k ''remote.tls'')) (\<lambda>opts.
     bind_res (remote_base K V k opts) (\<lambda>tlsConf.
       case tlsConf of
         None \<Rightarrow> Inr None
       | Some conf \<Rightarrow> bind_res (remote_verify K V k conf) (\<lambda>conf. Inr (Some conf))))"

section \<open>What the options become\<close>

lemma ParseTLSOptions_Inr:
  assumes "ParseTLSOptions K T k pre = Inr opts"
  shows "ParseTLSVersion (kString K k (pre @ ''.minversion'')) = Inr (MinVersion opts)"
    "ParseTLSVersion (kString K k (pre @ ''.maxversion'')) = Inr (MaxVersion opts)"
    "ParseCipherSuites T (kString K k (pre @ ''.ciphersuites'')) = Inr (optCipherSuites opts)"
  using assms by (auto simp: ParseTLSOptions_def bind_res_eq_Inr Let_def)

text \<open>The part of a configuration that the options decide.\<close>

definition from_options :: "TLSOptions \<Rightarrow> tls_config \<Rightarrow> bool" where
  "from_options opts conf \<longleftrightarrow>
     minVersion conf = minVersion (base_config opts) \<and> maxVersion conf = MaxVersion opts
     \<and> cipherSuites conf = optCipherSuites opts \<and> nextProtos conf = NextProtos opts"

definition client_auth_of :: "'k koanf \<Rightarrow> 'k \<Rightarrow> client_auth" where
  "client_auth_of K k =
     (if kBool K k ''server.tls.verify'' then RequireAndVerifyClientCert
      else if kBool K k ''server.tls.require'' then RequireAnyClientCert else NoClientCert)"

lemma set_client_auth_eq:
  "ClientAuth conf = NoClientCert \<Longrightarrow> set_client_auth K k conf = conf\<lparr>ClientAuth := client_auth_of K k\<rparr>"
  by (simp add: set_client_auth_def client_auth_of_def Let_def)

lemma append_ca_Inr: "append_ca V ca pool = Inr p \<longleftrightarrow>
    (\<exists>pem. readFile V ca = Inr pem \<and> pemCerts V pem \<noteq> [] \<and> p = pool @ pemCerts V pem)"
  by (auto simp: append_ca_def split: sum.splits)

lemma cert_server_config_Inr:
  assumes "cert_server_config K V k opts cert key ca = Inr (conf, store)"
  obtains p where "conf = (base_config opts)\<lparr>getCertificate := FromStore, ClientCAs := p, RootCAs := p\<rparr>"
    "ca = '''' \<Longrightarrow> p = None" "ca \<noteq> '''' \<Longrightarrow> \<exists>pem. readFile V ca = Inr pem \<and> pemCerts V pem \<noteq> [] \<and> p = Some (pemCerts V pem)"
proof (cases "ca = ''''")
  case True
  with assms have "conf = (base_config opts)\<lparr>getCertificate := FromStore\<rparr>"
    by (auto simp: cert_server_config_def bind_res_eq_Inr Let_def)
  with True that [of None] show ?thesis by (simp add: base_config_def)
next
  case False
  with assms obtain p where "loadCAPool V ca False = Inr p"
      "conf = (base_config opts)\<lparr>getCertificate := FromStore, ClientCAs := Some p, RootCAs := Some p\<rparr>"
    by (auto simp: cert_server_config_def bind_res_eq_Inr Let_def)
  with False that [of "Some p"] show ?thesis by (auto simp: loadCAPool_def append_ca_Inr)
qed

lemma GetServerConfig_Inr:
  assumes "GetServerConfig K T V k = Inr (tlsConf, store)"
  obtains (acme) opts where "ParseTLSOptions K T k ''server.tls'' = Inr opts" "kBool K k ''server.tls.letsencrypt.enable''"
      "tlsConf = Some (set_client_auth K k ((base_config opts)\<lparr>getCertificate :=
          FromAutocert (kString K k ''server.tls.letsencrypt.domain'')
            (kString K k ''server.tls.letsencrypt.email'') (kString K k ''server.tls.letsencrypt.cachedir'')\<rparr>))" "store = None"
  | (files) opts conf cs where "ParseTLSOptions K T k ''server.tls'' = Inr opts" "\<not> kBool K k ''server.tls.letsencrypt.enable''"
      "kString K k ''server.tls.cert'' \<noteq> '''' \<or> kString K k ''server.tls.key'' \<noteq> ''''"
      "cert_server_config K V k opts (kString K k ''server.tls.cert'') (kString K k ''server.tls.key'')
         (kString K k ''server.tls.ca'') = Inr (conf, cs)"
      "tlsConf = Some (set_client_auth K k conf)" "store = Some cs"
  | (plain) "\<not> kBool K k ''server.tls.letsencrypt.enable''" "kString K k ''server.tls.cert'' = ''''"
      "kString K k ''server.tls.key'' = ''''" "tlsConf = None" "store = None"
proof -
  from assms obtain opts where opts: "ParseTLSOptions K T k ''server.tls'' = Inr opts"
    by (auto simp: GetServerConfig_def bind_res_eq_Inr Let_def)
  show ?thesis
  proof (cases "kBool K k ''server.tls.letsencrypt.enable''")
    case True
    with assms opts acme show ?thesis by (auto simp: GetServerConfig_def Let_def)
  next
    case False
    with assms opts files plain show ?thesis
      by (auto simp: GetServerConfig_def Let_def bind_res_eq_Inr split: if_splits)
  qed
qed

section \<open>Properties of the server side\<close>

lemma ConfigServer_listener:
  assumes "ConfigServer K T V k = Inr (l, store)"
  shows "(l = PlainListener \<longleftrightarrow> \<not> kBool K k ''server.tls.letsencrypt.enable''
            \<and> kString K k ''server.tls.cert'' = '''' \<and> kString K k ''server.tls.key'' = '''')
    \<and> (\<forall>conf. l = TLSListener conf \<longrightarrow> ClientAuth conf = client_auth_of K k
        \<and> (if kBool K k ''server.tls.letsencrypt.enable''
           then store = None \<and> ClientCAs conf = None
             \<and> getCertificate conf = FromAutocert (kString K k ''server.tls.letsencrypt.domain'')
                 (kString K k ''server.tls.letsencrypt.email'') (kString K k ''server.tls.letsencrypt.cachedir'')
           else store \<noteq> None \<and> getCertificate conf = FromStore
             \<and> (if kString K k ''server.tls.ca'' = '''' then ClientCAs conf = None
                else \<exists>pem. readFile V (kString K k ''server.tls.ca'') = Inr pem \<and> pemCerts V pem \<noteq> []
                       \<and> ClientCAs conf = Some (pemCerts V pem))))"
proof -
  from assms obtain tlsConf st where g: "GetServerConfig K T V k = Inr (tlsConf, st)"
    and l: "l = (case tlsConf of Some conf \<Rightarrow> TLSListener conf | None \<Rightarrow> PlainListener)"
      "store = (case tlsConf of Some conf \<Rightarrow> st | None \<Rightarrow> None)"
    by (auto simp: ConfigServer_def bind_res_eq_Inr split: option.splits)
  from g show ?thesis
  proof (cases rule: GetServerConfig_Inr)
    case (acme opts)
    with l show ?thesis by (simp add: set_client_auth_eq base_config_def)
  next
    case (files opts conf cs)
    from files(4) show ?thesis
    proof (cases rule: cert_server_config_Inr)
      case (1 p)
      with l files(2,3,5,6) show ?thesis by (auto simp: set_client_auth_eq base_config_def)
    qed
  next
    case plain
    with l show ?thesis by simp
  qed
qed

text \<open>
  C16. No silent plaintext: when \<open>ConfigServer\<close> succeeds, the listener is plain exactly when no TLS was
  asked for (no Let's Encrypt, no certificate, no key); otherwise it is a TLS listener that demands client
  certificates as configured (\<open>verify\<close> overrides \<open>require\<close>). In certificate mode it takes its certificates from
  the store and verifies clients against exactly the certificates of \<open>server.tls.ca\<close>, or the system's roots
  when that is not set. With Let's Encrypt its certificates come from the ACME manager of the configured
  domain, there is no store to reload, and \<open>server.tls.ca\<close> is not used: the client roots are nil, which are
  the system's.
\<close>

theorem ConfigServer_no_plaintext_fallback:
  assumes "ConfigServer K T V k = Inr (l, store)"
  shows "(l = PlainListener \<longleftrightarrow> \<not> kBool K k ''server.tls.letsencrypt.enable''
            \<and> kString K k ''server.tls.cert'' = '''' \<and> kString K k ''server.tls.key'' = '''')
    \<and> (\<forall>conf. l = TLSListener conf \<longrightarrow> ClientAuth conf = client_auth_of K k
        \<and> (if kBool K k ''server.tls.letsencrypt.enable''
           then store = None \<and> ClientCAs conf = None
             \<and> getCertificate conf = FromAutocert (kString K k ''server.tls.letsencrypt.domain'')
                 (kString K k ''server.tls.letsencrypt.email'') (kString K k ''server.tls.letsencrypt.cachedir'')
           else store \<noteq> None \<and> getCertificate conf = FromStore
             \<and> (if kString K k ''server.tls.ca'' = '''' then ClientCAs conf = None
                else \<exists>pem. readFile V (kString K k ''server.tls.ca'') = Inr pem \<and> pemCerts V pem \<noteq> []
                       \<and> ClientCAs conf = Some (pemCerts V pem))))"
  using assms by (rule ConfigServer_listener)

text \<open>A store and an environment with one certificate and a client CA.\<close>

definition demo_tls_env :: tls_env where
  "demo_tls_env = \<lparr>statOk = (\<lambda>f. f \<in> {''c.crt'', ''c.key'', ''ca.crt''}), loadPair = (\<lambda>c k. Inr c),
     sysRoots = Inr [''system''], readFile = (\<lambda>f. Inr f), pemCerts = (\<lambda>pem. [pem])\<rparr>"

definition demo_suites :: suite_tables where
  "demo_suites = \<lparr>CipherSuites = [(''TLS_AES_128_GCM_SHA256'', 0x1301)], InsecureCipherSuites = []\<rparr>"

definition demo_tls_config :: layer where
  "demo_tls_config = [''server.tls.cert'' \<mapsto> CStr ''c.crt'', ''server.tls.key'' \<mapsto> CStr ''c.key'',
     ''server.tls.ca'' \<mapsto> CStr ''ca.crt'', ''server.tls.verify'' \<mapsto> CBool True]"

theorem ConfigServer_no_plaintext_fallback_witness:
  "(\<exists>conf cs. ConfigServer flat_store demo_suites demo_tls_env demo_tls_config = Inr (TLSListener conf, Some cs)
     \<and> ClientAuth conf = RequireAndVerifyClientCert \<and> ClientCAs conf = Some [''ca.crt''])
   \<and> (\<exists>conf. ConfigServer flat_store demo_suites demo_tls_env (demo_tls_config(''server.tls.letsencrypt.enable'' \<mapsto> CBool True))
         = Inr (TLSListener conf, None) \<and> ClientCAs conf = None)"
proof
  let ?acme = "demo_tls_config(''server.tls.letsencrypt.enable'' \<mapsto> CBool True)"
  obtain conf where c: "ConfigServer flat_store demo_suites demo_tls_env ?acme = Inr (TLSListener conf, None)"
    by (simp add: ConfigServer_def GetServerConfig_def ParseTLSOptions_def flat_store_simps demo_tls_config_def Let_def)
  from ConfigServer_no_plaintext_fallback [OF c] c
  show "\<exists>conf. ConfigServer flat_store demo_suites demo_tls_env ?acme = Inr (TLSListener conf, None) \<and> ClientCAs conf = None"
    by (auto simp: flat_store_simps)
next
  obtain conf cs where c: "ConfigServer flat_store demo_suites demo_tls_env demo_tls_config = Inr (TLSListener conf, Some cs)"
    by (simp add: ConfigServer_def GetServerConfig_def ParseTLSOptions_def flat_store_simps demo_tls_config_def
        cert_server_config_def NewCertStore_def demo_tls_env_def ParseSNIConfig_def loadCAPool_def append_ca_def Let_def)
  from ConfigServer_no_plaintext_fallback [OF c]
  have "ClientAuth conf = RequireAndVerifyClientCert" "ClientCAs conf = Some [''ca.crt'']"
    by (simp_all add: client_auth_of_def flat_store_simps demo_tls_config_def demo_tls_env_def)
  with c show "\<exists>conf cs. ConfigServer flat_store demo_suites demo_tls_env demo_tls_config = Inr (TLSListener conf, Some cs)
     \<and> ClientAuth conf = RequireAndVerifyClientCert \<and> ClientCAs conf = Some [''ca.crt'']" by blast
qed

section \<open>Properties of the remote side\<close>

lemma LoadConfigFromFiles_Inr:
  assumes "LoadConfigFromFiles V cert key ca sys opts = Inr conf"
  obtains p c where "conf = (base_config opts)\<lparr>ClientCAs := Some p, RootCAs := Some p, certificates := [c]\<rparr>"
    "loadPair V cert key = Inr c"
    "p = (if sys then projr (SystemCAPool V) else []) @ (if ca \<noteq> '''' then pemCerts V (projr (readFile V ca)) else [])"
proof -
  from assms obtain c where c: "loadPair V cert key = Inr c"
    and rest: "bind_res (if sys then map_err PoolError (SystemCAPool V) else Inr []) (\<lambda>caPool.
               bind_res (if ca \<noteq> '''' then append_ca V ca caPool else Inr caPool) (\<lambda>caPool.
                 Inr ((base_config opts)\<lparr>ClientCAs := Some caPool, RootCAs := Some caPool, certificates := [c]\<rparr>))) = Inr conf"
    by (auto simp: LoadConfigFromFiles_def split: if_splits sum.splits)
  from rest obtain p0 where p0: "(if sys then map_err PoolError (SystemCAPool V) else Inr []) = Inr p0"
    and rest: "bind_res (if ca \<noteq> '''' then append_ca V ca p0 else Inr p0) (\<lambda>caPool.
                 Inr ((base_config opts)\<lparr>ClientCAs := Some caPool, RootCAs := Some caPool, certificates := [c]\<rparr>)) = Inr conf"
    unfolding bind_res_eq_Inr by blast
  from rest obtain p where p: "(if ca \<noteq> '''' then append_ca V ca p0 else Inr p0) = Inr p"
    and conf: "conf = (base_config opts)\<lparr>ClientCAs := Some p, RootCAs := Some p, certificates := [c]\<rparr>"
    unfolding bind_res_eq_Inr by blast
  from p p0 have "p = (if sys then projr (SystemCAPool V) else []) @ (if ca \<noteq> '''' then pemCerts V (projr (readFile V ca)) else [])"
    by (auto simp: append_ca_Inr split: if_splits)
  with conf c show ?thesis by (rule that)
qed

text \<open>The client certificate: the one loaded from the two files when both exist, and none otherwise.\<close>

definition client_cert :: "'k koanf \<Rightarrow> tls_env \<Rightarrow> 'k \<Rightarrow> tls_config \<Rightarrow> bool" where
  "client_cert K V k conf \<longleftrightarrow>
     (let cert = kString K k ''remote.tls.cert''; key = kString K k ''remote.tls.key'' in
      if statOk V cert \<and> statOk V key then (\<exists>c. loadPair V cert key = Inr c \<and> certificates conf = [c])
      else certificates conf = [])"

lemma remote_base_Inr:
  assumes "remote_base K V k opts = Inr (Some conf)"
  shows "from_options opts conf \<and> \<not> InsecureSkipVerify conf \<and> client_cert K V k conf
    \<and> RootCAs conf =
        (if FileExists V (kString K k ''remote.tls.cert'') \<and> FileExists V (kString K k ''remote.tls.key'')
         then Some ((if kBool K k ''remote.tls.sysroots'' then projr (SystemCAPool V) else [])
                @ (if kString K k ''remote.tls.ca'' \<noteq> '''' then pemCerts V (projr (readFile V (kString K k ''remote.tls.ca''))) else []))
         else None)"
proof (cases "FileExists V (kString K k ''remote.tls.cert'') \<and> FileExists V (kString K k ''remote.tls.key'')")
  case True
  with assms have "LoadConfigFromFiles V (kString K k ''remote.tls.cert'') (kString K k ''remote.tls.key'')
      (kString K k ''remote.tls.ca'') (kBool K k ''remote.tls.sysroots'') opts = Inr conf"
    by (simp add: remote_base_def Let_def bind_res_eq_Inr)
  then show ?thesis by (cases rule: LoadConfigFromFiles_Inr) (use True in \<open>simp add: from_options_def base_config_def client_cert_def FileExists_def\<close>)
next
  case False
  with assms have "conf = base_config opts" by (auto simp: remote_base_def Let_def split: if_splits)
  with False show ?thesis by (auto simp: from_options_def base_config_def client_cert_def FileExists_def)
qed

lemma remote_verify_Inr:
  "remote_verify K V k conf = Inr conf' \<Longrightarrow> \<not> InsecureSkipVerify conf \<Longrightarrow>
     (from_options opts conf' \<longleftrightarrow> from_options opts conf) \<and> (client_cert K V k conf' \<longleftrightarrow> client_cert K V k conf)
     \<and> InsecureSkipVerify conf' = (\<not> kBool K k ''remote.tls.verify'')
     \<and> RootCAs conf' = (if kBool K k ''remote.tls.verify'' \<and> kBool K k ''remote.tls.sysroots''
                        then Some (projr (SystemCAPool V)) else RootCAs conf)"
  by (cases "SystemCAPool V") (auto simp: remote_verify_def Let_def from_options_def client_cert_def split: if_splits)

lemma ConfigRemote_Inr:
  assumes "ConfigRemote K T V k = Inr (Some conf)"
  obtains opts conf0 where "ParseTLSOptions K T k ''remote.tls'' = Inr opts" "remote_base K V k opts = Inr (Some conf0)"
    "remote_verify K V k conf0 = Inr conf"
  using assms by (auto simp: ConfigRemote_def bind_res_eq_Inr split: option.splits)

lemma ConfigRemote_verified:
  assumes "ConfigRemote K T V k = Inr (Some conf)"
  shows "InsecureSkipVerify conf = (\<not> kBool K k ''remote.tls.verify'') \<and> client_cert K V k conf
    \<and> RootCAs conf =
        (if kBool K k ''remote.tls.verify'' \<and> kBool K k ''remote.tls.sysroots'' then Some (projr (SystemCAPool V))
         else if FileExists V (kString K k ''remote.tls.cert'') \<and> FileExists V (kString K k ''remote.tls.key'')
         then Some ((if kBool K k ''remote.tls.sysroots'' then projr (SystemCAPool V) else [])
                @ (if kString K k ''remote.tls.ca'' \<noteq> '''' then pemCerts V (projr (readFile V (kString K k ''remote.tls.ca''))) else []))
         else None)"
  using assms
proof (cases rule: ConfigRemote_Inr)
  case (1 opts conf0)
  with remote_base_Inr [OF 1(2)] remote_verify_Inr [OF 1(3)] show ?thesis by simp
qed

text \<open>
  C17. Verification of the backend, exactly: in every TLS configuration that \<open>ConfigRemote\<close> returns,
  certificate verification is switched off iff \<open>remote.tls.verify\<close> is false; the client certificate is the
  one loaded from \<open>remote.tls.cert\<close> and \<open>remote.tls.key\<close> when both files exist, and there is none otherwise; and
  the roots are the system's roots when both \<open>verify\<close> and \<open>sysroots\<close> are set; otherwise, with a client
  certificate on disk, the system's roots (if \<open>sysroots\<close>) followed by the certificates of \<open>remote.tls.ca\<close>;
  otherwise nil. So \<open>remote.tls.ca\<close> has an effect only together with a client certificate and with \<open>verify\<close> or
  \<open>sysroots\<close> off.
\<close>

theorem ConfigRemote_roots:
  assumes "ConfigRemote K T V k = Inr (Some conf)"
  shows "InsecureSkipVerify conf = (\<not> kBool K k ''remote.tls.verify'') \<and> client_cert K V k conf
    \<and> RootCAs conf =
        (if kBool K k ''remote.tls.verify'' \<and> kBool K k ''remote.tls.sysroots'' then Some (projr (SystemCAPool V))
         else if FileExists V (kString K k ''remote.tls.cert'') \<and> FileExists V (kString K k ''remote.tls.key'')
         then Some ((if kBool K k ''remote.tls.sysroots'' then projr (SystemCAPool V) else [])
                @ (if kString K k ''remote.tls.ca'' \<noteq> '''' then pemCerts V (projr (readFile V (kString K k ''remote.tls.ca''))) else []))
         else None)"
  using assms by (rule ConfigRemote_verified)

definition demo_remote :: layer where
  "demo_remote = [''remote.tls.enable'' \<mapsto> CBool True, ''remote.tls.verify'' \<mapsto> CBool True,
     ''remote.tls.cert'' \<mapsto> CStr ''c.crt'', ''remote.tls.key'' \<mapsto> CStr ''c.key'', ''remote.tls.ca'' \<mapsto> CStr ''ca.crt'']"

lemmas remote_eval = ConfigRemote_def remote_base_def remote_verify_def ParseTLSOptions_def flat_store_simps
  LoadConfigFromFiles_def FileExists_def SystemCAPool_def append_ca_def demo_tls_env_def demo_remote_def

theorem ConfigRemote_roots_witness:
  "\<exists>conf. ConfigRemote flat_store demo_suites demo_tls_env demo_remote = Inr (Some conf)
     \<and> RootCAs conf = Some [''ca.crt''] \<and> certificates conf = [''c.crt''] \<and> \<not> InsecureSkipVerify conf"
proof -
  obtain conf where c: "ConfigRemote flat_store demo_suites demo_tls_env demo_remote = Inr (Some conf)"
    by (simp add: remote_eval Let_def)
  from ConfigRemote_roots [OF c] c show ?thesis by (simp add: remote_eval client_cert_def)
qed

section \<open>Protocol versions\<close>

lemma ConfigServer_options:
  assumes "ConfigServer K T V k = Inr (TLSListener conf, store)"
  shows "\<exists>opts. ParseTLSOptions K T k ''server.tls'' = Inr opts \<and> from_options opts conf"
proof -
  from assms obtain st where g: "GetServerConfig K T V k = Inr (Some conf, st)"
    by (auto simp: ConfigServer_def bind_res_eq_Inr split: option.splits)
  from g show ?thesis
  proof (cases rule: GetServerConfig_Inr)
    case (acme opts)
    then show ?thesis by (auto simp: set_client_auth_eq from_options_def base_config_def)
  next
    case (files opts conf0 cs)
    from files(4) show ?thesis
      by (cases rule: cert_server_config_Inr) (use files in \<open>auto simp: set_client_auth_eq from_options_def base_config_def\<close>)
  qed simp
qed

lemma ConfigRemote_options:
  assumes "ConfigRemote K T V k = Inr (Some conf)"
  shows "\<exists>opts. ParseTLSOptions K T k ''remote.tls'' = Inr opts \<and> from_options opts conf"
  using assms
proof (cases rule: ConfigRemote_Inr)
  case (1 opts conf0)
  with remote_base_Inr [OF 1(2)] remote_verify_Inr [OF 1(3), of opts] show ?thesis by auto
qed

text \<open>
  The versions a pair of settings asks for, by the numbers the protocol gives them; a minimum that is not
  set is TLS 1.2, a maximum that is not set is 0, no limit.
\<close>

definition version_named :: "string \<Rightarrow> u16 \<Rightarrow> bool" where
  "version_named s v \<longleftrightarrow> (s, v) \<in> {(''1.0'', 0x0301), (''1.1'', 0x0302), (''1.2'', 0x0303), (''1.3'', 0x0304)}"

definition versions_of :: "'k koanf \<Rightarrow> 'k \<Rightarrow> string \<Rightarrow> tls_config \<Rightarrow> bool" where
  "versions_of K k pre conf \<longleftrightarrow>
     (let mn = TrimSpace (kString K k (pre @ ''.minversion'')); mx = TrimSpace (kString K k (pre @ ''.maxversion'')) in
      (if mn = '''' then minVersion conf = 0x0303 else version_named mn (minVersion conf))
      \<and> (if mx = '''' then maxVersion conf = 0 else version_named mx (maxVersion conf)))"

lemma ParseTLSVersion_named:
  "ParseTLSVersion s = Inr v \<Longrightarrow> if TrimSpace s = '''' then v = 0 else v \<noteq> 0 \<and> version_named (TrimSpace s) v"
  by (auto simp: ParseTLSVersion_def Let_def version_named_def TLSVersionNames_cases version_defs split: option.splits if_splits)

lemma from_options_versions:
  assumes "ParseTLSOptions K T k pre = Inr opts" "from_options opts conf"
  shows "versions_of K k pre conf"
  using ParseTLSOptions_Inr(1,2) [OF assms(1), THEN ParseTLSVersion_named] assms(2)
  by (simp add: versions_of_def from_options_def base_config_def version_defs Let_def split: if_splits)

text \<open>
  C29. Secure default versions on either side: every TLS configuration the program builds for clients,
  and every one it builds for the backend, whether or not the other side uses TLS, has TLS 1.2 as its
  minimum unless the operator names another version, and then exactly that one by its protocol number;
  and its maximum is the one named, or none.
\<close>

theorem tls_versions_as_configured:
  shows "(\<forall>conf store. ConfigServer K T V k = Inr (TLSListener conf, store) \<longrightarrow> versions_of K k ''server.tls'' conf)
    \<and> (\<forall>conf. ConfigRemote K T V k = Inr (Some conf) \<longrightarrow> versions_of K k ''remote.tls'' conf)"
  by (auto dest!: ConfigServer_options ConfigRemote_options dest: from_options_versions)

text \<open>TLS on the server side only, with a named minimum, and on the remote side only.\<close>

theorem tls_versions_as_configured_witness:
  "(\<exists>conf cs. ConfigServer flat_store demo_suites demo_tls_env (demo_tls_config(''server.tls.minversion'' \<mapsto> CStr ''1.3''))
       = Inr (TLSListener conf, cs) \<and> minVersion conf = 0x0304)
   \<and> (\<exists>conf. ConfigRemote flat_store demo_suites demo_tls_env demo_remote = Inr (Some conf) \<and> minVersion conf = 0x0303)"
proof
  let ?k = "demo_tls_config(''server.tls.minversion'' \<mapsto> CStr ''1.3'')"
  have trim: "TrimSpace ''1.3'' = ''1.3''" "ParseTLSVersion ''1.3'' = Inr 0x0304" by code_simp+
  obtain conf cs where s: "ConfigServer flat_store demo_suites demo_tls_env ?k = Inr (TLSListener conf, cs)"
    by (simp add: ConfigServer_def GetServerConfig_def remote_eval demo_tls_config_def trim
        cert_server_config_def NewCertStore_def ParseSNIConfig_def loadCAPool_def Let_def)
  from tls_versions_as_configured [of flat_store demo_suites demo_tls_env ?k] s have "versions_of flat_store ?k ''server.tls'' conf"
    by blast
  then have "minVersion conf = 0x0304"
    by (simp add: versions_of_def flat_store_simps trim version_named_def Let_def)
  with s show "\<exists>conf cs. ConfigServer flat_store demo_suites demo_tls_env ?k = Inr (TLSListener conf, cs) \<and> minVersion conf = 0x0304"
    by blast
next
  obtain conf where r: "ConfigRemote flat_store demo_suites demo_tls_env demo_remote = Inr (Some conf)"
    by (simp add: remote_eval Let_def)
  from tls_versions_as_configured [of flat_store demo_suites demo_tls_env demo_remote] r
  have "versions_of flat_store demo_remote ''remote.tls'' conf" by blast
  then have "minVersion conf = 0x0303" by (simp add: versions_of_def flat_store_simps demo_remote_def)
  with r show "\<exists>conf. ConfigRemote flat_store demo_suites demo_tls_env demo_remote = Inr (Some conf) \<and> minVersion conf = 0x0303"
    by blast
qed

end
