(* ===== verification/Transition.thy ===== *)
theory Transition
  imports Prelude
begin

text \<open>
  Transition systems: the reachable states of a system given by its initial states and its steps,
  and the two interfaces the concurrent components are proved against. \<open>invariant_system\<close> turns
  one-step preservation into a fact on all reachable states; \<open>progress_system\<close> turns a decreasing
  measure and the absence of stuck states into termination in a finished state.
\<close>

inductive reach :: "('s \<Rightarrow> bool) \<Rightarrow> ('s \<Rightarrow> 's \<Rightarrow> bool) \<Rightarrow> 's \<Rightarrow> bool" for init step where
  reach_init: "init s \<Longrightarrow> reach init step s"
| reach_step: "reach init step s \<Longrightarrow> step s t \<Longrightarrow> reach init step t"

lemma reach_start [simp, intro]: "reach (\<lambda>s. s = s0) step s0"
  by (rule reach_init) simp

lemma reach_steps: "reach init step s \<Longrightarrow> step\<^sup>*\<^sup>* s t \<Longrightarrow> reach init step t"
  by (rotate_tac, induction rule: rtranclp_induct) (auto intro: reach_step)

locale invariant_system =
  fixes init :: "'s \<Rightarrow> bool" and step :: "'s \<Rightarrow> 's \<Rightarrow> bool" and inv :: "'s \<Rightarrow> bool"
  assumes inv_init: "init s \<Longrightarrow> inv s"
    and inv_step: "inv s \<Longrightarrow> step s t \<Longrightarrow> inv t"
begin

lemma reach_inv: "reach init step s \<Longrightarrow> inv s"
  by (induction rule: reach.induct) (auto intro: inv_init inv_step)

lemma steps_inv: "inv s \<Longrightarrow> step\<^sup>*\<^sup>* s t \<Longrightarrow> inv t"
  by (rotate_tac, induction rule: rtranclp_induct) (auto intro: inv_step)

end

locale progress_system =
  fixes step :: "'s \<Rightarrow> 's \<Rightarrow> bool" and good :: "'s \<Rightarrow> bool" and finished :: "'s \<Rightarrow> bool" and mu :: "'s \<Rightarrow> nat"
  assumes good_step: "good s \<Longrightarrow> step s t \<Longrightarrow> good t"
    and mu_step: "good s \<Longrightarrow> step s t \<Longrightarrow> mu t < mu s"
    and not_stuck: "good s \<Longrightarrow> \<not> finished s \<Longrightarrow> \<exists>t. step s t"
begin

lemma good_steps: "good s \<Longrightarrow> step\<^sup>*\<^sup>* s t \<Longrightarrow> good t"
  by (rotate_tac, induction rule: rtranclp_induct) (auto intro: good_step)

text \<open>A finished state can be reached.\<close>

lemma reaches_finished: "good s \<Longrightarrow> \<exists>t. step\<^sup>*\<^sup>* s t \<and> finished t"
proof (induction "mu s" arbitrary: s rule: less_induct)
  case less
  show ?case
  proof (cases "finished s")
    case True
    then show ?thesis by blast
  next
    case False
    then obtain t where t: "step s t" using not_stuck less.prems by blast
    with less.prems have "mu t < mu s" "good t" by (auto intro: mu_step good_step)
    from less.hyps [OF this] t show ?thesis by (meson converse_rtranclp_into_rtranclp)
  qed
qed

text \<open>A run that cannot go on has finished, and it was not longer than the measure of its start.\<close>

lemma maximal_finished: "good s \<Longrightarrow> step\<^sup>*\<^sup>* s t \<Longrightarrow> \<nexists>u. step t u \<Longrightarrow> finished t"
  using good_steps not_stuck by blast

lemma run_bound: "good s \<Longrightarrow> (step ^^ n) s t \<Longrightarrow> n + mu t \<le> mu s"
proof (induction n arbitrary: t)
  case (Suc n)
  then obtain u where u: "(step ^^ n) s u" "step u t" by auto
  then have "good u" using Suc.prems(1) good_steps relpowp_imp_rtranclp by metis
  with u Suc.IH [OF Suc.prems(1) u(1)] mu_step show ?case by fastforce
qed simp

end

end
