(* ===== verification/Cert_Watcher.thy ===== *)
theory Cert_Watcher
  imports Cert_Store Go_Path Transition "HOL-Library.List_Lexorder" "HOL-Library.Char_ord"
begin

text \<open>
  \<open>internal/tls/watcher.go\<close>: the automatic reload. \<open>Watch\<close> computes the watched files and their
  directories; \<open>watchLoop\<close> is a machine that takes one ready case of its \<open>select\<close> at a time, with the
  moment at which it does so. The debounce timer is modelled as a Go timer with a channel of one element:
  armed with a deadline, fired with its value waiting in the channel, or idle.
\<close>

section \<open>Watched files and relevant events\<close>

text \<open>\<open>filepath.Abs\<close> where it succeeds, else \<open>filepath.Clean\<close>.\<close>

definition abs_or_clean :: "kerr + string \<Rightarrow> string \<Rightarrow> string" where
  "abs_or_clean wd p = (case Abs wd p of Inr q \<Rightarrow> q | Inl _ \<Rightarrow> Clean p)"

definition certFilePaths :: "kerr + string \<Rightarrow> CertStore \<Rightarrow> string list" where
  "certFilePaths wd cs =
     map (abs_or_clean wd)
       (filter (\<lambda>p. p \<noteq> '''')
         ([certPath cs, keyPath cs] @ concat (map (\<lambda>e. [CertPath e, KeyPath e]) (sniEntries cs))))"

record watch_set =
  watchedFiles :: "string set"
  dirs :: "string set"

definition watch_set_of :: "string list \<Rightarrow> watch_set" where
  "watch_set_of files = \<lparr>watchedFiles = set files, dirs = Dir ` set files\<rparr>"

datatype watch_error = CreateWatcher kerr | WatchDir string kerr

text \<open>
  \<open>Watch\<close>: \<open>newWatcher\<close> and \<open>add\<close> are the outcomes of \<open>fsnotify\<close>, and \<open>iter\<close> is the order in which \<open>range\<close>
  visits the directories of the map. The first directory that cannot be added is the error; otherwise
  the result has the sets handed to the loop and the directories added to the watcher.
\<close>

fun add_dirs :: "(string \<Rightarrow> kerr option) \<Rightarrow> string list \<Rightarrow> string list \<Rightarrow> watch_error + string list" where
  "add_dirs add [] added = Inr added"
| "add_dirs add (dir # ds) added =
     (case add dir of
        Some e \<Rightarrow> Inl (WatchDir dir e)
      | None \<Rightarrow> add_dirs add ds (added @ [dir]))"

definition Watch ::
  "kerr + string \<Rightarrow> kerr option \<Rightarrow> (string \<Rightarrow> kerr option) \<Rightarrow> (string set \<Rightarrow> string list) \<Rightarrow> CertStore
    \<Rightarrow> watch_error + (watch_set \<times> string list)" where
  "Watch wd newWatcher add iter cs =
     (case newWatcher of
        Some e \<Rightarrow> Inl (CreateWatcher e)
      | None \<Rightarrow>
          let ws = watch_set_of (certFilePaths wd cs) in
          bind_res (add_dirs add (iter (dirs ws)) []) (\<lambda>added. Inr (ws, added)))"

text \<open>What Go promises of \<open>range\<close> over a map: every key once, in some order.\<close>

definition map_order :: "(string set \<Rightarrow> string list) \<Rightarrow> bool" where
  "map_order iter \<longleftrightarrow> (\<forall>D. finite D \<longrightarrow> distinct (iter D) \<and> set (iter D) = D)"

record fs_event =
  eventName :: string
  isCreate :: bool

definition relevantEvent :: "kerr + string \<Rightarrow> fs_event \<Rightarrow> watch_set \<Rightarrow> bool" where
  "relevantEvent wd event ws =
     (let name = abs_or_clean wd (eventName event) in
      if name \<in> watchedFiles ws then True
      else if isCreate event then Dir name \<in> dirs ws
      else False)"

section \<open>The event loop\<close>

datatype timer = Idle | Armed int | Fired int

record watch_state =
  timer :: timer
  timerActive :: bool
  stopped :: bool
  store :: CertStore
  log :: "(int \<times> bool) list"

text \<open>
  \<open>log\<close> records the moments of relevant events (\<open>False\<close>) and of reloads (\<open>True\<close>), last first; it is not
  part of the program.
\<close>

datatype watch_input =
    CtxDone
  | FsEvent fs_event
  | EventsClosed
  | TimerC "nat \<Rightarrow> pair_loader"
  | WatcherError
  | ErrorsClosed

definition watch_start :: "CertStore \<Rightarrow> watch_state" where
  "watch_start cs = \<lparr>timer = Idle, timerActive = False, stopped = False, store = cs, log = []\<rparr>"

text \<open>\<open>timer.Stop()\<close>: true if the timer was armed; a value that was already sent stays in the channel.\<close>

fun timer_stop :: "timer \<Rightarrow> bool \<times> timer" where
  "timer_stop Idle = (False, Idle)"
| "timer_stop (Armed t) = (True, Idle)"
| "timer_stop (Fired t) = (False, Fired t)"

text \<open>The non-blocking receive from \<open>timer.C\<close>.\<close>

fun timer_drain :: "timer \<Rightarrow> timer" where
  "timer_drain (Fired t) = Idle"
| "timer_drain t = t"

definition rearm :: "int \<Rightarrow> int \<Rightarrow> watch_state \<Rightarrow> watch_state" where
  "rearm debounce now s =
     (let tm = (if timerActive s
                then (case timer_stop (timer s) of
                        (True, tm) \<Rightarrow> tm
                      | (False, tm) \<Rightarrow> timer_drain tm)
                else timer s)
      in s\<lparr>timer := (case tm of Fired t \<Rightarrow> Fired t | _ \<Rightarrow> Armed (now + debounce)), timerActive := True\<rparr>)"

text \<open>
  One turn of the loop at the moment \<open>now\<close>; \<open>None\<close> when the case is not ready (the timer's channel is
  empty). \<open>Reset\<close> of a timer whose channel still holds a value leaves that value there, as Go did before
  version 1.23; the invariant below shows that this never happens.
\<close>

definition watch_turn ::
  "kerr + string \<Rightarrow> watch_set \<Rightarrow> int \<Rightarrow> int \<Rightarrow> watch_input \<Rightarrow> watch_state \<Rightarrow> watch_state option" where
  "watch_turn wd ws debounce now inp s =
     (case inp of
        CtxDone \<Rightarrow> Some (s\<lparr>stopped := True\<rparr>)
      | FsEvent event \<Rightarrow>
          if \<not> relevantEvent wd event ws then Some s
          else Some ((rearm debounce now s)\<lparr>log := (now, False) # log s\<rparr>)
      | EventsClosed \<Rightarrow> Some (s\<lparr>stopped := True\<rparr>)
      | TimerC loads \<Rightarrow>
          (case timer s of
             Fired t \<Rightarrow> Some (s\<lparr>timer := Idle, timerActive := False, store := snd (ReloadAll loads (store s)),
                              log := (now, True) # log s\<rparr>)
           | _ \<Rightarrow> None)
      | WatcherError \<Rightarrow> Some s
      | ErrorsClosed \<Rightarrow> Some (s\<lparr>stopped := True\<rparr>))"

text \<open>
  The machine with its clock: the loop takes a ready case, or time passes and an armed timer whose
  deadline has come sends its value.
\<close>

inductive watch_step ::
  "kerr + string \<Rightarrow> watch_set \<Rightarrow> int \<Rightarrow> int \<times> watch_state \<Rightarrow> int \<times> watch_state \<Rightarrow> bool" for wd ws debounce where
  loop_turn: "\<not> stopped s \<Longrightarrow> watch_turn wd ws debounce now inp s = Some t \<Longrightarrow>
     watch_step wd ws debounce (now, s) (now, t)"
| clock_tick: "now \<le> now' \<Longrightarrow> watch_step wd ws debounce (now, s) (now', s)"
| timer_fires: "timer s = Armed d \<Longrightarrow> d \<le> now \<Longrightarrow> watch_step wd ws debounce (now, s) (now, s\<lparr>timer := Fired d\<rparr>)"

definition last_relevant :: "(int \<times> bool) list \<Rightarrow> int option" where
  "last_relevant l = (case l of (t, False) # _ \<Rightarrow> Some t | _ \<Rightarrow> None)"

text \<open>
  The invariant: the timer is armed or fired exactly while \<open>timerActive\<close> is set, and then the last thing
  that happened was a relevant event, and the deadline is that event's moment plus the window.
\<close>

definition watch_inv :: "int \<Rightarrow> int \<times> watch_state \<Rightarrow> bool" where
  "watch_inv debounce = (\<lambda>(now, s).
     (\<forall>(t, r) \<in> set (log s). t \<le> now)
     \<and> (timerActive s \<longleftrightarrow> timer s \<noteq> Idle)
     \<and> (\<forall>d. timer s = Armed d \<longrightarrow> (\<exists>t. last_relevant (log s) = Some t \<and> d = t + debounce))
     \<and> (\<forall>d. timer s = Fired d \<longrightarrow> d \<le> now \<and> (\<exists>t. last_relevant (log s) = Some t \<and> d = t + debounce))
     \<and> (timer s = Idle \<longrightarrow> last_relevant (log s) = None)
     \<and> store_inv (store s))"

text \<open>Every reload in the log follows the last relevant event before it by the whole window or more.\<close>

fun debounced :: "int \<Rightarrow> (int \<times> bool) list \<Rightarrow> bool" where
  "debounced w [] = True"
| "debounced w ((t, False) # l) = debounced w l"
| "debounced w ((t, True) # l) = ((\<exists>t'. last_relevant l = Some t' \<and> t' + w \<le> t) \<and> debounced w l)"

section \<open>Debouncing\<close>

definition watch_ok :: "int \<Rightarrow> int \<times> watch_state \<Rightarrow> bool" where
  "watch_ok debounce c \<longleftrightarrow> watch_inv debounce c \<and> debounced debounce (log (snd c))"

lemma rearm_armed: "watch_inv debounce (now, s) \<Longrightarrow> rearm debounce now s = s\<lparr>timer := Armed (now + debounce), timerActive := True\<rparr>"
  by (cases "timer s") (auto simp: watch_inv_def rearm_def)

lemma watch_turn_ok:
  assumes "watch_turn wd ws debounce now inp s = Some t" "watch_ok debounce (now, s)"
  shows "watch_ok debounce (now, t)"
proof (cases inp)
  case (FsEvent event)
  show ?thesis
  proof (cases "relevantEvent wd event ws")
    case True
    with FsEvent assms rearm_armed [of debounce now s]
    have "t = s\<lparr>timer := Armed (now + debounce), timerActive := True, log := (now, False) # log s\<rparr>"
      by (simp add: watch_turn_def watch_ok_def)
    with assms(2) show ?thesis by (simp add: watch_ok_def watch_inv_def last_relevant_def)
  next
    case False
    with FsEvent assms show ?thesis by (simp add: watch_turn_def)
  qed
next
  case (TimerC loads)
  with assms(1) obtain d where d: "timer s = Fired d"
    by (auto simp: watch_turn_def split: timer.splits)
  with TimerC assms have t: "t = s\<lparr>timer := Idle, timerActive := False, store := snd (ReloadAll loads (store s)), log := (now, True) # log s\<rparr>"
    by (simp add: watch_turn_def)
  with assms(2) d show ?thesis by (auto simp: watch_ok_def watch_inv_def last_relevant_def ReloadAll_inv)
qed (use assms in \<open>auto simp: watch_turn_def watch_ok_def watch_inv_def\<close>)

lemma watch_step_ok: "watch_step wd ws debounce c c' \<Longrightarrow> watch_ok debounce c \<Longrightarrow> watch_ok debounce c'"
proof (induction rule: watch_step.induct)
  case (loop_turn s now inp t)
  then show ?case using watch_turn_ok by blast
next
  case (clock_tick now now' s)
  then show ?case by (fastforce simp: watch_ok_def watch_inv_def)
next
  case (timer_fires s d now)
  then show ?case by (auto simp: watch_ok_def watch_inv_def)
qed

definition watch_initial :: "CertStore \<Rightarrow> int \<times> watch_state \<Rightarrow> bool" where
  "watch_initial cs c \<longleftrightarrow> snd c = watch_start cs \<and> store_inv cs"

lemma watch_initial_ok: "watch_initial cs c \<Longrightarrow> watch_ok debounce c"
  by (cases c) (simp add: watch_initial_def watch_start_def watch_ok_def watch_inv_def last_relevant_def)

interpretation watcher: invariant_system "watch_initial cs" "watch_step wd ws debounce" "watch_ok debounce"
  for cs wd ws debounce
  by unfold_locales (rule watch_initial_ok, assumption, rule watch_step_ok)

text \<open>The pending event's reload: its timer fires when the window is over, and the loop takes it.\<close>

lemma pending_reload:
  assumes "watch_inv debounce (now, s)" "last_relevant (log s) = Some t" "\<not> stopped s"
  shows "(watch_step wd ws debounce)\<^sup>*\<^sup>* (now, s)
    (max now (t + debounce), s\<lparr>timer := Idle, timerActive := False, store := snd (ReloadAll loads (store s)),
       log := (max now (t + debounce), True) # log s\<rparr>)"
proof -
  let ?now = "max now (t + debounce)" and ?d = "t + debounce"
  let ?step = "watch_step wd ws debounce" and ?fired = "s\<lparr>timer := Fired (t + debounce)\<rparr>"
  have tick: "?step (now, s) (?now, s)" by (rule clock_tick) simp
  have fired: "?step\<^sup>*\<^sup>* (?now, s) (?now, ?fired)"
  proof (cases "timer s")
    case (Armed d)
    then have "d = ?d" using assms by (auto simp: watch_inv_def)
    then show ?thesis using timer_fires [of s ?d ?now] Armed by (auto intro: r_into_rtranclp)
  next
    case (Fired d)
    then have "?fired = s" using assms by (auto simp: watch_inv_def)
    then show ?thesis by simp
  qed (use assms in \<open>simp add: watch_inv_def\<close>)
  have "?step (?now, ?fired) (?now, ?fired\<lparr>timer := Idle, timerActive := False, store := snd (ReloadAll loads (store s)),
      log := (?now, True) # log s\<rparr>)"
    by (rule loop_turn [where inp = "TimerC loads"]) (use assms(3) in \<open>simp_all add: watch_turn_def\<close>)
  with tick fired show ?thesis
    by (simp add: converse_rtranclp_into_rtranclp rtranclp.rtrancl_into_rtrancl)
qed

text \<open>
  C19. Debouncing: in every execution of the watcher, for every window, each reload comes at least the
  whole window after the latest relevant file event, and every reload has such an event of its own
  since the reload before it: a burst of events causes one reload, and no stale timer causes another.
  And no event is forgotten: while a relevant event has had no reload, the timer is armed for the
  end of its window or has fired for it, and unless the watcher is stopped the execution can go on to
  the reload at the end of that window, or at once when it is over.
\<close>

theorem watcher_debounced:
  assumes "reach (watch_initial cs) (watch_step wd ws debounce) (now, s)"
  shows "debounced debounce (log s) \<and> (timer s = Idle \<longleftrightarrow> \<not> timerActive s)
    \<and> (\<forall>t. last_relevant (log s) = Some t \<longrightarrow>
         timer s \<in> {Armed (t + debounce), Fired (t + debounce)}
         \<and> (\<not> stopped s \<longrightarrow> (\<forall>loads. (watch_step wd ws debounce)\<^sup>*\<^sup>* (now, s)
              (max now (t + debounce), s\<lparr>timer := Idle, timerActive := False, store := snd (ReloadAll loads (store s)),
                 log := (max now (t + debounce), True) # log s\<rparr>))))"
proof -
  have ok: "watch_ok debounce (now, s)" using assms by (rule watcher.reach_inv)
  then have inv: "watch_inv debounce (now, s)" by (simp add: watch_ok_def)
  have "timer s \<in> {Armed (t + debounce), Fired (t + debounce)}" if "last_relevant (log s) = Some t" for t
    using inv that by (cases "timer s") (auto simp: watch_inv_def)
  with ok pending_reload [OF inv] show ?thesis by (auto simp: watch_ok_def watch_inv_def)
qed

text \<open>Two events 100 ms apart, then the timer and one reload.\<close>

definition cert_event :: fs_event where
  "cert_event = \<lparr>eventName = ''/c/d.crt'', isCreate = False\<rparr>"

definition demo_watch :: watch_set where
  "demo_watch = \<lparr>watchedFiles = {''/c/d.crt''}, dirs = {''/c''}\<rparr>"

definition burst_state :: "(int \<times> bool) list \<Rightarrow> timer \<Rightarrow> watch_state" where
  "burst_state l tm = \<lparr>timer = tm, timerActive = (tm \<noteq> Idle), stopped = False, store = demo_store, log = l\<rparr>"

definition after_burst :: watch_state where
  "after_burst = (burst_state [(600, True), (100, False), (0, False)] Idle)\<lparr>store := snd (ReloadAll demo_loads demo_store)\<rparr>"

lemma cert_event_relevant: "relevantEvent (Inr ''/'') cert_event demo_watch"
  by code_simp

lemma burst_reachable: "reach (watch_initial demo_store) (watch_step (Inr ''/'') demo_watch 500) (600, after_burst)"
proof -
  let ?step = "watch_step (Inr ''/'') demo_watch 500"
  have ev: "watch_turn (Inr ''/'') demo_watch 500 t (FsEvent cert_event) s
      = Some ((rearm 500 t s)\<lparr>log := (t, False) # log s\<rparr>)" for t s
    by (simp add: watch_turn_def cert_event_relevant)
  have r0: "reach (watch_initial demo_store) ?step (0, watch_start demo_store)"
    by (rule reach_init) (simp add: watch_initial_def demo_store_inv)
  have s1: "?step (0, watch_start demo_store) (0, burst_state [(0, False)] (Armed 500))"
    by (rule loop_turn [where inp = "FsEvent cert_event"])
      (simp_all add: ev watch_start_def burst_state_def rearm_def)
  have s2: "?step (0, burst_state [(0, False)] (Armed 500)) (100, burst_state [(0, False)] (Armed 500))"
    by (rule clock_tick) simp
  have s3: "?step (100, burst_state [(0, False)] (Armed 500)) (100, burst_state [(100, False), (0, False)] (Armed 600))"
    by (rule loop_turn [where inp = "FsEvent cert_event"]) (simp_all add: ev burst_state_def rearm_def)
  have s4: "?step (100, burst_state [(100, False), (0, False)] (Armed 600)) (600, burst_state [(100, False), (0, False)] (Armed 600))"
    by (rule clock_tick) simp
  have s5: "?step (600, burst_state [(100, False), (0, False)] (Armed 600)) (600, burst_state [(100, False), (0, False)] (Fired 600))"
    using timer_fires [of "burst_state [(100, False), (0, False)] (Armed 600)" 600 600] by (simp add: burst_state_def)
  have s6: "?step (600, burst_state [(100, False), (0, False)] (Fired 600)) (600, after_burst)"
    by (rule loop_turn [where inp = "TimerC demo_loads"]) (simp_all add: watch_turn_def burst_state_def after_burst_def)
  note r2 = reach_step [OF reach_step [OF r0 s1] s2]
  note r4 = reach_step [OF reach_step [OF r2 s3] s4]
  show ?thesis by (rule reach_step [OF reach_step [OF r4 s5] s6])
qed

theorem watcher_debounced_witness:
  "debounced 500 (log after_burst) \<and> log after_burst = [(600, True), (100, False), (0, False)]"
  using watcher_debounced [OF burst_reachable] by (simp add: after_burst_def burst_state_def)

text \<open>
  A failed automatic reload does no harm: when none of the files can be loaded, every client is
  served as before, and the watcher goes on.
\<close>

theorem failed_reload_harmless:
  assumes "store_inv (store s)" and "\<forall>i c k. isl (loads i c k)"
    and "watch_turn wd ws debounce now (TimerC loads) s = Some t"
  shows "GetCertificate (store t) hello = GetCertificate (store s) hello \<and> stopped t = stopped s"
proof -
  have "t = s\<lparr>timer := Idle, timerActive := False, store := snd (ReloadAll loads (store s)), log := (now, True) # log s\<rparr>"
    using assms(3) by (auto simp: watch_turn_def split: timer.splits)
  with cert_store.failing_keeps [OF assms(1), of loads hello] assms(2) show ?thesis by simp
qed

theorem failed_reload_harmless_witness:
  "\<exists>t. watch_turn (Inr ''/'') demo_watch 500 600 (TimerC (\<lambda>_ _ _. Inl ''gone'')) (burst_state [(100, False)] (Fired 600)) = Some t
     \<and> GetCertificate (store t) (Some ''a'') = ''a0''"
proof -
  obtain t where t: "watch_turn (Inr ''/'') demo_watch 500 600 (TimerC (\<lambda>_ _ _. Inl ''gone'')) (burst_state [(100, False)] (Fired 600)) = Some t"
    by (simp add: watch_turn_def burst_state_def)
  have "store_inv (store (burst_state [(100, False)] (Fired 600)))" by (simp add: burst_state_def demo_store_inv)
  from failed_reload_harmless [OF this _ t, of "Some ''a''"] t show ?thesis
    by (simp add: burst_state_def demo_store_def GetCertificate_def)
qed

lemma add_dirs_Inr: "add_dirs add ds added = Inr ds' \<Longrightarrow> ds' = added @ ds \<and> (\<forall>d \<in> set ds. add d = None)"
  by (induction ds arbitrary: added) (fastforce split: option.splits)+


lemma sorted_map_order: "map_order sorted_list_of_set"
  by (simp add: map_order_def)


end
