(* ===== verification/Signal_Logging.thy ===== *)
theory Signal_Logging
  imports Koanf Transition "HOL-Library.Multiset"
begin

text \<open>
  \<open>internal/signal\<close> and \<open>internal/logging\<close>. The signal mux is a table from signals to handlers and a loop
  that takes one signal from a channel of one element, looks up its handlers, starts every one of them in a
  goroutine of its own and waits for all of them. Signals that arrive while the channel is full are
  dropped, as \<open>os/signal\<close> documents. \<open>main.go\<close> starts the loop first and registers its handlers while the
  loop runs, so a registration can come at any moment. Handlers are values of an unknown type.
\<close>

section \<open>Signals\<close>

datatype os_signal = Interrupt | SIGTERM | SIGHUP

type_synonym 'h handler_table = "os_signal \<Rightarrow> 'h list"

definition New :: "'h handler_table" where
  "New = (\<lambda>_. [])"

fun AddHandler :: "'h \<Rightarrow> os_signal list \<Rightarrow> 'h handler_table \<Rightarrow> 'h handler_table" where
  "AddHandler f [] tab = tab"
| "AddHandler f (sig # sigs) tab = AddHandler f sigs (tab(sig := tab sig @ [f]))"

text \<open>
  The loop waits on the channel, has received a signal, or has looked up its handlers, some of which have
  not finished. \<open>hist\<close> (the registrations and the look-ups, last first), \<open>got\<close> (the signals received) and
  \<open>ran\<close> (the handlers that have finished) record what happened; they are not part of the program.
\<close>

datatype 'h mux_phase = Waiting | Received os_signal | Dispatching "'h multiset"

datatype 'h mux_event = Registered 'h "os_signal list" | LookedUp os_signal

record 'h mux =
  table :: "'h handler_table"
  chan :: "os_signal option"
  phase :: "'h mux_phase"
  hist :: "'h mux_event list"
  got :: "os_signal list"
  ran :: "'h multiset"

definition mux_start :: "'h mux" where
  "mux_start = \<lparr>table = New, chan = None, phase = Waiting, hist = [], got = [], ran = {#}\<rparr>"

text \<open>
  \<open>AddHandler\<close> and the look-up are atomic under the mutex; the copied slice of handlers is not changed by
  later registrations.
\<close>

inductive mux_step :: "'h mux \<Rightarrow> 'h mux \<Rightarrow> bool" where
  sig_queued: "chan s = None \<Longrightarrow> mux_step s (s\<lparr>chan := Some sig\<rparr>)"
| sig_dropped: "chan s \<noteq> None \<Longrightarrow> mux_step s s"
| add_handler: "mux_step s (s\<lparr>table := AddHandler f sigs (table s), hist := Registered f sigs # hist s\<rparr>)"
| sig_received: "phase s = Waiting \<Longrightarrow> chan s = Some sig \<Longrightarrow>
     mux_step s (s\<lparr>chan := None, phase := Received sig, got := sig # got s\<rparr>)"
| handlers_copied: "phase s = Received sig \<Longrightarrow>
     mux_step s (s\<lparr>phase := Dispatching (mset (table s sig)), hist := LookedUp sig # hist s\<rparr>)"
| handler_done: "phase s = Dispatching hs \<Longrightarrow> h \<in># hs \<Longrightarrow>
     mux_step s (s\<lparr>phase := Dispatching (hs - {#h#}), ran := ran s + {#h#}\<rparr>)"
| all_waited: "phase s = Dispatching {#} \<Longrightarrow> mux_step s (s\<lparr>phase := Waiting\<rparr>)"

text \<open>
  The specification, on the history alone: the handlers registered for a signal before a moment, as often
  as they were registered; and what is due, the handlers registered for each signal looked up at the
  moment of the look-up.
\<close>

fun registered :: "os_signal \<Rightarrow> 'h mux_event list \<Rightarrow> 'h multiset" where
  "registered sig [] = {#}"
| "registered sig (Registered f sigs # h) = replicate_mset (count_list sigs sig) f + registered sig h"
| "registered sig (LookedUp _ # h) = registered sig h"

fun due :: "'h mux_event list \<Rightarrow> 'h multiset" where
  "due [] = {#}"
| "due (Registered f sigs # h) = due h"
| "due (LookedUp sig # h) = registered sig h + due h"

fun looked_up :: "'h mux_event list \<Rightarrow> os_signal list" where
  "looked_up [] = []"
| "looked_up (Registered f sigs # h) = looked_up h"
| "looked_up (LookedUp sig # h) = sig # looked_up h"

definition pending :: "'h mux \<Rightarrow> 'h multiset" where
  "pending s = (case phase s of Dispatching hs \<Rightarrow> hs | _ \<Rightarrow> {#})"

definition mux_inv :: "'h mux \<Rightarrow> bool" where
  "mux_inv s \<longleftrightarrow>
     (\<forall>sig. mset (table s sig) = registered sig (hist s)) \<and> ran s + pending s = due (hist s)
     \<and> got s = (case phase s of Received sig \<Rightarrow> [sig] | _ \<Rightarrow> []) @ looked_up (hist s)"

lemma AddHandler_lookup: "AddHandler f sigs tab sig = tab sig @ replicate (count_list sigs sig) f"
  by (induction sigs arbitrary: tab) auto

lemma mux_step_inv: "mux_step s t \<Longrightarrow> mux_inv s \<Longrightarrow> mux_inv t"
proof (induction rule: mux_step.induct)
  case (handler_done s hs h)
  then have "ran s + {#h#} + (hs - {#h#}) = ran s + hs" by (simp add: add.assoc)
  with handler_done show ?case by (simp add: mux_inv_def pending_def)
next
  case (handlers_copied s sig)
  then show ?case by (simp add: mux_inv_def pending_def add.commute)
qed (auto simp: mux_inv_def pending_def AddHandler_lookup)

interpretation sigmux: invariant_system "\<lambda>s. s = mux_start" mux_step mux_inv
proof unfold_locales
  show "mux_inv s" if "s = mux_start" for s :: "'h mux"
    using that by (simp add: mux_start_def mux_inv_def pending_def New_def)
qed (rule mux_step_inv)

text \<open>
  C31. Signal dispatch, with handlers registered at any moment of the execution: whenever the mux is
  idle, the handlers that have run are exactly those due, for every signal received the ones registered
  for it before it was looked up, each as often as it was registered; every signal received has been
  looked up, in order; and the table holds exactly the handlers registered so far.
\<close>

theorem mux_runs_exactly:
  assumes "reach (\<lambda>s. s = mux_start) mux_step s" and "phase s = Waiting"
  shows "ran s = due (hist s) \<and> got s = looked_up (hist s) \<and> mset (table s sig) = registered sig (hist s)"
  using sigmux.reach_inv [OF assms(1)] assms(2) by (simp add: mux_inv_def pending_def)

text \<open>A handler registered before the signal arrives, and one registered after it was handled.\<close>

definition demo_mux :: "string mux" where
  "demo_mux = mux_start\<lparr>table := AddHandler ''stop'' [Interrupt, SIGTERM, SIGHUP] (AddHandler ''reload'' [SIGHUP] New),
     hist := [Registered ''stop'' [Interrupt, SIGTERM, SIGHUP], LookedUp SIGHUP, Registered ''reload'' [SIGHUP]],
     got := [SIGHUP], ran := {#''reload''#}\<rparr>"

lemma demo_mux_reachable: "reach (\<lambda>s. s = mux_start) mux_step demo_mux"
proof -
  let ?s1 = "mux_start\<lparr>table := AddHandler ''reload'' [SIGHUP] New, hist := [Registered ''reload'' [SIGHUP]]\<rparr>"
  let ?s3 = "?s1\<lparr>phase := Received SIGHUP, got := [SIGHUP]\<rparr>"
  let ?s4 = "?s1\<lparr>phase := Dispatching {#''reload''#}, hist := [LookedUp SIGHUP, Registered ''reload'' [SIGHUP]], got := [SIGHUP]\<rparr>"
  let ?s5 = "?s4\<lparr>phase := Dispatching {#}, ran := {#''reload''#}\<rparr>"
  note start = mux_start_def New_def
  have s1: "mux_step mux_start ?s1" using add_handler [of mux_start "''reload''" "[SIGHUP]"] by (simp add: start)
  have s2: "mux_step ?s1 (?s1\<lparr>chan := Some SIGHUP\<rparr>)" by (rule sig_queued) (simp add: start)
  have s3: "mux_step (?s1\<lparr>chan := Some SIGHUP\<rparr>) ?s3"
    using sig_received [of "?s1\<lparr>chan := Some SIGHUP\<rparr>" SIGHUP] by (simp add: start)
  have s4: "mux_step ?s3 ?s4" using handlers_copied [of ?s3 SIGHUP] by (simp add: start)
  have s5: "mux_step ?s4 ?s5" using handler_done [of ?s4 "{#''reload''#}" "''reload''"] by (simp add: start)
  have s6: "mux_step ?s5 (?s5\<lparr>phase := Waiting\<rparr>)" by (rule all_waited) simp
  have s7: "mux_step (?s5\<lparr>phase := Waiting\<rparr>) demo_mux"
    using add_handler [of "?s5\<lparr>phase := Waiting\<rparr>" "''stop''" "[Interrupt, SIGTERM, SIGHUP]"] by (simp add: start demo_mux_def)
  have r0: "reach (\<lambda>s. s = mux_start) mux_step (mux_start :: string mux)" by simp
  from r0 s1 have r1: "reach (\<lambda>s. s = mux_start) mux_step ?s1" by (rule reach_step)
  from r1 s2 have r2: "reach (\<lambda>s. s = mux_start) mux_step (?s1\<lparr>chan := Some SIGHUP\<rparr>)" by (rule reach_step)
  from r2 s3 have r3: "reach (\<lambda>s. s = mux_start) mux_step ?s3" by (rule reach_step)
  from r3 s4 have r4: "reach (\<lambda>s. s = mux_start) mux_step ?s4" by (rule reach_step)
  from r4 s5 have r5: "reach (\<lambda>s. s = mux_start) mux_step ?s5" by (rule reach_step)
  from r5 s6 have r6: "reach (\<lambda>s. s = mux_start) mux_step (?s5\<lparr>phase := Waiting\<rparr>)" by (rule reach_step)
  from r6 s7 show ?thesis by (rule reach_step)
qed

theorem mux_runs_exactly_witness:
  "ran demo_mux = {#''reload''#} \<and> due (hist demo_mux) = {#''reload''#}
   \<and> registered SIGHUP (hist demo_mux) = {#''reload'', ''stop''#}"
proof -
  have "phase demo_mux = Waiting" by (simp add: demo_mux_def mux_start_def)
  from mux_runs_exactly [OF demo_mux_reachable this, of SIGHUP] show ?thesis
    by (simp add: demo_mux_def New_def)
qed

section \<open>Logging\<close>

datatype level = LevelDebug | LevelInfo | LevelWarn | LevelError
datatype log_dest = Stdout | LogFile string | Syslog string

definition level_of :: "string \<Rightarrow> level" where
  "level_of verbosity =
     (if verbosity = ''debug'' then LevelDebug
      else if verbosity = ''warning'' then LevelWarn
      else if verbosity = ''error'' then LevelError
      else LevelInfo)"

text \<open>\<open>syslogging\<close> per platform, with the outcome of \<open>syslog.Dial\<close>; on Windows it always fails.\<close>

definition syslogging :: "(string \<Rightarrow> kerr option) \<Rightarrow> string \<Rightarrow> kerr option" where
  "syslogging dialSyslog addr = map_option (\<lambda>e. ''unable to connect to syslog daemon: '' @ e) (dialSyslog addr)"

definition syslogging_windows :: "string \<Rightarrow> kerr option" where
  "syslogging_windows addr = Some ''Using syslog from Windows is not supported.''"

text \<open>\<open>None\<close> when the process exits; \<open>openLog\<close> tells whether the log file can be opened.\<close>

definition Configure ::
  "'k koanf \<Rightarrow> (string \<Rightarrow> kerr option) \<Rightarrow> (string \<Rightarrow> bool) \<Rightarrow> 'k \<Rightarrow> (level \<times> log_dest) option" where
  "Configure K sysl openLog k =
     (let lvl = level_of (kString K k ''log.level'');
          logDest = (if kString K k ''log.destination'' = '''' then ''stdout'' else kString K k ''log.destination'')
      in
      if HasPrefix logDest ''syslog://'' then
        (case sysl (TrimPrefix logDest ''syslog://'') of
           Some _ \<Rightarrow> None
         | None \<Rightarrow> Some (lvl, Syslog (TrimPrefix logDest ''syslog://'')))
      else if logDest \<noteq> ''stdout'' then
        (if openLog logDest then Some (lvl, LogFile logDest) else Some (lvl, Stdout))
      else Some (lvl, Stdout))"

end
