(* ===== verification/Metrics.thy ===== *)
theory Metrics
  imports Prelude
begin

text \<open>
  \<open>internal/metrics/metrics.go\<close>: the package state (the \<open>Enabled\<close> flag, the \<open>sync.Once\<close> of \<open>Init\<close>,
  what has been registered) and the calls the proxy makes on the Prometheus collectors. Prometheus
  itself is not part of the program: a collector call is an event of the log, in the order made.
\<close>

datatype metric_call =
    ConnectionsActive_Inc
  | ConnectionsActive_Dec
  | ConnectionsTotal_Inc
  | BytesSentTotal_Add nat
  | BytesReceivedTotal_Add nat
  | ErrorsTotal_Inc string

record metrics_state =
  Enabled :: bool
  initOnce :: bool
  registered :: "string list"

definition metrics_zero :: metrics_state where
  "metrics_zero = \<lparr>Enabled = False, initOnce = False, registered = []\<rparr>"

definition collectors :: "string list" where
  "collectors =
     [''tlspxy_connections_active'', ''tlspxy_connections_total'', ''tlspxy_bytes_sent_total'',
      ''tlspxy_bytes_received_total'', ''tlspxy_errors_total'']"

text \<open>\<open>Init\<close>: \<open>initOnce.Do\<close> registers the collectors and then sets \<open>Enabled\<close>.\<close>

definition Init :: "metrics_state \<Rightarrow> metrics_state" where
  "Init s =
     (if initOnce s then s
      else s\<lparr>registered := registered s @ collectors, Enabled := True, initOnce := True\<rparr>)"

text \<open>
  \<open>StartServer\<close>: the pattern is registered first, which panics when \<open>net/http\<close> does not accept it; the
  listener is bound before the serving goroutine starts, so a bind failure is the caller's error.
  \<open>validPattern\<close> and \<open>listen\<close> are the outcomes of \<open>ServeMux.Handle\<close> and \<open>net.Listen\<close>.
\<close>

datatype ('e, 'l) server_start = HandlePanic | BindError 'e | MetricsServing 'l string

definition StartServer :: "(string \<Rightarrow> bool) \<Rightarrow> (string \<Rightarrow> 'e + 'l) \<Rightarrow> string \<Rightarrow> string \<Rightarrow> ('e, 'l) server_start" where
  "StartServer validPattern listen addr path =
     (if \<not> validPattern path then HandlePanic
      else (case listen addr of Inl e \<Rightarrow> BindError e | Inr ln \<Rightarrow> MetricsServing ln path))"

text \<open>A collector is touched only while metrics are enabled: \<open>if metrics.Enabled.Load() { ... }\<close>.\<close>

definition when_enabled :: "bool \<Rightarrow> metric_call list \<Rightarrow> metric_call list" where
  "when_enabled en cs = (if en then cs else [])"

lemma when_enabled_simps [simp]: "when_enabled True cs = cs" "when_enabled False cs = []"
  by (simp_all add: when_enabled_def)

text \<open>Totals of a log of calls.\<close>

fun sent_of :: "metric_call \<Rightarrow> nat" where
  "sent_of (BytesSentTotal_Add n) = n"
| "sent_of _ = 0"

fun received_of :: "metric_call \<Rightarrow> nat" where
  "received_of (BytesReceivedTotal_Add n) = n"
| "received_of _ = 0"

definition bytes_sent_total :: "metric_call list \<Rightarrow> nat" where
  "bytes_sent_total cs = sum_list (map sent_of cs)"

definition bytes_received_total :: "metric_call list \<Rightarrow> nat" where
  "bytes_received_total cs = sum_list (map received_of cs)"

lemma totals_simps [simp]:
  "bytes_sent_total [] = 0" "bytes_sent_total (c # cs) = sent_of c + bytes_sent_total cs"
  "bytes_sent_total (cs @ ds) = bytes_sent_total cs + bytes_sent_total ds"
  "bytes_received_total [] = 0" "bytes_received_total (c # cs) = received_of c + bytes_received_total cs"
  "bytes_received_total (cs @ ds) = bytes_received_total cs + bytes_received_total ds"
  by (simp_all add: bytes_sent_total_def bytes_received_total_def)

section \<open>Properties\<close>

text \<open>
  \<open>Init\<close> can be called any number of times: the collectors are registered once, in one go, and
  metrics are enabled only together with the registration.
\<close>

theorem Init_registers_once:
  "(Init ^^ Suc n) metrics_zero = \<lparr>Enabled = True, initOnce = True, registered = collectors\<rparr>"
  by (induction n) (simp_all add: Init_def metrics_zero_def)

end
