(* ===== verification/Go_Net.thy ===== *)
theory Go_Net
  imports Go_Strings
begin

text \<open>
  The part of Go's \<open>net\<close> package the proxy relies on: \<open>net.IP\<close> with \<open>To4\<close>, \<open>To16\<close> and \<open>String\<close>,
  \<open>net.SplitHostPort\<close>, \<open>net.ParseIP\<close>, and \<open>fmt.Sscanf("%d")\<close>, which reads a port.
  A \<open>net.IP\<close> is a byte slice of any length: 4 and 16 are the valid ones.
\<close>

section \<open>Addresses\<close>

type_synonym ip = bytes

text \<open>
  A \<open>net.Addr\<close> is a \<open>*net.TCPAddr\<close> (IP, port, zone) or some other implementation, of which the
  code uses the \<open>String()\<close> form only.
\<close>

datatype net_addr = TCPAddr ip int string | OtherAddr string

definition v4InV6Prefix :: bytes where
  "v4InV6Prefix = [0, 0, 0, 0, 0, 0, 0, 0, 0, 0, 0xff, 0xff]"

definition To4 :: "ip \<Rightarrow> ip option" where
  "To4 a =
     (if length a = 4 then Some a
      else if length a = 16 \<and> take 12 a = v4InV6Prefix then Some (drop 12 a)
      else None)"

definition To16 :: "ip \<Rightarrow> ip option" where
  "To16 a =
     (if length a = 4 then Some (v4InV6Prefix @ a)
      else if length a = 16 then Some a
      else None)"

definition valid_ip :: "ip \<Rightarrow> bool" where
  "valid_ip a \<longleftrightarrow> length a = 4 \<or> length a = 16"

lemma To4_length: "To4 a = Some b \<Longrightarrow> length b = 4"
  by (auto simp: To4_def split: if_splits)

lemma To4_None_length: "To4 a = None \<Longrightarrow> valid_ip a \<Longrightarrow> length a = 16"
  by (auto simp: To4_def valid_ip_def split: if_splits)

lemma To16_of_To4: "To4 a = Some b \<Longrightarrow> To16 a = Some (v4InV6Prefix @ b)"
  by (auto simp: To4_def To16_def split: if_splits) (metis append_take_drop_id)

section \<open>The textual form of an address\<close>

text \<open>\<open>netip.Addr.String\<close> for IPv4: four decimal octets.\<close>

definition ipv4_string :: "bytes \<Rightarrow> string" where
  "ipv4_string b = Join ''.'' (map (\<lambda>x. itoa (unat x)) b)"

definition hex_char :: "nat \<Rightarrow> char" where
  "hex_char d = (if d < 10 then char_of (48 + d) else char_of (87 + d))"

fun hex_of :: "nat \<Rightarrow> string" where
  "hex_of n = (if n < 16 then [hex_char n] else hex_of (n div 16) @ [hex_char (n mod 16)])"

declare hex_of.simps [simp del]

text \<open>The eight 16-bit groups of an IPv6 address.\<close>

fun groups16 :: "bytes \<Rightarrow> nat list" where
  "groups16 (a # b # xs) = (unat a * 256 + unat b) # groups16 xs"
| "groups16 _ = []"

text \<open>The first longest run of at least two zero groups, as \<open>(start, end)\<close>.\<close>

definition zero_run_at :: "nat list \<Rightarrow> nat \<Rightarrow> nat" where
  "zero_run_at gs i = length (takeWhile (\<lambda>g. g = 0) (drop i gs))"

definition zero_run :: "nat list \<Rightarrow> (nat \<times> nat) option" where
  "zero_run gs =
     foldl (\<lambda>best i. let l = zero_run_at gs i in
              if 2 \<le> l \<and> (case best of None \<Rightarrow> True | Some (s, e) \<Rightarrow> e - s < l)
              then Some (i, i + l) else best)
           None [0..<length gs]"

definition ipv6_string :: "bytes \<Rightarrow> string" where
  "ipv6_string b =
     (let gs = groups16 b; colons = (\<lambda>xs. Join '':'' (map hex_of xs)) in
      case zero_run gs of
        None \<Rightarrow> colons gs
      | Some (s, e) \<Rightarrow> colons (take s gs) @ ''::'' @ colons (drop e gs))"

definition hex_byte :: "byte \<Rightarrow> string" where
  "hex_byte x = [hex_char (unat x div 16), hex_char (unat x mod 16)]"

definition ip_string :: "ip \<Rightarrow> string" where
  "ip_string a =
     (if a = [] then ''<nil>''
      else if \<not> valid_ip a then CHR ''?'' # concat (map hex_byte a)
      else (case To4 a of Some b \<Rightarrow> ipv4_string b | None \<Rightarrow> ipv6_string a))"

section \<open>Splitting host and port\<close>

definition index_of :: "char \<Rightarrow> string \<Rightarrow> nat option" where
  "index_of c s = (if c \<in> set s then Some (length (takeWhile (\<lambda>x. x \<noteq> c) s)) else None)"

definition last_index_of :: "char \<Rightarrow> string \<Rightarrow> nat option" where
  "last_index_of c s =
     (if c \<in> set s then Some (length s - 1 - length (takeWhile (\<lambda>x. x \<noteq> c) (rev s))) else None)"

datatype addr_error = MissingPort | TooManyColons | MissingBracket | UnexpectedOpen | UnexpectedClose

definition SplitHostPort :: "string \<Rightarrow> addr_error + (string \<times> string)" where
  "SplitHostPort hp =
     (case last_index_of CHR '':'' hp of
        None \<Rightarrow> Inl MissingPort
      | Some i \<Rightarrow>
          let finish = (\<lambda>host j k.
                if CHR ''['' \<in> set (drop j hp) then Inl UnexpectedOpen
                else if CHR '']'' \<in> set (drop k hp) then Inl UnexpectedClose
                else Inr (host, drop (i + 1) hp))
          in if hd hp = CHR ''['' then
               (case index_of CHR '']'' hp of
                  None \<Rightarrow> Inl MissingBracket
                | Some e \<Rightarrow>
                    if e + 1 = length hp then Inl MissingPort
                    else if e + 1 = i then finish (drop 1 (take e hp)) 1 (e + 1)
                    else if hp ! (e + 1) = CHR '':'' then Inl TooManyColons
                    else Inl MissingPort)
             else
               let host = take i hp in
               if CHR '':'' \<in> set host then Inl TooManyColons else finish host 0 0)"

lemma last_index_of_append:
  "c \<notin> set b \<Longrightarrow> last_index_of c (a @ c # b) = Some (length a)"
proof -
  assume c: "c \<notin> set b"
  have "takeWhile (\<lambda>x. x \<noteq> c) (rev (a @ c # b)) = rev b"
    using c by (simp add: takeWhile_append)
  then show ?thesis by (simp add: last_index_of_def)
qed

text \<open>
  The usual forms: \<open>host:port\<close> with a host without colons or brackets, and \<open>[host]:port\<close>.
\<close>

lemma SplitHostPort_plain:
  assumes "CHR '':'' \<notin> set h" "CHR ''['' \<notin> set h" "CHR '']'' \<notin> set h"
    and "CHR '':'' \<notin> set p" "CHR ''['' \<notin> set p" "CHR '']'' \<notin> set p"
  shows "SplitHostPort (h @ CHR '':'' # p) = Inr (h, p)"
proof -
  have "hd (h @ CHR '':'' # p) \<noteq> CHR ''[''"
    using assms by (cases h) auto
  then show ?thesis
    using assms by (simp add: SplitHostPort_def last_index_of_append Let_def)
qed

lemma SplitHostPort_bracket:
  assumes "CHR ''['' \<notin> set h" "CHR '']'' \<notin> set h"
    and "CHR '':'' \<notin> set p" "CHR ''['' \<notin> set p" "CHR '']'' \<notin> set p"
  shows "SplitHostPort (CHR ''['' # h @ CHR '']'' # CHR '':'' # p) = Inr (h, p)"
proof -
  let ?hp = "CHR ''['' # h @ CHR '']'' # CHR '':'' # p"
  have last: "last_index_of CHR '':'' ?hp = Some (length h + 2)"
    using last_index_of_append [OF assms(3), of "CHR ''['' # h @ [CHR '']'']"] by simp
  have "takeWhile (\<lambda>x. x \<noteq> CHR '']'') ?hp = CHR ''['' # h"
    using assms(2) by (auto simp: takeWhile_append)
  then have ix: "index_of CHR '']'' ?hp = Some (length h + 1)"
    by (simp add: index_of_def)
  show ?thesis
    using assms by (simp add: SplitHostPort_def last ix Let_def)
qed

lemma SplitHostPort_no_colon: "CHR '':'' \<notin> set s \<Longrightarrow> SplitHostPort s = Inl MissingPort"
  by (simp add: SplitHostPort_def last_index_of_def)

section \<open>Parsing addresses\<close>

text \<open>
  \<open>parseIPv4Fields\<close>: the loop over the characters, with the current octet \<open>val\<close>, its number of
  digits, whether the previous character was a dot (or there was none), and the octets so far.
\<close>

fun parse4_loop :: "string \<Rightarrow> nat \<Rightarrow> nat \<Rightarrow> bool \<Rightarrow> bytes \<Rightarrow> bytes option" where
  "parse4_loop [] v dl dot acc =
     (if length acc < 3 then None else Some (acc @ [word_of_nat v]))"
| "parse4_loop (c # s) v dl dot acc =
     (if is_digit c then
        if dl = 1 \<and> v = 0 then None
        else let v' = v * 10 + digit_val c in
             if 255 < v' then None else parse4_loop s v' (Suc dl) False acc
      else if c = CHR ''.'' then
        if dot \<or> s = [] then None
        else if length acc = 3 then None
        else parse4_loop s 0 0 True (acc @ [word_of_nat v])
      else None)"

definition parse_ipv4 :: "string \<Rightarrow> bytes option" where
  "parse_ipv4 s = parse4_loop s 0 0 True []"

definition is_hex :: "char \<Rightarrow> bool" where
  "is_hex c \<longleftrightarrow> is_digit c \<or> (97 \<le> (of_char c :: nat) \<and> (of_char c :: nat) \<le> 102)
               \<or> (65 \<le> (of_char c :: nat) \<and> (of_char c :: nat) \<le> 70)"

definition hex_val :: "char \<Rightarrow> nat" where
  "hex_val c =
     (if is_digit c then digit_val c
      else if 97 \<le> (of_char c :: nat) then of_char c - 87 else of_char c - 55)"

definition parse_hex :: "string \<Rightarrow> nat" where
  "parse_hex s = foldl (\<lambda>n c. 16 * n + hex_val c) 0 s"

text \<open>
  The loop of \<open>parseIPv6\<close>: the unread text, the bytes written so far, the position of the
  ellipsis. It gives the final three values.
\<close>

function parse6_loop :: "string \<Rightarrow> bytes \<Rightarrow> nat option \<Rightarrow> (bytes \<times> nat option \<times> string) option" where
  "parse6_loop s acc ell =
     (if 16 \<le> length acc then Some (acc, ell, s)
      else
        let ds = takeWhile is_hex s; rest = drop (length ds) s; g = parse_hex ds;
            acc' = acc @ [word_of_nat (g div 256), word_of_nat (g mod 256)]
        in if 4 < length ds \<or> ds = [] then None
           else if rest \<noteq> [] \<and> hd rest = CHR ''.'' then
             (if (ell = None \<and> length acc \<noteq> 12) \<or> 16 < length acc + 4 then None
              else map_option (\<lambda>v4. (acc @ v4, ell, [])) (parse_ipv4 s))
           else
             (case rest of
                [] \<Rightarrow> Some (acc', ell, [])
              | c # s1 \<Rightarrow>
                  if c \<noteq> CHR '':'' \<or> s1 = [] then None
                  else if hd s1 = CHR '':'' then
                    (if ell \<noteq> None then None
                     else if tl s1 = [] then Some (acc', Some (length acc'), [])
                     else parse6_loop (tl s1) acc' (Some (length acc')))
                  else parse6_loop s1 acc' ell))"
  by pat_completeness auto
termination
proof (relation "measure (\<lambda>(s, acc, ell). length s)", goal_cases)
  case 1
  show ?case by simp
next
  case (2 s acc ell ds rest g acc' c s1)
  then have "c # s1 = drop (length ds) s" by simp
  then have "length (c # s1) \<le> length s" by (metis length_drop diff_le_self)
  with 2 show ?case by simp
next
  case (3 s acc ell ds rest g acc' c s1)
  then have "c # s1 = drop (length ds) s" by simp
  then have "length (c # s1) \<le> length s" by (metis length_drop diff_le_self)
  with 3 show ?case by simp
qed

declare parse6_loop.simps [simp del]

definition expand_ellipsis :: "bytes \<times> nat option \<times> string \<Rightarrow> bytes option" where
  "expand_ellipsis r =
     (case r of (acc, ell, s) \<Rightarrow>
        if s \<noteq> [] then None
        else if length acc < 16 then
          (case ell of
             None \<Rightarrow> None
           | Some e \<Rightarrow> Some (take e acc @ replicate (16 - length acc) 0 @ drop e acc))
        else (if ell = None then Some acc else None))"

definition parse_ipv6 :: "string \<Rightarrow> bytes option" where
  "parse_ipv6 s =
     (if HasPrefix s ''::'' then
        (if drop 2 s = [] then Some (replicate 16 0)
         else Option.bind (parse6_loop (drop 2 s) [] (Some 0)) expand_ellipsis)
      else Option.bind (parse6_loop s [] None) expand_ellipsis)"

text \<open>
  \<open>net.ParseIP\<close>: the first of the characters \<open>.\<close>, \<open>:\<close> and \<open>%\<close> decides the family; a zone makes
  the address invalid, and a valid one is returned in 16-byte form.
\<close>

definition ParseIP :: "string \<Rightarrow> ip option" where
  "ParseIP s =
     (case find (\<lambda>c. c = CHR ''.'' \<or> c = CHR '':'' \<or> c = CHR ''%'') s of
        None \<Rightarrow> None
      | Some c \<Rightarrow>
          if c = CHR ''.'' then map_option (\<lambda>b. v4InV6Prefix @ b) (parse_ipv4 s)
          else if c = CHR '':'' then
            (if CHR ''%'' \<in> set s then None else parse_ipv6 s)
          else None)"

section \<open>Reading a decimal with Sscanf\<close>

definition sscanf_d :: "string \<Rightarrow> int option" where
  "sscanf_d s =
     (let t = TrimLeftSpace s; skipped = take (length s - length t) s in
      if CHR 0x0A \<in> set skipped then None
      else
        let neg = HasPrefix t ''-'';
            u = (if HasPrefix t ''-'' \<or> HasPrefix t ''+'' then drop 1 t else t);
            ds = takeWhile is_digit u;
            v = (if neg then - int (parse_digits ds) else int (parse_digits ds))
        in if ds = [] then None
           else if - (2 ^ 63) \<le> v \<and> v < 2 ^ 63 then Some v else None)"

section \<open>The dotted form is read back\<close>

lemma parse_digits_snoc: "parse_digits (ds @ [c]) = 10 * parse_digits ds + digit_val c"
  by (simp add: parse_digits_def)

lemma itoa_step: "itoa n = (if n < 10 then [] else itoa (n div 10)) @ [digit_char (n mod 10)]"
  by (subst itoa.simps) simp

lemma is_digit_dot [simp]: "is_digit CHR ''.'' = False" "is_digit CHR '':'' = False"
  by (simp_all add: is_digit_def)

text \<open>An octet without a leading zero is accumulated digit by digit.\<close>

lemma parse4_digits:
  assumes "n < 256"
  shows "parse4_loop (itoa n @ t) 0 0 dot acc = parse4_loop t n (length (itoa n)) False acc"
proof -
  consider "n < 10" | "10 \<le> n" "n < 100" | "100 \<le> n" by linarith
  then show ?thesis
  proof cases
    case 1
    then show ?thesis by (simp add: itoa_step [of n] Let_def)
  next
    case 2
    then have "itoa n = [digit_char (n div 10), digit_char (n mod 10)]"
      by (simp add: itoa_step [of n] itoa_step [of "n div 10"])
    moreover have "n div 10 \<noteq> 0" "n div 10 < 10" using 2 by auto
    ultimately show ?thesis using 2 by (simp add: Let_def)
  next
    case 3
    define q where "q = n div 10"
    have q: "10 \<le> q" "q < 26" "q * 10 + n mod 10 = n" using assms 3 by (auto simp: q_def)
    have "itoa n = [digit_char (q div 10), digit_char (q mod 10), digit_char (n mod 10)]"
      using q 3 by (simp add: itoa_step [of n] itoa_step [of "q"] itoa_step [of "q div 10"] flip: q_def)
    moreover have "q div 10 < 10" "q div 10 \<noteq> 0" using q by auto
    ultimately show ?thesis using q assms by (simp add: Let_def mult.commute)
  qed
qed

lemma parse4_dot:
  "t \<noteq> [] \<Longrightarrow> length acc < 3 \<Longrightarrow>
   parse4_loop (CHR ''.'' # t) v dl False acc = parse4_loop t 0 0 True (acc @ [word_of_nat v])"
  by simp

lemma parse_ipv4_string: "length b = 4 \<Longrightarrow> parse_ipv4 (ipv4_string b) = Some b"
proof -
  assume "length b = 4"
  then obtain w x y z where b: "b = [w, x, y, z]"
    by (auto simp: length_Suc_conv numeral_eq_Suc)
  show ?thesis
    unfolding b parse_ipv4_def ipv4_string_def
    by (simp add: parse4_digits unat_byte_less parse4_dot parse4_digits [where t = "[]", simplified])
qed

section \<open>The IPv6 form is read back\<close>

text \<open>The groups of an address determine its bytes.\<close>

definition group_bytes :: "nat list \<Rightarrow> bytes" where
  "group_bytes gs = concat (map (\<lambda>g. [word_of_nat (g div 256), word_of_nat (g mod 256)]) gs)"

lemma group_bytes_simps [simp]:
  "group_bytes [] = []"
  "group_bytes (g # gs) = word_of_nat (g div 256) # word_of_nat (g mod 256) # group_bytes gs"
  "group_bytes (gs @ hs) = group_bytes gs @ group_bytes hs"
  "length (group_bytes gs) = 2 * length gs"
  by (simp_all add: group_bytes_def) (induction gs, auto)

lemma group_bytes_zeros: "group_bytes (replicate n 0) = replicate (2 * n) 0"
  by (induction n) auto

lemma group_bytes_groups16: "even (length b) \<Longrightarrow> group_bytes (groups16 b) = b"
proof (induction b rule: groups16.induct)
  case (1 x y b)
  have "unat y < 256" by (rule unat_byte_less)
  with 1 show ?case by simp
qed auto

lemma length_groups16: "length (groups16 b) = length b div 2"
  by (induction b rule: groups16.induct) auto

lemma groups16_less: "g \<in> set (groups16 b) \<Longrightarrow> g < 65536"
proof (induction b rule: groups16.induct)
  case (1 x y b)
  have "unat x < 256" "unat y < 256" by (rule unat_byte_less)+
  with 1 show ?case by auto
qed auto

lemma hex_char_hex: "d < 16 \<Longrightarrow> is_hex (hex_char d) \<and> hex_val (hex_char d) = d"
  by (auto simp: hex_char_def is_hex_def hex_val_def is_digit_def digit_val_def)

lemma hex_of_step: "hex_of n = (if n < 16 then [] else hex_of (n div 16)) @ [hex_char (n mod 16)]"
  by (subst hex_of.simps) simp

lemma hex_of_hex: "list_all is_hex (hex_of n)"
  by (induction n rule: hex_of.induct) (simp add: hex_of_step [of n for n] hex_char_hex)

lemma hex_of_not_Nil [simp]: "hex_of n \<noteq> []"
  by (simp add: hex_of_step [of n])

lemma parse_hex_hex_of [simp]: "parse_hex (hex_of n) = n"
proof (induction n rule: hex_of.induct)
  case (1 n)
  then show ?case
    by (cases "n < 16") (simp_all add: hex_of_step [of n] parse_hex_def hex_char_hex)
qed

lemma hex_of_length: "n < 65536 \<Longrightarrow> length (hex_of n) \<le> 4"
proof -
  assume "n < 65536"
  then have "n div 16 div 16 div 16 < 16" by (simp add: div_mult2_eq [symmetric] less_mult_imp_div_less)
  then show ?thesis
    by (simp add: hex_of_step [of n] hex_of_step [of "n div 16"] hex_of_step [of "n div 16 div 16"]
        hex_of_step [of "n div 16 div 16 div 16"])
qed

lemma takeWhile_hex_of:
  "t = [] \<or> \<not> is_hex (hd t) \<Longrightarrow> takeWhile is_hex (hex_of n @ t) = hex_of n"
  using hex_of_hex [of n] by (cases t) (auto simp: takeWhile_append list_all_iff)

text \<open>One turn of the loop on a group followed by a colon or by the end of the text.\<close>

lemma is_hex_colon [simp]: "is_hex CHR '':'' = False"
  by (simp add: is_hex_def is_digit_def)

lemma parse6_last:
  assumes "g < 65536" "length acc < 16"
  shows "parse6_loop (hex_of g) acc ell = Some (acc @ group_bytes [g], ell, [])"
proof -
  have tw: "takeWhile is_hex (hex_of g) = hex_of g" using takeWhile_hex_of [of "[]"] by simp
  show ?thesis
    using assms hex_of_length [of g] by (simp add: parse6_loop.simps [of "hex_of g"] tw Let_def)
qed

lemma parse6_colon:
  assumes "g < 65536" "length acc < 16" "t \<noteq> []" "hd t \<noteq> CHR '':''"
  shows "parse6_loop (hex_of g @ CHR '':'' # t) acc ell = parse6_loop t (acc @ group_bytes [g]) ell"
  using assms hex_of_length [of g]
  by (simp add: parse6_loop.simps [of "hex_of g @ CHR '':'' # t"] takeWhile_hex_of Let_def)

lemma parse6_ellipsis:
  assumes "g < 65536" "length acc < 16"
  shows "parse6_loop (hex_of g @ CHR '':'' # CHR '':'' # t) acc None =
     (let acc' = acc @ group_bytes [g] in
      if t = [] then Some (acc', Some (length acc'), [])
      else parse6_loop t acc' (Some (length acc')))"
  using assms hex_of_length [of g]
  by (simp add: parse6_loop.simps [of "hex_of g @ CHR '':'' # CHR '':'' # t"] takeWhile_hex_of Let_def)

abbreviation colons :: "nat list \<Rightarrow> string" where
  "colons gs \<equiv> Join '':'' (map hex_of gs)"

lemma hd_hex_of_not_colon: "hd (hex_of g) \<noteq> CHR '':''"
  using hex_of_hex [of g] by (cases "hex_of g") auto

lemma colons_not_Nil: "gs \<noteq> [] \<Longrightarrow> colons gs \<noteq> []"
  and hd_colons: "gs \<noteq> [] \<Longrightarrow> hd (colons gs) \<noteq> CHR '':''"
  by (cases gs rule: remdups_adj.cases; simp add: hd_hex_of_not_colon)+

lemmas colons_head = colons_not_Nil hd_colons

lemma parse6_groups:
  "gs \<noteq> [] \<Longrightarrow> \<forall>g \<in> set gs. g < 65536 \<Longrightarrow> length acc + 2 * length gs \<le> 16 \<Longrightarrow>
   parse6_loop (colons gs) acc ell = Some (acc @ group_bytes gs, ell, [])"
proof (induction gs arbitrary: acc)
  case (Cons g gs)
  show ?case
  proof (cases gs)
    case Nil
    with Cons.prems show ?thesis by (simp add: parse6_last)
  next
    case (Cons h hs)
    with Cons.prems colons_head [of gs] have
      "parse6_loop (colons (g # gs)) acc ell = parse6_loop (colons gs) (acc @ group_bytes [g]) ell"
      by (simp add: parse6_colon)
    with Cons.IH [of "acc @ group_bytes [g]"] Cons.prems Cons show ?thesis by simp
  qed
qed simp

lemma parse6_groups_ellipsis:
  "gs \<noteq> [] \<Longrightarrow> \<forall>g \<in> set gs. g < 65536 \<Longrightarrow> length acc + 2 * length gs \<le> 16 \<Longrightarrow>
   parse6_loop (colons gs @ ''::'' @ t) acc None =
     (let acc' = acc @ group_bytes gs in
      if t = [] then Some (acc', Some (length acc'), [])
      else parse6_loop t acc' (Some (length acc')))"
proof (induction gs arbitrary: acc)
  case (Cons g gs)
  show ?case
  proof (cases gs)
    case Nil
    with Cons.prems show ?thesis by (simp add: parse6_ellipsis)
  next
    case (Cons h hs)
    with Cons.prems colons_head [of gs] have
      "parse6_loop (colons (g # gs) @ ''::'' @ t) acc None
       = parse6_loop (colons gs @ ''::'' @ t) (acc @ group_bytes [g]) None"
      by (simp add: parse6_colon)
    with Cons.IH [of "acc @ group_bytes [g]"] Cons.prems Cons show ?thesis by simp
  qed
qed simp

text \<open>The zero run found is a run of zeros inside the list, of at least two groups.\<close>

lemma zero_run_at_spec:
  "i + zero_run_at gs i \<le> length gs \<or> length gs \<le> i"
  "take (zero_run_at gs i) (drop i gs) = replicate (zero_run_at gs i) 0"
proof -
  show "i + zero_run_at gs i \<le> length gs \<or> length gs \<le> i"
    using length_takeWhile_le [of "\<lambda>g. g = 0" "drop i gs"] by (auto simp: zero_run_at_def)
  have "takeWhile (\<lambda>g. g = 0) xs = replicate (length (takeWhile (\<lambda>g. g = 0) xs)) 0" for xs :: "nat list"
    by (rule replicate_eqI [symmetric, THEN sym]) (auto dest: set_takeWhileD)
  then show "take (zero_run_at gs i) (drop i gs) = replicate (zero_run_at gs i) 0"
    by (metis takeWhile_eq_take zero_run_at_def)
qed

definition is_zero_run :: "nat list \<Rightarrow> nat \<times> nat \<Rightarrow> bool" where
  "is_zero_run gs r \<longleftrightarrow> (case r of (s, e) \<Rightarrow>
     s + 2 \<le> e \<and> e \<le> length gs \<and> gs = take s gs @ replicate (e - s) 0 @ drop e gs)"

lemma zero_run_at_is_run:
  assumes "i < length gs" "2 \<le> zero_run_at gs i"
  shows "is_zero_run gs (i, i + zero_run_at gs i)"
proof -
  let ?l = "zero_run_at gs i"
  have "gs = take i gs @ take ?l (drop i gs) @ drop ?l (drop i gs)"
    by (metis append_take_drop_id)
  then show ?thesis
    using assms zero_run_at_spec [where gs = gs and i = i]
    by (auto simp: is_zero_run_def add.commute)
qed

lemma zero_run_spec: "zero_run gs = Some r \<Longrightarrow> is_zero_run gs r"
proof -
  let ?step = "\<lambda>best i. let l = zero_run_at gs i in
              if 2 \<le> l \<and> (case best of None \<Rightarrow> True | Some (s, e) \<Rightarrow> e - s < l)
              then Some (i, i + l) else best"
  have inv: "\<forall>i \<in> set xs. i < length gs \<Longrightarrow> pred_option (is_zero_run gs) b \<Longrightarrow>
      pred_option (is_zero_run gs) (foldl ?step b xs)" for xs b
  proof (induction xs arbitrary: b)
    case (Cons i xs)
    then have "pred_option (is_zero_run gs) (?step b i)"
      using zero_run_at_is_run [of i gs] by (auto simp: Let_def)
    with Cons show ?case by simp
  qed simp
  assume "zero_run gs = Some r"
  with inv [of "[0..<length gs]" None] show ?thesis by (simp add: zero_run_def)
qed

text \<open>\<open>netip\<close> prints an IPv6 address in a form that it reads back as the same 16 bytes.\<close>

lemma parse_ipv6_string: "length b = 16 \<Longrightarrow> parse_ipv6 (ipv6_string b) = Some b"
proof -
  assume len: "length b = 16"
  define gs where "gs = groups16 b"
  have gs: "length gs = 8" "\<forall>g \<in> set gs. g < 65536" "group_bytes gs = b"
    using len groups16_less [of _ b] by (auto simp: gs_def length_groups16 group_bytes_groups16)
  show ?thesis
  proof (cases "zero_run gs")
    case None
    have "gs \<noteq> []" using gs by auto
    moreover have "\<not> HasPrefix (colons gs) ''::''"
      using colons_head [OF \<open>gs \<noteq> []\<close>] by (cases "colons gs") auto
    ultimately show ?thesis
      using None gs len parse6_groups [of gs "[]" None]
      by (simp add: parse_ipv6_def ipv6_string_def gs_def [symmetric] Let_def expand_ellipsis_def)
  next
    case (Some r)
    obtain s e where r: "r = (s, e)" by (cases r)
    have run: "s + 2 \<le> e" "e \<le> 8" "gs = take s gs @ replicate (e - s) 0 @ drop e gs"
      using zero_run_spec [OF Some] gs r by (simp_all add: is_zero_run_def)
    define hs ts where "hs = take s gs" and "ts = drop e gs"
    have lens: "length hs = s" "length ts = 8 - e" using run gs by (auto simp: hs_def ts_def)
    have lt: "\<forall>g \<in> set hs. g < 65536" "\<forall>g \<in> set ts. g < 65536"
      using gs(2) by (auto simp: hs_def ts_def dest: in_set_takeD in_set_dropD)
    have b: "b = group_bytes hs @ replicate (2 * (e - s)) 0 @ group_bytes ts"
      using arg_cong [OF run(3), of group_bytes] gs(3) by (simp add: group_bytes_zeros hs_def ts_def)
    have str: "ipv6_string b = colons hs @ ''::'' @ colons ts"
      using Some r by (simp add: ipv6_string_def gs_def [symmetric] hs_def ts_def Let_def)
    show ?thesis
    proof (cases "hs = []")
      case True
      then have "s = 0" using lens by simp
      with True b lens run lt parse6_groups [of ts "[]" "Some 0"] colons_head [of ts]
      show ?thesis unfolding str
        by (cases "ts = []") (auto simp: parse_ipv6_def expand_ellipsis_def)
    next
      case False
      then have "\<not> HasPrefix (ipv6_string b) ''::''"
        using colons_head [OF False] unfolding str by (cases "colons hs") auto
      moreover have "2 * length hs + 2 * length ts \<le> 12" using lens run by simp
      ultimately show ?thesis
        using False b lens run lt parse6_groups_ellipsis [of hs "[]" "colons ts"]
          parse6_groups [of ts "group_bytes hs" "Some (2 * length hs)"] colons_head [of ts]
        unfolding str
        by (cases "ts = []") (auto simp: parse_ipv6_def expand_ellipsis_def Let_def)
    qed
  qed
qed

section \<open>Characters and length of the textual forms\<close>

definition addr_char :: "char \<Rightarrow> bool" where
  "addr_char c \<longleftrightarrow> is_hex c \<or> c = CHR '':'' \<or> c = CHR ''.''"

lemma addr_char_not_sep: "addr_char c \<Longrightarrow> c \<noteq> CHR '' '' \<and> c \<noteq> CHR 0x0D"
  by (auto simp: addr_char_def is_hex_def is_digit_def)

lemma set_Join: "set (Join sep xs) \<subseteq> set sep \<union> (\<Union>x \<in> set xs. set x)"
  by (induction sep xs rule: Join.induct) auto

lemma colons_chars: "c \<in> set (colons gs) \<Longrightarrow> addr_char c"
  using set_Join [of "'':''" "map hex_of gs"] hex_of_hex
  by (auto simp: addr_char_def list_all_iff)

lemma ipv4_string_chars: "c \<in> set (ipv4_string b) \<Longrightarrow> addr_char c"
  using set_Join [of "''.''" "map (\<lambda>x. itoa (unat x)) b"] itoa_digits
  by (fastforce simp: addr_char_def ipv4_string_def list_all_iff is_hex_def)

lemma ipv6_string_chars: "c \<in> set (ipv6_string b) \<Longrightarrow> addr_char c"
  by (auto simp: ipv6_string_def Let_def split: option.splits dest: colons_chars)
    (auto simp: addr_char_def)

lemma colons_length:
  "\<forall>g \<in> set gs. g < 65536 \<Longrightarrow> length (colons gs) \<le> 5 * length gs - 1"
proof (induction gs rule: remdups_adj.induct)
  case (2 g)
  then show ?case using hex_of_length [of g] by simp
next
  case (3 g h gs)
  then have "length (colons (h # gs)) \<le> 5 * length (h # gs) - 1" by (cases "g = h") auto
  with 3 hex_of_length [of g] show ?case by simp
qed simp

lemma ipv4_string_length: "length b = 4 \<Longrightarrow> length (ipv4_string b) \<le> 15"
proof -
  assume "length b = 4"
  then obtain w x y z where b: "b = [w, x, y, z]"
    by (auto simp: length_Suc_conv numeral_eq_Suc)
  have "length (itoa (unat u)) \<le> 3" for u :: byte
    using unat_byte_less [of u] by (intro itoa_length) auto
  from this [of w] this [of x] this [of y] this [of z] show ?thesis
    by (simp add: b ipv4_string_def)
qed

lemma ipv6_string_length: "length b = 16 \<Longrightarrow> length (ipv6_string b) \<le> 39"
proof -
  assume len: "length b = 16"
  define gs where "gs = groups16 b"
  have gs: "length gs = 8" "\<forall>g \<in> set gs. g < 65536"
    using len groups16_less [of _ b] by (auto simp: gs_def length_groups16)
  show ?thesis
  proof (cases "zero_run gs")
    case None
    then show ?thesis using colons_length [OF gs(2)] gs(1)
      by (simp add: ipv6_string_def gs_def [symmetric] Let_def)
  next
    case (Some r)
    obtain s e where r: "r = (s, e)" by (cases r)
    have "s + 2 \<le> e" "e \<le> 8" using zero_run_spec [OF Some] gs r by (simp_all add: is_zero_run_def)
    moreover have "length (colons (take s gs)) \<le> 5 * s" "length (colons (drop e gs)) \<le> 5 * (8 - e)"
    proof -
      have "\<forall>g \<in> set (take s gs). g < 65536" "\<forall>g \<in> set (drop e gs). g < 65536"
        using gs(2) by (auto dest: in_set_takeD in_set_dropD)
      then show "length (colons (take s gs)) \<le> 5 * s" "length (colons (drop e gs)) \<le> 5 * (8 - e)"
        using colons_length [of "take s gs"] colons_length [of "drop e gs"] gs(1) by simp_all
    qed
    ultimately show ?thesis
      using Some r by (simp add: ipv6_string_def gs_def [symmetric] Let_def)
  qed
qed

end
