(* ===== verification/Tcp_Pipe.thy ===== *)
theory Tcp_Pipe
  imports Metrics Go_Net
begin

text \<open>
  \<open>internal/proxy/tcp.go\<close>, the data path: the traffic \<open>Counter\<close>, the error reporter \<open>err\<close> with its
  \<open>CloseOnce\<close>, and \<open>Pipe\<close>, the goroutine that copies one direction of a connection.

  What \<open>Pipe\<close> meets is an environment: the outcome of the k-th \<open>Read\<close> of the source (the bytes
  put into the buffer and an error), of the k-th \<open>Write\<close> to the destination (how many bytes it took
  and an error), and of the k-th look at the connection context. The run keeps the bytes read, the
  bytes the destination accepted, and the operations in the order made. The loop is run for a number
  of turns; \<open>None\<close> as exit means that it is still running, so a statement for every number of turns
  is a statement about every moment of an execution, finite or not.
\<close>

section \<open>Counters and errors\<close>

record Counter =
  ctr_to :: u64
  ctr_from :: u64

definition Counter_To :: "Counter \<Rightarrow> u64 \<Rightarrow> Counter" where
  "Counter_To p b = p\<lparr>ctr_to := ctr_to p + b\<rparr>"

definition Counter_From :: "Counter \<Rightarrow> u64 \<Rightarrow> Counter" where
  "Counter_From p b = p\<lparr>ctr_from := ctr_from p + b\<rparr>"

definition Counter_Total :: "Counter \<Rightarrow> u64 \<times> u64" where
  "Counter_Total p = (ctr_to p, ctr_from p)"

text \<open>
  Errors as the code tells them apart: \<open>io.EOF\<close>, \<open>net.ErrClosed\<close> (by \<open>errors.Is\<close>),
  \<open>io.ErrNoProgress\<close>, a \<open>net.Error\<close> whose \<open>Timeout()\<close> holds, any other.
\<close>

datatype io_err = EOF | ErrClosed | ErrNoProgress | TimeoutErr | OtherErr string

definition benign :: "io_err \<Rightarrow> bool" where
  "benign e \<longleftrightarrow> e = EOF \<or> e = ErrClosed"

text \<open>The fields of \<open>TCPProxy\<close> that \<open>Pipe\<close> reads; durations are nanoseconds.\<close>

record pipe_conf =
  metricsOn :: bool
  islocal :: bool
  ReadTimeout :: int
  WriteTimeout :: int
  IdleTimeout :: int

record pipe_env =
  rd :: "nat \<Rightarrow> bytes \<times> io_err option"
  wr :: "nat \<Rightarrow> bytes \<Rightarrow> nat \<times> io_err option"
  ctxErr :: "nat \<Rightarrow> bool"

datatype pipe_op = SetReadDeadline int | ReadOp | SetWriteDeadline int | WriteOp bytes

record pipe_state =
  reads :: nat
  writes :: nat
  checks :: nat
  received :: bytes
  forwarded :: bytes
  delivered :: bytes
  counter :: Counter
  mcalls :: "metric_call list"
  closeOnce :: bool
  signals :: nat
  ops :: "pipe_op list"

text \<open>
  Why \<open>Pipe\<close> returned (quietly on a cancelled context, on a timeout, on an error) and at which
  side of the copy, as the log lines tell it.
\<close>

datatype side = ReadSide | WriteSide
datatype pipe_exit = Cancelled (exit_side: side) | TimedOut (exit_side: side) | Failed (exit_side: side) io_err

text \<open>\<open>p.CloseOnce.Do(func() { p.ErrorSignal <- true })\<close>\<close>

definition signal_once :: "pipe_state \<Rightarrow> pipe_state" where
  "signal_once s = (if closeOnce s then s else s\<lparr>closeOnce := True, signals := Suc (signals s)\<rparr>)"

definition p_err :: "bool \<Rightarrow> io_err \<Rightarrow> pipe_state \<Rightarrow> pipe_state" where
  "p_err en e s =
     signal_once
       (if benign e then s
        else s\<lparr>mcalls := mcalls s @ when_enabled en [ErrorsTotal_Inc ''connection'']\<rparr>)"

definition check_ctx :: "pipe_env \<Rightarrow> pipe_state \<Rightarrow> bool \<times> pipe_state" where
  "check_ctx E s = (ctxErr E (checks s), s\<lparr>checks := Suc (checks s)\<rparr>)"

text \<open>The common handling of a read or write error: cancelled context, timeout, real error.\<close>

definition on_error ::
  "pipe_conf \<Rightarrow> pipe_env \<Rightarrow> side \<Rightarrow> io_err \<Rightarrow> pipe_state \<Rightarrow> pipe_exit \<times> pipe_state" where
  "on_error C E sd e s =
     (let (canc, s) = check_ctx E s in
      if canc then (Cancelled sd, s)
      else if e = TimeoutErr then (TimedOut sd, signal_once s)
      else (Failed sd e, p_err (metricsOn C) e s))"

section \<open>The copy loop\<close>

definition set_read_deadline :: "pipe_conf \<Rightarrow> pipe_op list" where
  "set_read_deadline C =
     (if 0 < IdleTimeout C then [SetReadDeadline (IdleTimeout C)]
      else if 0 < ReadTimeout C then [SetReadDeadline (ReadTimeout C)]
      else [])"

definition set_write_deadline :: "pipe_conf \<Rightarrow> pipe_op list" where
  "set_write_deadline C = (if 0 < WriteTimeout C then [SetWriteDeadline (WriteTimeout C)] else [])"

text \<open>One \<open>dst.Write(b[written:])\<close>: the destination takes the first \<open>n\<close> bytes of what it is offered.\<close>

definition do_write :: "pipe_env \<Rightarrow> bytes \<Rightarrow> pipe_state \<Rightarrow> (nat \<times> io_err option) \<times> pipe_state" where
  "do_write E p s =
     (wr E (writes s) p,
      s\<lparr>writes := Suc (writes s), ops := ops s @ [WriteOp p],
        delivered := delivered s @ take (fst (wr E (writes s) p)) p\<rparr>)"

text \<open>
  The inner loop. A write that takes nothing and reports no error ends the pipe, so every turn takes
  at least one byte: the measure is what is left of the chunk.
\<close>

function write_loop ::
  "pipe_conf \<Rightarrow> pipe_env \<Rightarrow> bytes \<Rightarrow> nat \<Rightarrow> pipe_state \<Rightarrow> (pipe_exit option \<times> nat) \<times> pipe_state" where
  "write_loop C E b written s =
     (if written < length b then
        let ((n, e), s) = do_write E (drop written b) s; written' = written + n in
        if n = 0 \<and> e = None then
          ((Some (Failed WriteSide ErrNoProgress), written'), p_err (metricsOn C) ErrNoProgress s)
        else (case e of
                Some err \<Rightarrow> let (x, s) = on_error C E WriteSide err s in ((Some x, written'), s)
              | None \<Rightarrow> write_loop C E b written' s)
      else ((None, written), s))"
  by pat_completeness auto
termination
  by (relation "measure (\<lambda>(C, E, b, written, s). length b - written)") (auto simp: do_write_def)

declare write_loop.simps [simp del]

definition count_chunk :: "pipe_conf \<Rightarrow> nat \<Rightarrow> pipe_state \<Rightarrow> pipe_state" where
  "count_chunk C written s =
     (if islocal C
      then s\<lparr>counter := Counter_To (counter s) (word_of_nat written),
             mcalls := mcalls s @ when_enabled (metricsOn C) [BytesSentTotal_Add written]\<rparr>
      else s\<lparr>counter := Counter_From (counter s) (word_of_nat written),
             mcalls := mcalls s @ when_enabled (metricsOn C) [BytesReceivedTotal_Add written]\<rparr>)"

text \<open>One turn of the outer loop: an exit, or the state for the next turn.\<close>

definition pipe_turn :: "pipe_conf \<Rightarrow> pipe_env \<Rightarrow> pipe_state \<Rightarrow> pipe_exit option \<times> pipe_state" where
  "pipe_turn C E s =
     (let (canc, s) = check_ctx E s in
      if canc then (Some (Cancelled ReadSide), s)
      else
        let (b, e) = rd E (reads s);
            s = s\<lparr>reads := Suc (reads s), ops := ops s @ set_read_deadline C @ [ReadOp]\<rparr>
        in case e of
             Some err \<Rightarrow> let (x, s) = on_error C E ReadSide err s in (Some x, s)
           | None \<Rightarrow>
               let s = s\<lparr>received := received s @ b, ops := ops s @ set_write_deadline C\<rparr>;
                   ((x, written), s) = write_loop C E b 0 s
               in case x of
                    Some x \<Rightarrow> (Some x, s)
                  | None \<Rightarrow> (None, count_chunk C written (s\<lparr>forwarded := forwarded s @ b\<rparr>)))"

text \<open>\<open>Pipe\<close>, observed after at most \<open>n\<close> turns of its loop.\<close>

fun Pipe :: "nat \<Rightarrow> pipe_conf \<Rightarrow> pipe_env \<Rightarrow> pipe_state \<Rightarrow> pipe_exit option \<times> pipe_state" where
  "Pipe 0 C E s = (None, s)"
| "Pipe (Suc n) C E s =
     (case pipe_turn C E s of
        (Some x, s) \<Rightarrow> (Some x, s)
      | (None, s) \<Rightarrow> Pipe n C E s)"

definition pipe_init :: "Counter \<Rightarrow> pipe_state" where
  "pipe_init c =
     \<lparr>reads = 0, writes = 0, checks = 0, received = [], forwarded = [], delivered = [],
      counter = c, mcalls = [], closeOnce = False, signals = 0, ops = []\<rparr>"

section \<open>Frames: what error handling leaves alone\<close>

text \<open>
  The documented contract of \<open>io.Writer\<close> that \<open>Pipe\<close> relies on: a write takes no more bytes than it
  is offered.
\<close>

definition writer_contract :: "pipe_env \<Rightarrow> bool" where
  "writer_contract E \<longleftrightarrow> (\<forall>k p. fst (wr E k p) \<le> length p)"

text \<open>The part of the state that describes the data, as opposed to the bookkeeping of errors.\<close>

definition data_of :: "pipe_state \<Rightarrow> nat \<times> bytes \<times> bytes \<times> bytes \<times> Counter \<times> nat \<times> nat" where
  "data_of s =
     (reads s, received s, forwarded s, delivered s, counter s,
      bytes_sent_total (mcalls s), bytes_received_total (mcalls s))"

definition signals_ok :: "pipe_state \<Rightarrow> bool" where
  "signals_ok s \<longleftrightarrow> signals s = of_bool (closeOnce s)"

definition conn_errors :: "pipe_state \<Rightarrow> nat" where
  "conn_errors s = count_list (mcalls s) (ErrorsTotal_Inc ''connection'')"

lemma data_of_signal_once [simp]: "data_of (signal_once s) = data_of s"
  and data_of_check [simp]: "data_of (s\<lparr>checks := n\<rparr>) = data_of s"
  by (simp_all add: data_of_def signal_once_def)

lemma update_frame [simp]:
  "signals_ok (s\<lparr>forwarded := f\<rparr>) = signals_ok s" "conn_errors (s\<lparr>forwarded := f\<rparr>) = conn_errors s"
  "signals_ok (s\<lparr>received := f\<rparr>) = signals_ok s" "conn_errors (s\<lparr>received := f\<rparr>) = conn_errors s"
  "signals_ok (s\<lparr>checks := n\<rparr>) = signals_ok s" "conn_errors (s\<lparr>checks := n\<rparr>) = conn_errors s"
  "signals_ok (s\<lparr>reads := n\<rparr>) = signals_ok s" "conn_errors (s\<lparr>reads := n\<rparr>) = conn_errors s"
  "signals_ok (s\<lparr>ops := os\<rparr>) = signals_ok s" "conn_errors (s\<lparr>ops := os\<rparr>) = conn_errors s"
  by (simp_all add: signals_ok_def conn_errors_def)

lemma data_of_p_err [simp]: "data_of (p_err en e s) = data_of s"
  by (cases en) (simp_all add: p_err_def, simp_all add: data_of_def)

lemma signals_ok_signal_once [simp]: "signals_ok s \<Longrightarrow> signals_ok (signal_once s)"
  by (simp add: signals_ok_def signal_once_def)

lemma signals_ok_p_err [simp]: "signals_ok s \<Longrightarrow> signals_ok (p_err en e s)"
  unfolding p_err_def by (rule signals_ok_signal_once) (simp add: signals_ok_def)

lemma closeOnce_signal_once [simp]: "closeOnce (signal_once s)"
  and closeOnce_p_err [simp]: "closeOnce (p_err en e s)"
  by (simp_all add: signal_once_def p_err_def)

lemma conn_errors_signal_once [simp]: "conn_errors (signal_once s) = conn_errors s"
  by (simp add: conn_errors_def signal_once_def)

lemma conn_errors_p_err [simp]:
  "conn_errors (p_err en e s) = conn_errors s + of_bool (en \<and> \<not> benign e)"
  by (cases en) (simp_all add: p_err_def, simp_all add: conn_errors_def)

text \<open>What an exit says about the error signal and the error metric.\<close>

definition exit_effects :: "bool \<Rightarrow> pipe_exit \<Rightarrow> pipe_state \<Rightarrow> pipe_state \<Rightarrow> bool" where
  "exit_effects en x s s' \<longleftrightarrow>
     (case x of
        Cancelled _ \<Rightarrow> closeOnce s' = closeOnce s \<and> conn_errors s' = conn_errors s
      | TimedOut _ \<Rightarrow> closeOnce s' \<and> conn_errors s' = conn_errors s
      | Failed _ e \<Rightarrow> closeOnce s' \<and> conn_errors s' = conn_errors s + of_bool (en \<and> \<not> benign e))"

lemma on_error_spec:
  assumes "on_error C E sd e s = (x, s')"
  shows "data_of s' = data_of s" "signals_ok s \<Longrightarrow> signals_ok s'" "exit_side x = sd"
    "exit_effects (metricsOn C) x s s'"
  using assms by (auto simp: on_error_def check_ctx_def exit_effects_def split: if_splits)

section \<open>The inner loop writes the chunk\<close>

lemma do_write_eq:
  assumes "do_write E p s = ((n, e), s1)"
  shows "delivered s1 = delivered s @ take n p" "n = fst (wr E (writes s) p)"
    "received s1 = received s" "forwarded s1 = forwarded s" "counter s1 = counter s"
    "mcalls s1 = mcalls s" "reads s1 = reads s" "closeOnce s1 = closeOnce s" "signals s1 = signals s"
  using assms by (auto simp: do_write_def)

definition same_but_delivered :: "pipe_state \<Rightarrow> pipe_state \<Rightarrow> bool" where
  "same_but_delivered s s' \<longleftrightarrow>
     reads s' = reads s \<and> received s' = received s \<and> forwarded s' = forwarded s \<and> counter s' = counter s
     \<and> bytes_sent_total (mcalls s') = bytes_sent_total (mcalls s)
     \<and> bytes_received_total (mcalls s') = bytes_received_total (mcalls s)"

lemma same_but_delivered_data: "data_of s' = data_of s \<Longrightarrow> same_but_delivered s s' \<and> delivered s' = delivered s"
  by (simp add: data_of_def same_but_delivered_def)

definition write_result ::
  "bool \<Rightarrow> bytes \<Rightarrow> nat \<Rightarrow> pipe_exit option \<Rightarrow> nat \<Rightarrow> pipe_state \<Rightarrow> pipe_state \<Rightarrow> bool" where
  "write_result en b i x w s s' \<longleftrightarrow>
     i \<le> w \<and> w \<le> length b \<and> delivered s' = delivered s @ take (w - i) (drop i b)
     \<and> same_but_delivered s s' \<and> (signals_ok s \<longrightarrow> signals_ok s')
     \<and> (case x of
          None \<Rightarrow> w = length b \<and> closeOnce s' = closeOnce s \<and> conn_errors s' = conn_errors s
        | Some x \<Rightarrow> exit_side x = WriteSide \<and> exit_effects en x s s')"

lemma write_result_extend:
  assumes "write_result en b (i + n) x w s1 s'" "delivered s1 = delivered s @ take n (drop i b)"
    and "same_but_delivered s s1" "signals_ok s1 = signals_ok s" "conn_errors s1 = conn_errors s"
    and "closeOnce s1 = closeOnce s"
  shows "write_result en b i x w s s'"
proof -
  have "take (w - i) (drop i b) = take n (drop i b) @ take (w - (i + n)) (drop (i + n) b)"
    if "i + n \<le> w"
  proof -
    have "w - i = n + (w - (i + n))" using that by simp
    then show ?thesis by (simp add: take_add add.commute)
  qed
  with assms show ?thesis
    by (auto simp: write_result_def same_but_delivered_def exit_effects_def
        split: option.splits pipe_exit.splits)
qed

lemma write_loop_spec:
  "writer_contract E \<Longrightarrow> i \<le> length b \<Longrightarrow> write_loop C E b i s = ((x, w), s') \<Longrightarrow>
   write_result (metricsOn C) b i x w s s'"
proof (induction C E b i s arbitrary: x w s' rule: write_loop.induct)
  case (1 C E b i s)
  show ?case
  proof (cases "i < length b")
    case False
    then have "write_loop C E b i s = ((None, i), s)" by (simp add: write_loop.simps [of C E b i s])
    with "1.prems" False show ?thesis by (simp add: write_result_def same_but_delivered_def)
  next
    case True
    obtain n e s1 where dw: "do_write E (drop i b) s = ((n, e), s1)" by (metis surj_pair)
    note eqs = do_write_eq [OF dw]
    have "n \<le> length (drop i b)"
      using "1.prems"(1) unfolding writer_contract_def eqs(2) by blast
    then have n: "i + n \<le> length b" using True by simp
    have base: "same_but_delivered s s1" "signals_ok s1 = signals_ok s" "conn_errors s1 = conn_errors s"
      using eqs by (simp_all add: same_but_delivered_def signals_ok_def conn_errors_def)
    show ?thesis
    proof (cases e)
      case None
      show ?thesis
      proof (cases "n = 0")
        case True
        with "1.prems" \<open>i < length b\<close> dw None have
          "x = Some (Failed WriteSide ErrNoProgress)" "w = i" "s' = p_err (metricsOn C) ErrNoProgress s1"
          by (simp_all add: write_loop.simps [of C E b i s])
        with True \<open>i < length b\<close> base eqs same_but_delivered_data [of s' s1] show ?thesis
          by (auto simp: write_result_def exit_effects_def same_but_delivered_def)
      next
        case False
        have "write_loop C E b (i + n) s1 = ((x, w), s')"
          using "1.prems" \<open>i < length b\<close> dw None False by (simp add: write_loop.simps [of C E b i s])
        then have "write_result (metricsOn C) b (i + n) x w s1 s'"
          using "1.prems"(1) None False n
          by (intro "1.IH" [OF \<open>i < length b\<close> dw [symmetric] refl refl refl]) auto
        then show ?thesis
          by (rule write_result_extend) (use base eqs in auto)
      qed
    next
      case (Some err)
      obtain y s2 where oe: "on_error C E WriteSide err s1 = (y, s2)" by (metis surj_pair)
      with "1.prems" \<open>i < length b\<close> dw Some have "x = Some y" "w = i + n" "s' = s2"
        by (simp_all add: write_loop.simps [of C E b i s])
      with on_error_spec [OF oe] n base eqs same_but_delivered_data [of s2 s1] show ?thesis
        by (auto simp: write_result_def exit_effects_def same_but_delivered_def split: pipe_exit.splits)
    qed
  qed
qed

section \<open>The outer loop\<close>

text \<open>
  Between two turns everything read has been delivered and counted; a turn that exits leaves at most
  a beginning of the last chunk delivered, and that chunk uncounted.
\<close>

definition counted :: "pipe_conf \<Rightarrow> Counter \<Rightarrow> pipe_state \<Rightarrow> bool" where
  "counted C c s \<longleftrightarrow>
     counter s = (if islocal C then Counter_To c (word_of_nat (length (forwarded s)))
                  else Counter_From c (word_of_nat (length (forwarded s))))
     \<and> bytes_sent_total (mcalls s) = of_bool (metricsOn C \<and> islocal C) * length (forwarded s)
     \<and> bytes_received_total (mcalls s) = of_bool (metricsOn C \<and> \<not> islocal C) * length (forwarded s)"

definition between_turns :: "pipe_conf \<Rightarrow> Counter \<Rightarrow> pipe_state \<Rightarrow> bool" where
  "between_turns C c s \<longleftrightarrow>
     received s = forwarded s \<and> delivered s = forwarded s \<and> counted C c s \<and> signals_ok s
     \<and> \<not> closeOnce s \<and> conn_errors s = 0"

definition after_exit :: "pipe_conf \<Rightarrow> Counter \<Rightarrow> pipe_exit \<Rightarrow> pipe_state \<Rightarrow> bool" where
  "after_exit C c x s \<longleftrightarrow>
     (\<exists>chunk k. received s = forwarded s @ chunk \<and> delivered s = forwarded s @ take k chunk
        \<and> (exit_side x = ReadSide \<longrightarrow> chunk = []))
     \<and> counted C c s \<and> signals_ok s
     \<and> closeOnce s = (case x of Cancelled _ \<Rightarrow> False | _ \<Rightarrow> True)
     \<and> conn_errors s = (case x of Failed _ e \<Rightarrow> of_bool (metricsOn C \<and> \<not> benign e) | _ \<Rightarrow> 0)"

lemma counted_data: "counted C c s' = counted C c s" if "data_of s' = data_of s"
  using that by (simp add: counted_def data_of_def)

lemma counted_same: "counted C c s' = counted C c s" if "same_but_delivered s s'"
  using that by (simp add: counted_def same_but_delivered_def)

lemma counted_chunk:
  assumes "counted C c s"
  shows "counted C c (count_chunk C (length b) (s\<lparr>forwarded := forwarded s @ b\<rparr>))"
  using assms by (cases "metricsOn C") (auto simp: counted_def count_chunk_def Counter_To_def Counter_From_def)

lemma between_turns_exit:
  assumes "between_turns C c s" "data_of s' = data_of s" "signals_ok s'" "exit_side x = ReadSide"
    and "exit_effects (metricsOn C) x s s'"
  shows "after_exit C c x s'"
  using assms counted_data [OF assms(2)]
  by (auto simp: between_turns_def after_exit_def exit_effects_def data_of_def split: pipe_exit.splits)

lemma count_chunk_frame:
  "received (count_chunk C w s) = received s" "forwarded (count_chunk C w s) = forwarded s"
  "delivered (count_chunk C w s) = delivered s" "signals_ok (count_chunk C w s) = signals_ok s"
  "closeOnce (count_chunk C w s) = closeOnce s" "conn_errors (count_chunk C w s) = conn_errors s"
  "reads (count_chunk C w s) = reads s"
  by (cases "metricsOn C"; simp add: count_chunk_def signals_ok_def conn_errors_def)+

lemma pipe_turn_chunk:
  assumes bt: "between_turns C c s" and contract: "writer_contract E"
    and wl: "write_loop C E b 0 (s\<lparr>received := received s @ b\<rparr>) = ((x, w), s')"
  shows "case x of
      None \<Rightarrow> between_turns C c (count_chunk C w (s'\<lparr>forwarded := forwarded s' @ b\<rparr>)) \<and> reads s' = reads s
    | Some x \<Rightarrow> after_exit C c x s'"
proof -
  let ?s = "s\<lparr>received := received s @ b\<rparr>"
  have wr: "write_result (metricsOn C) b 0 x w ?s s'"
    by (rule write_loop_spec [OF contract _ wl]) simp
  have base: "counted C c ?s" "signals_ok ?s" "\<not> closeOnce ?s" "conn_errors ?s = 0"
    using bt by (auto simp: between_turns_def counted_def)
  have cnt: "counted C c s'" using wr base(1) counted_same [of ?s s'] by (simp add: write_result_def)
  show ?thesis
  proof (cases x)
    case None
    with wr base bt counted_chunk [OF cnt, of b] show ?thesis
      by (auto simp: write_result_def between_turns_def same_but_delivered_def count_chunk_frame)
  next
    case (Some y)
    with wr base bt cnt show ?thesis
      by (auto simp: write_result_def after_exit_def between_turns_def same_but_delivered_def
          exit_effects_def split: pipe_exit.splits)
  qed
qed

lemma between_turns_update [simp]:
  "between_turns C c (s\<lparr>checks := n\<rparr>) = between_turns C c s"
  "between_turns C c (s\<lparr>reads := n\<rparr>) = between_turns C c s"
  "between_turns C c (s\<lparr>ops := os\<rparr>) = between_turns C c s"
  by (simp_all add: between_turns_def counted_def)

lemma pipe_turn_spec:
  assumes bt: "between_turns C c s" and contract: "writer_contract E" and pt: "pipe_turn C E s = (x, s')"
  shows "case x of None \<Rightarrow> between_turns C c s' \<and> reads s' = Suc (reads s) \<and> snd (rd E (reads s)) = None
      | Some x \<Rightarrow> after_exit C c x s'"
proof (cases "ctxErr E (checks s)")
  case True
  then have "x = Some (Cancelled ReadSide)" "s' = s\<lparr>checks := Suc (checks s)\<rparr>"
    using pt by (simp_all add: pipe_turn_def check_ctx_def)
  moreover have "signals_ok s" using bt by (simp add: between_turns_def)
  ultimately show ?thesis
    using between_turns_exit [OF bt, of s' "Cancelled ReadSide"] by (simp add: exit_effects_def)
next
  case False
  obtain b e where rd: "rd E (reads s) = (b, e)" by (metis surj_pair)
  let ?s1 = "s\<lparr>checks := Suc (checks s), reads := Suc (reads s), ops := ops s @ set_read_deadline C @ [ReadOp]\<rparr>"
  have bt1: "between_turns C c ?s1" using bt by simp
  show ?thesis
  proof (cases e)
    case (Some err)
    obtain y s2 where oe: "on_error C E ReadSide err ?s1 = (y, s2)" by (metis surj_pair)
    have "x = Some y" "s' = s2"
      using pt False rd Some oe by (simp_all add: pipe_turn_def check_ctx_def)
    moreover have "signals_ok ?s1" using bt1 by (simp only: between_turns_def)
    ultimately show ?thesis
      using on_error_spec [OF oe] between_turns_exit [OF bt1, of s2 y] by simp
  next
    case None
    let ?s2 = "?s1\<lparr>ops := ops ?s1 @ set_write_deadline C\<rparr>"
    obtain y w s3 where wl: "write_loop C E b 0 (?s2\<lparr>received := received ?s2 @ b\<rparr>) = ((y, w), s3)"
      by (metis surj_pair)
    have eq: "?s2\<lparr>received := received ?s2 @ b\<rparr>
        = ?s1\<lparr>received := received ?s1 @ b, ops := ops ?s1 @ set_write_deadline C\<rparr>"
      by simp
    have bt2: "between_turns C c ?s2" using bt1 by simp
    note turn = pipe_turn_chunk [OF bt2 contract wl]
    show ?thesis
    proof (cases y)
      case None
      then have "x = None" "s' = count_chunk C w (s3\<lparr>forwarded := forwarded s3 @ b\<rparr>)"
        using pt False rd \<open>e = None\<close> wl unfolding eq by (simp_all add: pipe_turn_def check_ctx_def)
      with turn None rd \<open>e = None\<close> show ?thesis by (simp add: count_chunk_frame)
    next
      case (Some z)
      then have "x = Some z" "s' = s3"
        using pt False rd \<open>e = None\<close> wl unfolding eq by (simp_all add: pipe_turn_def check_ctx_def)
      with turn Some show ?thesis by simp
    qed
  qed
qed

lemma Pipe_spec:
  assumes "writer_contract E"
  shows "between_turns C c s \<Longrightarrow> Pipe n C E s = (x, s') \<Longrightarrow>
    (case x of None \<Rightarrow> between_turns C c s' \<and> reads s' = reads s + n
                 \<and> (\<forall>k. reads s \<le> k \<and> k < reads s + n \<longrightarrow> snd (rd E k) = None)
     | Some x \<Rightarrow> after_exit C c x s')"
proof (induction n arbitrary: s)
  case (Suc n)
  obtain y s1 where pt: "pipe_turn C E s = (y, s1)" by (metis surj_pair)
  note turn = pipe_turn_spec [OF Suc.prems(1) assms pt]
  show ?case
  proof (cases y)
    case None
    then have turn': "between_turns C c s1" "reads s1 = Suc (reads s)" "snd (rd E (reads s)) = None"
      using turn by simp_all
    have "Pipe n C E s1 = (x, s')" using Suc.prems(2) pt None by simp
    note IH = Suc.IH [OF turn'(1) this]
    show ?thesis
    proof (cases x)
      case None
      have "snd (rd E k) = None" if "reads s \<le> k" "k < reads s + Suc n" for k
        using IH None turn' that by (cases "k = reads s") (auto simp: Suc_le_eq)
      with IH turn' None show ?thesis by simp
    next
      case (Some z)
      with IH show ?thesis by simp
    qed
  next
    case (Some z)
    with Suc.prems(2) pt turn show ?thesis by auto
  qed
qed auto

text \<open>The chunks of the first \<open>k\<close> reads, which a pipe forwards one after the other.\<close>

definition chunks_read :: "pipe_env \<Rightarrow> nat \<Rightarrow> bytes" where
  "chunks_read E k = concat (map (\<lambda>i. fst (rd E i)) [0..<k])"

lemma chunks_read_simps [simp]:
  "chunks_read E 0 = []" "chunks_read E (Suc k) = chunks_read E k @ fst (rd E k)"
  by (simp_all add: chunks_read_def)

lemma write_loop_checks: "write_loop C E b i s = ((None, w), s') \<Longrightarrow> checks s' = checks s"
proof (induction C E b i s arbitrary: w s' rule: write_loop.induct)
  case (1 C E b i s)
  show ?case
  proof (cases "i < length b")
    case True
    obtain n e s1 where dw: "do_write E (drop i b) s = ((n, e), s1)" by (metis surj_pair)
    have "checks s1 = checks s" using dw by (auto simp: do_write_def)
    moreover have "write_loop C E b (i + n) s1 = ((None, w), s')" "e = None" "n \<noteq> 0"
      using "1.prems" True dw
      by (simp_all add: write_loop.simps [of C E b i s] Let_def split: if_splits option.splits prod.splits)
    ultimately show ?thesis
      using "1.IH" [OF True dw [symmetric] refl refl refl] by simp
  qed (use "1.prems" in \<open>simp add: write_loop.simps [of C E b i s]\<close>)
qed

text \<open>One turn: which chunk it forwards, which it leaves uncounted, and that it looks at the context.\<close>

lemma pipe_turn_reads:
  assumes contract: "writer_contract E" and pt: "pipe_turn C E s = (x, s')"
  shows "case x of
      None \<Rightarrow> forwarded s' = forwarded s @ fst (rd E (reads s)) \<and> reads s' = Suc (reads s)
        \<and> checks s < checks s' \<and> \<not> ctxErr E (checks s)
    | Some y \<Rightarrow> exit_side y = WriteSide \<longrightarrow>
        forwarded s' = forwarded s \<and> reads s' = Suc (reads s) \<and> received s' = received s @ fst (rd E (reads s))"
proof (cases "ctxErr E (checks s) \<or> snd (rd E (reads s)) \<noteq> None")
  case True
  have "exit_side (fst (on_error C E ReadSide e t)) = ReadSide" for e t
    using on_error_spec(3) prod.collapse by metis
  with True pt show ?thesis
    by (auto simp: pipe_turn_def check_ctx_def case_prod_unfold Let_def split: if_splits option.splits)
next
  case False
  let ?b = "fst (rd E (reads s))"
  let ?s = "s\<lparr>checks := Suc (checks s), reads := Suc (reads s), received := received s @ ?b,
      ops := (ops s @ set_read_deadline C @ [ReadOp]) @ set_write_deadline C\<rparr>"
  obtain y w s3 where wl: "write_loop C E ?b 0 ?s = ((y, w), s3)" by (metis surj_pair)
  have same: "same_but_delivered ?s s3"
    using write_loop_spec [OF contract _ wl] by (simp add: write_result_def)
  have res: "(x, s') = (case y of Some z \<Rightarrow> (Some z, s3)
      | None \<Rightarrow> (None, count_chunk C w (s3\<lparr>forwarded := forwarded s3 @ ?b\<rparr>)))"
    using pt False wl by (cases y) (auto simp: pipe_turn_def check_ctx_def case_prod_unfold Let_def)
  show ?thesis
  proof (cases y)
    case None
    then have "checks s3 = Suc (checks s)" using write_loop_checks wl by simp
    with None res same False show ?thesis by (simp add: count_chunk_def same_but_delivered_def)
  next
    case (Some z)
    with res same show ?thesis by (simp add: same_but_delivered_def)
  qed
qed

lemma Pipe_add:
  "Pipe (m + n) C E s = (case Pipe m C E s of (Some x, t) \<Rightarrow> (Some x, t) | (None, t) \<Rightarrow> Pipe n C E t)"
  by (induction m arbitrary: s) (auto split: prod.split option.split)

lemma Pipe_reads:
  assumes contract: "writer_contract E"
  shows "between_turns C c s \<Longrightarrow> forwarded s = chunks_read E (reads s) \<Longrightarrow> Pipe n C E s = (x, s') \<Longrightarrow>
    (case x of
       None \<Rightarrow> \<exists>j. checks s + n \<le> Suc j \<and> (n = 0 \<or> \<not> ctxErr E j)
     | Some y \<Rightarrow> exit_side y = WriteSide \<longrightarrow>
         (\<exists>k. reads s' = Suc k \<and> forwarded s' = chunks_read E k \<and> received s' = chunks_read E (Suc k)))"
proof (induction n arbitrary: s)
  case 0
  then show ?case by (auto intro!: exI [of _ "checks s"])
next
  case (Suc n)
  obtain y s1 where pt: "pipe_turn C E s = (y, s1)" by (metis surj_pair)
  note turn = pipe_turn_reads [OF contract pt] and spec = pipe_turn_spec [OF Suc.prems(1) contract pt]
  show ?case
  proof (cases y)
    case (Some z)
    with Suc.prems pt turn show ?thesis by (auto simp: between_turns_def)
  next
    case None
    have run: "Pipe n C E s1 = (x, s')" using Suc.prems(3) pt None by simp
    have bt: "between_turns C c s1" and fw: "forwarded s1 = chunks_read E (reads s1)"
      using None turn spec Suc.prems(2) by simp_all
    note IH = Suc.IH [OF bt fw run]
    show ?thesis
    proof (cases x)
      case None
      with IH obtain j where j: "checks s1 + n \<le> Suc j" "n = 0 \<or> \<not> ctxErr E j" by auto
      have "checks s < checks s1" "\<not> ctxErr E (checks s)" using turn \<open>y = None\<close> by simp_all
      with j have "\<exists>j. checks s + Suc n \<le> Suc j \<and> \<not> ctxErr E j"
        by (cases "n = 0") (auto intro: exI [of _ "checks s"] exI [of _ j])
      with None show ?thesis by simp
    next
      case (Some z)
      with IH show ?thesis by simp
    qed
  qed
qed

lemma between_turns_init: "between_turns C c (pipe_init c)"
  by (simp add: between_turns_def pipe_init_def counted_def signals_ok_def conn_errors_def
      Counter_To_def Counter_From_def)

lemma pipe_init_reads: "forwarded (pipe_init c) = chunks_read E (reads (pipe_init c))"
  by (simp add: pipe_init_def)

lemmas Pipe_from_init = Pipe_spec [OF _ between_turns_init]
lemmas Pipe_reads_init = Pipe_reads [OF _ between_turns_init pipe_init_reads]

section \<open>Properties\<close>

text \<open>
  A concrete environment for the witnesses: the source yields two chunks and then the given error;
  the destination takes at most two bytes per write.
\<close>

definition demo_env :: "io_err \<Rightarrow> pipe_env" where
  "demo_env e =
     \<lparr>rd = (\<lambda>k. if k = 0 then ([1, 2, 3], None) else if k = 1 then ([4], None) else ([], Some e)),
      wr = (\<lambda>k p. (min 2 (length p), None)), ctxErr = (\<lambda>_. False)\<rparr>"

definition demo_conf :: pipe_conf where
  "demo_conf = \<lparr>metricsOn = True, islocal = True, ReadTimeout = 0, WriteTimeout = 5, IdleTimeout = 7\<rparr>"

lemma demo_contract: "writer_contract (demo_env e)"
  by (simp add: writer_contract_def demo_env_def)

definition demo_result :: "io_err \<Rightarrow> pipe_exit option \<times> pipe_state" where
  "demo_result e = Pipe 3 demo_conf (demo_env e) (pipe_init \<lparr>ctr_to = 0, ctr_from = 0\<rparr>)"

lemma demo_result_split:
  "Pipe 3 demo_conf (demo_env e) (pipe_init \<lparr>ctr_to = 0, ctr_from = 0\<rparr>) = (fst (demo_result e), snd (demo_result e))"
  by (simp add: demo_result_def)

lemma demo_result_EOF:
  "fst (demo_result EOF) = Some (Failed ReadSide EOF)" "delivered (snd (demo_result EOF)) = [1, 2, 3, 4]"
  by code_simp+

text \<open>
  C1. \<open>Pipe\<close> neither loses, reorders nor invents bytes. At every moment of its run, whatever the
  reads and writes return, what the destination has accepted is a beginning of what was read; while
  the pipe runs, and after any exit on the reading side, it is all of it.
\<close>

theorem Pipe_delivers_prefix:
  assumes "writer_contract E" "Pipe n C E (pipe_init c) = (x, s)"
  shows "(\<exists>rest. received s = delivered s @ rest)
    \<and> (x = None \<or> exit_side (the x) = ReadSide \<longrightarrow> delivered s = received s)"
proof (cases x)
  case None
  with Pipe_from_init [OF assms] show ?thesis by (simp add: between_turns_def)
next
  case (Some y)
  then have "after_exit C c y s" using Pipe_from_init [OF assms] by simp
  then obtain chunk k where ck: "received s = forwarded s @ chunk" "delivered s = forwarded s @ take k chunk"
    and rs: "exit_side y = ReadSide \<longrightarrow> chunk = []"
    by (auto simp: after_exit_def)
  have "received s = delivered s @ drop k chunk" using ck by simp
  then have "\<exists>rest. received s = delivered s @ rest" ..
  with ck rs Some show ?thesis by simp
qed

theorem Pipe_delivers_prefix_witness:
  "fst (demo_result EOF) = Some (Failed ReadSide EOF) \<and> received (snd (demo_result EOF)) = [1, 2, 3, 4]"
  using Pipe_delivers_prefix [OF demo_contract demo_result_split [of EOF]] demo_result_EOF by simp

text \<open>
  C15. Traffic accounting. At every moment the counter of the pipe's direction has grown by exactly
  the number of bytes of the chunks completely written (modulo 2 to the 64, as \<open>AddUint64\<close> wraps),
  the other direction's counter is untouched, and the Prometheus byte counter has grown by the same
  number when metrics are on. While the pipe runs or after an exit on the reading side this is the number
  of bytes delivered. After an exit on the writing side it is the length of all chunks but the last one
  read: the chunk whose write failed is not counted, however much of it was delivered.
\<close>

theorem Pipe_counts_bytes:
  assumes "writer_contract E" "Pipe n C E (pipe_init c) = (x, s)"
  shows "\<exists>m.
      (x = None \<or> exit_side (the x) = ReadSide \<longrightarrow> m = length (delivered s))
    \<and> (x \<noteq> None \<and> exit_side (the x) = WriteSide \<longrightarrow>
        (\<exists>k j. reads s = Suc k \<and> m = length (chunks_read E k)
           \<and> delivered s = chunks_read E k @ take j (fst (rd E k))))
    \<and> Counter_Total (counter s) =
        (if islocal C then (ctr_to c + word_of_nat m, ctr_from c) else (ctr_to c, ctr_from c + word_of_nat m))
    \<and> bytes_sent_total (mcalls s) = (if metricsOn C \<and> islocal C then m else 0)
    \<and> bytes_received_total (mcalls s) = (if metricsOn C \<and> \<not> islocal C then m else 0)"
proof -
  have counted: "counted C c s"
    and read: "x = None \<or> exit_side (the x) = ReadSide \<longrightarrow> length (forwarded s) = length (delivered s)"
    using Pipe_from_init [OF assms] by (cases x; force simp: between_turns_def after_exit_def)+
  have side: "\<exists>k j. reads s = Suc k \<and> length (forwarded s) = length (chunks_read E k)
      \<and> delivered s = chunks_read E k @ take j (fst (rd E k))"
    if "x \<noteq> None \<and> exit_side (the x) = WriteSide"
  proof -
    from that Pipe_reads_init [OF assms] obtain k where
      k: "reads s = Suc k" "forwarded s = chunks_read E k" "received s = chunks_read E (Suc k)" by auto
    from that Pipe_from_init [OF assms] obtain chunk j where
      "received s = forwarded s @ chunk" "delivered s = forwarded s @ take j chunk" by (auto simp: after_exit_def)
    with k show ?thesis by auto
  qed
  show ?thesis
  proof (rule exI, intro conjI)
    show "x = None \<or> exit_side (the x) = ReadSide \<longrightarrow> length (forwarded s) = length (delivered s)" by (rule read)
    show "x \<noteq> None \<and> exit_side (the x) = WriteSide \<longrightarrow>
        (\<exists>k j. reads s = Suc k \<and> length (forwarded s) = length (chunks_read E k)
           \<and> delivered s = chunks_read E k @ take j (fst (rd E k)))"
      using side by blast
  qed (use counted in \<open>simp_all add: counted_def Counter_Total_def Counter_To_def Counter_From_def\<close>)
qed

text \<open>A destination that takes the first chunk, then two bytes of the second, and fails.\<close>

definition short_env :: pipe_env where
  "short_env = (demo_env EOF)\<lparr>rd := (\<lambda>k. ([1, 2, 3], None)),
     wr := (\<lambda>k p. if k = 0 then (min 3 (length p), None) else (min 2 (length p), Some (OtherErr ''reset'')))\<rparr>"

definition short_result :: pipe_state where
  "short_result = snd (Pipe 2 demo_conf short_env (pipe_init \<lparr>ctr_to = 0, ctr_from = 0\<rparr>))"

lemma short_contract: "writer_contract short_env"
  by (simp add: writer_contract_def short_env_def)

lemma short_run:
  "Pipe 2 demo_conf short_env (pipe_init \<lparr>ctr_to = 0, ctr_from = 0\<rparr>) = (Some (Failed WriteSide (OtherErr ''reset'')), short_result)"
  "reads short_result = 2" "delivered short_result = [1, 2, 3, 1, 2]"
proof -
  have "fst (Pipe 2 demo_conf short_env (pipe_init \<lparr>ctr_to = 0, ctr_from = 0\<rparr>)) = Some (Failed WriteSide (OtherErr ''reset''))"
    by code_simp
  then show "Pipe 2 demo_conf short_env (pipe_init \<lparr>ctr_to = 0, ctr_from = 0\<rparr>)
      = (Some (Failed WriteSide (OtherErr ''reset'')), short_result)"
    unfolding short_result_def by (metis prod.collapse)
  show "reads short_result = 2" "delivered short_result = [1, 2, 3, 1, 2]" by code_simp+
qed

theorem Pipe_counts_bytes_witness:
  "Counter_Total (counter (snd (demo_result EOF))) = (4, 0) \<and> bytes_sent_total (mcalls (snd (demo_result EOF))) = 4
   \<and> length (delivered short_result) = 5 \<and> Counter_Total (counter short_result) = (3, 0)"
proof -
  have "Counter_Total (counter (snd (demo_result EOF))) = (4, 0)" "bytes_sent_total (mcalls (snd (demo_result EOF))) = 4"
    using Pipe_counts_bytes [OF demo_contract demo_result_split [of EOF]] demo_result_EOF
    by (auto simp: demo_conf_def)
  moreover have "chunks_read short_env (Suc 0) = [1, 2, 3]" by (simp add: short_env_def)
  then have "Counter_Total (counter short_result) = (3, 0)"
    using Pipe_counts_bytes [OF short_contract short_run(1)] short_run(2) by (auto simp: demo_conf_def)
  ultimately show ?thesis using short_run(3) by simp
qed

text \<open>
  C23. The pipe ends. If the source reports an error at its k-th read, or the connection context is
  cancelled by the time of the k-th look at it (a cancelled context stays cancelled), the pipe has returned
  after at most k + 1 turns, whatever the destination does: the inner write loop cannot spin. The
  result does not depend on how many more turns are allowed.
\<close>

theorem Pipe_terminates:
  assumes "writer_contract E" and "snd (rd E k) \<noteq> None \<or> (\<forall>j \<ge> k. ctxErr E j)"
  shows "\<exists>x s. \<forall>n > k. Pipe n C E (pipe_init c) = (Some x, s)"
proof -
  obtain x s where P: "Pipe (Suc k) C E (pipe_init c) = (x, s)" by (metis surj_pair)
  have "snd (rd E k) = None \<and> \<not> (\<forall>j \<ge> k. ctxErr E j)" if "x = None"
    using Pipe_from_init [OF assms(1) P] Pipe_reads_init [OF assms(1) P] that by (auto simp: pipe_init_def)
  with assms(2) have "x \<noteq> None" by metis
  then obtain y where y: "x = Some y" by blast
  have "Pipe n C E (pipe_init c) = (Some y, s)" if "n > k" for n
    using Pipe_add [of "Suc k" "n - Suc k" C E "pipe_init c"] that P y by simp
  then show ?thesis by blast
qed

theorem Pipe_terminates_witness:
  "(\<exists>x s. \<forall>n > 2. Pipe n demo_conf (demo_env EOF) (pipe_init \<lparr>ctr_to = 0, ctr_from = 0\<rparr>) = (Some x, s))
   \<and> (\<exists>x s. \<forall>n > 5. Pipe n demo_conf (short_env\<lparr>wr := wr (demo_env EOF), ctxErr := (\<lambda>j. 5 \<le> j)\<rparr>)
        (pipe_init \<lparr>ctr_to = 0, ctr_from = 0\<rparr>) = (Some x, s))"
proof
  show "\<exists>x s. \<forall>n > 2. Pipe n demo_conf (demo_env EOF) (pipe_init \<lparr>ctr_to = 0, ctr_from = 0\<rparr>) = (Some x, s)"
    by (rule Pipe_terminates [OF demo_contract]) (simp add: demo_env_def)
  show "\<exists>x s. \<forall>n > 5. Pipe n demo_conf (short_env\<lparr>wr := wr (demo_env EOF), ctxErr := (\<lambda>j. 5 \<le> j)\<rparr>)
      (pipe_init \<lparr>ctr_to = 0, ctr_from = 0\<rparr>) = (Some x, s)"
    by (rule Pipe_terminates) (simp_all add: writer_contract_def demo_env_def)
qed

text \<open>
  The error signal and the error metric of one pipe. The pipe sends on \<open>ErrorSignal\<close> at most
  once; it has sent exactly when it returned for another reason than a cancelled context; and it
  counts a connection error exactly when it failed with an error other than EOF, a closed connection
  or a timeout.
\<close>

theorem Pipe_signals_once:
  assumes "writer_contract E" "Pipe n C E (pipe_init c) = (x, s)"
  shows "signals s = (case x of None \<Rightarrow> 0 | Some (Cancelled _) \<Rightarrow> 0 | Some _ \<Rightarrow> 1)
    \<and> count_list (mcalls s) (ErrorsTotal_Inc ''connection'') =
        (case x of Some (Failed _ e) \<Rightarrow> if metricsOn C \<and> e \<noteq> EOF \<and> e \<noteq> ErrClosed then 1 else 0 | _ \<Rightarrow> 0)"
  using Pipe_from_init [OF assms]
  by (cases x) (auto simp: between_turns_def after_exit_def signals_ok_def conn_errors_def benign_def
      split: pipe_exit.splits)

theorem Pipe_signals_once_witness:
  "signals (snd (demo_result EOF)) = 1
   \<and> count_list (mcalls (snd (demo_result EOF))) (ErrorsTotal_Inc ''connection'') = 0"
  using Pipe_signals_once [OF demo_contract demo_result_split [of EOF]] demo_result_EOF by simp

text \<open>
  C40. Bytes that arrive together with an error are dropped. \<open>io.Reader\<close> allows a read to return
  data and an error at once, and \<open>tls.Conn.Read\<close> does so when a close notification follows the
  data. Whenever that happens, at the first read or at any later one, the pipe returns without offering
  those bytes to the destination: after the read there is no further operation, and what was delivered and
  counted before is all there is.
\<close>

theorem Pipe_drops_bytes_read_with_error:
  assumes "writer_contract E" and "Pipe k C E (pipe_init c) = (None, s)"
    and "rd E k = (b, Some e)" and "\<not> ctxErr E (checks s)"
  shows "\<exists>x s'. (\<forall>n > k. Pipe n C E (pipe_init c) = (Some x, s')) \<and> reads s' = Suc k
    \<and> ops s' = ops s @ set_read_deadline C @ [ReadOp]
    \<and> delivered s' = delivered s \<and> counter s' = counter s
    \<and> bytes_sent_total (mcalls s') = bytes_sent_total (mcalls s)
    \<and> bytes_received_total (mcalls s') = bytes_received_total (mcalls s)"
proof -
  let ?s1 = "s\<lparr>checks := Suc (checks s), reads := Suc (reads s), ops := ops s @ set_read_deadline C @ [ReadOp]\<rparr>"
  have reads: "reads s = k" using Pipe_from_init [OF assms(1,2)] by (simp add: pipe_init_def)
  obtain x s' where oe: "on_error C E ReadSide e ?s1 = (x, s')" by (metis surj_pair)
  have "pipe_turn C E s = (Some x, s')" using assms(3,4) oe reads by (simp add: pipe_turn_def check_ctx_def)
  then have turn: "Pipe (n - k) C E s = (Some x, s')" if "n > k" for n
    using that by (cases "n - k") auto
  have "Pipe n C E (pipe_init c) = (Some x, s')" if "n > k" for n
    using Pipe_add [of k "n - k" C E "pipe_init c"] turn [OF that] that assms(2) by simp
  moreover have "ops s' = ops ?s1"
    using oe by (auto simp: on_error_def check_ctx_def p_err_def signal_once_def split: if_splits)
  ultimately show ?thesis
    using on_error_spec(1) [OF oe] reads by (intro exI [of _ x] exI [of _ s']) (simp add: data_of_def)
qed

theorem Pipe_drops_bytes_read_with_error_witness:
  "let E = (demo_env EOF)\<lparr>rd := (\<lambda>k. if k = 0 then ([1], None) else ([72, 105], Some EOF))\<rparr>;
       run = (\<lambda>n. Pipe n demo_conf E (pipe_init \<lparr>ctr_to = 0, ctr_from = 0\<rparr>))
   in fst (run 1) = None \<and> (\<exists>x s. run 2 = (Some x, s) \<and> delivered s = [1] \<and> counter s = \<lparr>ctr_to = 1, ctr_from = 0\<rparr>)"
proof -
  let ?E = "(demo_env EOF)\<lparr>rd := (\<lambda>k. if k = 0 then ([1], None) else ([72, 105], Some EOF))\<rparr>"
  let ?init = "pipe_init \<lparr>ctr_to = 0, ctr_from = 0\<rparr>"
  let ?s = "snd (Pipe 1 demo_conf ?E ?init)"
  have one: "fst (Pipe 1 demo_conf ?E ?init) = None" "delivered ?s = [1]" "counter ?s = \<lparr>ctr_to = 1, ctr_from = 0\<rparr>"
    by code_simp+
  have "Pipe 1 demo_conf ?E ?init = (None, ?s)" using one(1) by (simp only: prod_eq_iff fst_conv snd_conv)
  from Pipe_drops_bytes_read_with_error [OF _ this, of "[72, 105]" EOF]
  obtain x s' where "\<forall>n > 1. Pipe n demo_conf ?E ?init = (Some x, s')" "delivered s' = delivered ?s" "counter s' = counter ?s"
    by (auto simp: writer_contract_def demo_env_def)
  with one show ?thesis unfolding Let_def by simp
qed

end
