(* ===== verification/Proxy_Proto.thy ===== *)
theory Proxy_Proto
  imports Go_Net
begin

text \<open>
  The HAProxy PROXY protocol header builder of \<open>internal/proxy/proxyproto.go\<close>: \<open>ProxyHeader\<close> with
  the text form (v1) and the binary form (v2). The receivers \<open>decode_v1\<close> and \<open>decode_v2\<close> are the
  protocol's own reading rules; the theorems say that a receiver of the bytes \<open>ProxyHeader\<close> builds
  learns exactly the two addresses, and that the header delimits itself from the payload behind it.
\<close>

section \<open>The header builder\<close>

definition v2Signature :: bytes where
  "v2Signature = [0x0D, 0x0A, 0x0D, 0x0A, 0x00, 0x0D, 0x0A, 0x51, 0x55, 0x49, 0x54, 0x0A]"

datatype pp_error = UnknownVersion string

definition tcpAddr :: "net_addr \<Rightarrow> (ip \<times> int) option" where
  "tcpAddr a =
     (case a of
        TCPAddr i port zone \<Rightarrow> Some (i, port)
      | OtherAddr s \<Rightarrow>
          (case SplitHostPort s of
             Inl _ \<Rightarrow> None
           | Inr (host, portStr) \<Rightarrow>
               (case ParseIP host of
                  None \<Rightarrow> None
                | Some i \<Rightarrow>
                    (case sscanf_d portStr of None \<Rightarrow> None | Some port \<Rightarrow> Some (i, port)))))"

definition CRLF :: string where
  "CRLF = [CHR 0x0D, CHR 0x0A]"

definition v1_unknown :: string where
  "v1_unknown = ''PROXY UNKNOWN'' @ CRLF"

definition v1_line :: "string \<Rightarrow> string \<Rightarrow> string \<Rightarrow> int \<Rightarrow> int \<Rightarrow> string" where
  "v1_line fam s d sp dp =
     ''PROXY '' @ fam @ '' '' @ s @ '' '' @ d @ '' '' @ itoa_int sp @ '' '' @ itoa_int dp @ CRLF"

definition proxyHeaderV1 :: "net_addr \<Rightarrow> net_addr \<Rightarrow> bytes" where
  "proxyHeaderV1 src dst =
     (case (tcpAddr src, tcpAddr dst) of
        (Some (sIP, sPort), Some (dIP, dPort)) \<Rightarrow>
          (case (To4 sIP, To4 dIP) of
             (Some s4, Some d4) \<Rightarrow> str_bytes (v1_line ''TCP4'' (ip_string s4) (ip_string d4) sPort dPort)
           | (None, None) \<Rightarrow> str_bytes (v1_line ''TCP6'' (ip_string sIP) (ip_string dIP) sPort dPort)
           | _ \<Rightarrow> str_bytes v1_unknown)
      | _ \<Rightarrow> str_bytes v1_unknown)"

text \<open>\<open>append(hdr, ip.To16()...)\<close> appends nothing when \<open>To16\<close> is \<open>nil\<close>.\<close>

definition slice_of :: "bytes option \<Rightarrow> bytes" where
  "slice_of b = (case b of None \<Rightarrow> [] | Some x \<Rightarrow> x)"

definition proxyHeaderV2 :: "net_addr \<Rightarrow> net_addr \<Rightarrow> bytes" where
  "proxyHeaderV2 src dst =
     (let hdr = v2Signature @ [0x21] in
      case (tcpAddr src, tcpAddr dst) of
        (Some (sIP, sPort), Some (dIP, dPort)) \<Rightarrow>
          (case (To4 sIP, To4 dIP) of
             (Some s4, Some d4) \<Rightarrow>
               let hdr = hdr @ [0x11] @ [0x00, 0x0C] @ s4 @ d4;
                   hdr = AppendUint16 hdr (word_of_int sPort)
               in AppendUint16 hdr (word_of_int dPort)
           | (None, None) \<Rightarrow>
               let hdr = hdr @ [0x21] @ [0x00, 0x24] @ slice_of (To16 sIP) @ slice_of (To16 dIP);
                   hdr = AppendUint16 hdr (word_of_int sPort)
               in AppendUint16 hdr (word_of_int dPort)
           | _ \<Rightarrow> hdr @ [0x00] @ [0x00, 0x00])
      | _ \<Rightarrow> hdr @ [0x00] @ [0x00, 0x00])"

definition ProxyHeader :: "string \<Rightarrow> net_addr \<Rightarrow> net_addr \<Rightarrow> pp_error + bytes" where
  "ProxyHeader version src dst =
     (if version = ''v1'' then Inr (proxyHeaderV1 src dst)
      else if version = ''v2'' then Inr (proxyHeaderV2 src dst)
      else if version = '''' then Inr []
      else Inl (UnknownVersion version))"

section \<open>What the header means\<close>

text \<open>
  The abstract contract: a connection is described as a TCP4 or TCP6 pair of endpoints, or not at
  all. Ports are 16-bit values on the wire.
\<close>

datatype pp_info = PP_TCP4 bytes bytes u16 u16 | PP_TCP6 bytes bytes u16 u16 | PP_Unspec

definition pp_meaning :: "net_addr \<Rightarrow> net_addr \<Rightarrow> pp_info" where
  "pp_meaning src dst =
     (case (tcpAddr src, tcpAddr dst) of
        (Some (a, p), Some (b, q)) \<Rightarrow>
          (case (To4 a, To4 b) of
             (Some a4, Some b4) \<Rightarrow> PP_TCP4 a4 b4 (word_of_int p) (word_of_int q)
           | (None, None) \<Rightarrow> PP_TCP6 a b (word_of_int p) (word_of_int q)
           | _ \<Rightarrow> PP_Unspec)
      | _ \<Rightarrow> PP_Unspec)"

text \<open>Endpoints as a connection has them: IPs of 4 or 16 bytes, ports of 16 bits.\<close>

definition endpoint_ok :: "net_addr \<Rightarrow> bool" where
  "endpoint_ok a =
     (case tcpAddr a of None \<Rightarrow> True | Some (i, p) \<Rightarrow> valid_ip i \<and> 0 \<le> p \<and> p < 65536)"

definition ip_ok :: "net_addr \<Rightarrow> bool" where
  "ip_ok a = (case tcpAddr a of None \<Rightarrow> True | Some (i, p) \<Rightarrow> valid_ip i)"

text \<open>
  The receiver of a v2 header: signature, version and command, family, a length, and an address
  block of that length, of which the receiver reads what the family needs and skips the rest.
\<close>

definition decode_v2_block :: "byte \<Rightarrow> bytes \<Rightarrow> pp_info option" where
  "decode_v2_block fam blk =
     (if fam = 0x11 then
        if length blk < 12 then None
        else Some (PP_TCP4 (take 4 blk) (take 4 (drop 4 blk)) (be16 (blk ! 8) (blk ! 9)) (be16 (blk ! 10) (blk ! 11)))
      else if fam = 0x21 then
        if length blk < 36 then None
        else Some (PP_TCP6 (take 16 blk) (take 16 (drop 16 blk)) (be16 (blk ! 32) (blk ! 33)) (be16 (blk ! 34) (blk ! 35)))
      else if fam = 0x00 then Some PP_Unspec else None)"

definition decode_v2 :: "bytes \<Rightarrow> (pp_info \<times> bytes) option" where
  "decode_v2 bs =
     (if length bs < 16 \<or> take 12 bs \<noteq> v2Signature \<or> bs ! 12 \<noteq> 0x21 then None
      else
        let n = unat (be16 (bs ! 14) (bs ! 15)); rest = drop 16 bs in
        if length rest < n then None
        else map_option (\<lambda>i. (i, drop n rest)) (decode_v2_block (bs ! 13) (take n rest)))"

text \<open>The receiver of a v1 header: one line of text up to CR LF, fields separated by a space.\<close>

definition port16 :: "string \<Rightarrow> u16 option" where
  "port16 s = (case parse_nat s of Some n \<Rightarrow> if n < 65536 then Some (word_of_nat n) else None | None \<Rightarrow> None)"

definition v1_fields :: "string list \<Rightarrow> pp_info option" where
  "v1_fields fs =
     (case fs of
        [pr, un] \<Rightarrow> if pr = ''PROXY'' \<and> un = ''UNKNOWN'' then Some PP_Unspec else None
      | [pr, fam, s, d, sp, dp] \<Rightarrow>
          if pr \<noteq> ''PROXY'' then None
          else
            (case (port16 sp, port16 dp) of
               (Some p, Some q) \<Rightarrow>
                 if fam = ''TCP4'' then
                   (case (parse_ipv4 s, parse_ipv4 d) of
                      (Some a, Some b) \<Rightarrow> Some (PP_TCP4 a b p q) | _ \<Rightarrow> None)
                 else if fam = ''TCP6'' then
                   (case (parse_ipv6 s, parse_ipv6 d) of
                      (Some a, Some b) \<Rightarrow> Some (PP_TCP6 a b p q) | _ \<Rightarrow> None)
                 else None
             | _ \<Rightarrow> None)
      | _ \<Rightarrow> None)"

definition decode_v1 :: "bytes \<Rightarrow> (pp_info \<times> bytes) option" where
  "decode_v1 bs =
     (let line = takeWhile (\<lambda>b. b \<noteq> 0x0D) bs; rest = drop (length line) bs in
      if take 2 rest = [0x0D, 0x0A]
      then map_option (\<lambda>i. (i, drop 2 rest)) (v1_fields (Split CHR '' '' (bytes_str line)))
      else None)"

section \<open>The binary form\<close>

lemma decode_v2_header:
  assumes "length blk = unat (be16 h l)"
  shows "decode_v2 (v2Signature @ [0x21] @ [fam] @ [h, l] @ blk @ rest)
       = map_option (\<lambda>i. (i, rest)) (decode_v2_block fam blk)"
  using assms by (simp add: decode_v2_def v2Signature_def Let_def)

lemma decode_v2_block_TCP4:
  assumes "length a = 4" "length b = 4"
  shows "decode_v2_block 0x11 (a @ b @ [ucast (drop_bit 8 p), ucast p, ucast (drop_bit 8 q), ucast q])
       = Some (PP_TCP4 a b p q)"
  using assms be16_split [of p] be16_split [of q]
  by (simp add: decode_v2_block_def nth_append)

lemma decode_v2_block_TCP6:
  assumes "length a = 16" "length b = 16"
  shows "decode_v2_block 0x21 (a @ b @ [ucast (drop_bit 8 p), ucast p, ucast (drop_bit 8 q), ucast q])
       = Some (PP_TCP6 a b p q)"
  using assms be16_split [of p] be16_split [of q]
  by (simp add: decode_v2_block_def nth_append)

lemma be16_lengths [simp]: "unat (be16 0 0x0C) = 12" "unat (be16 0 0x24) = 36" "unat (be16 0 0) = 0"
  by (simp_all add: be16_def)

lemma To16_valid6: "To4 a = None \<Longrightarrow> valid_ip a \<Longrightarrow> To16 a = Some a"
  by (auto simp: To16_def dest: To4_None_length)

text \<open>
  The three shapes a header can have; the last one covers unknown addresses and mixed families.
\<close>

lemma proxyHeaderV2_cases:
  obtains (tcp4) a p b q a4 b4 where "tcpAddr src = Some (a, p)" "tcpAddr dst = Some (b, q)"
      "To4 a = Some a4" "To4 b = Some b4"
  | (tcp6) a p b q where "tcpAddr src = Some (a, p)" "tcpAddr dst = Some (b, q)" "To4 a = None" "To4 b = None"
  | (unspec) "proxyHeaderV2 src dst = v2Signature @ [0x21] @ [0x00] @ [0x00, 0x00]"
      "proxyHeaderV1 src dst = str_bytes v1_unknown" "pp_meaning src dst = PP_Unspec"
proof (cases "tcpAddr src")
  case None
  then show ?thesis using unspec by (simp add: proxyHeaderV2_def proxyHeaderV1_def pp_meaning_def Let_def)
next
  case S: (Some x)
  obtain a p where x: "x = (a, p)" by (cases x)
  show ?thesis
  proof (cases "tcpAddr dst")
    case None
    with S show ?thesis
      using unspec by (simp add: proxyHeaderV2_def proxyHeaderV1_def pp_meaning_def Let_def x)
  next
    case D: (Some y)
    obtain b q where y: "y = (b, q)" by (cases y)
    show ?thesis
      using S D x y tcp4 tcp6 unspec
      by (cases "To4 a"; cases "To4 b")
        (auto simp: proxyHeaderV2_def proxyHeaderV1_def pp_meaning_def Let_def)
  qed
qed

lemma v2_receiver:
  assumes "ip_ok src" "ip_ok dst"
  shows "decode_v2 (proxyHeaderV2 src dst @ rest) = Some (pp_meaning src dst, rest)"
proof (cases src dst rule: proxyHeaderV2_cases)
  case (tcp4 a p b q a4 b4)
  have len: "length a4 = 4" "length b4 = 4" using tcp4 To4_length by blast+
  let ?p = "word_of_int p :: u16" and ?q = "word_of_int q :: u16"
  have "proxyHeaderV2 src dst = v2Signature @ [0x21] @ [0x11] @ [0x00, 0x0C] @
      a4 @ b4 @ [ucast (drop_bit 8 ?p), ucast ?p, ucast (drop_bit 8 ?q), ucast ?q]"
    using tcp4 by (simp add: proxyHeaderV2_def AppendUint16_def Let_def)
  then show ?thesis
    using tcp4 len decode_v2_block_TCP4 [OF len, of ?p ?q]
      decode_v2_header [of "a4 @ b4 @ [ucast (drop_bit 8 ?p), ucast ?p, ucast (drop_bit 8 ?q), ucast ?q]"
        0 "0x0C" "0x11" rest]
    by (simp add: pp_meaning_def)
next
  case (tcp6 a p b q)
  have valid: "valid_ip a" "valid_ip b" using assms tcp6 by (auto simp: ip_ok_def)
  have len: "length a = 16" "length b = 16" using tcp6 valid To4_None_length by blast+
  let ?p = "word_of_int p :: u16" and ?q = "word_of_int q :: u16"
  have "proxyHeaderV2 src dst = v2Signature @ [0x21] @ [0x21] @ [0x00, 0x24] @
      a @ b @ [ucast (drop_bit 8 ?p), ucast ?p, ucast (drop_bit 8 ?q), ucast ?q]"
    using tcp6 valid by (simp add: proxyHeaderV2_def AppendUint16_def Let_def To16_valid6 slice_of_def)
  then show ?thesis
    using tcp6 len decode_v2_block_TCP6 [OF len, of ?p ?q]
      decode_v2_header [of "a @ b @ [ucast (drop_bit 8 ?p), ucast ?p, ucast (drop_bit 8 ?q), ucast ?q]"
        0 "0x24" "0x21" rest]
    by (simp add: pp_meaning_def)
next
  case unspec
  then show ?thesis using decode_v2_header [of "[]" 0 0 0 rest] by (simp add: decode_v2_block_def)
qed

section \<open>The text form\<close>

lemma CR_byte: "char_of (13 :: nat) = CHR 0x0D"
  by (simp add: char_of_eq_iff take_bit_eq_mod)

lemma decode_v1_line:
  assumes "CHR 0x0D \<notin> set line"
  shows "decode_v1 (str_bytes (line @ CRLF) @ rest)
       = map_option (\<lambda>i. (i, rest)) (v1_fields (Split CHR '' '' line))"
proof -
  have bytes: "str_bytes (line @ CRLF) @ rest = str_bytes line @ 0x0D # 0x0A # rest"
    by (simp add: CRLF_def str_bytes_def)
  have "\<forall>b \<in> set (str_bytes line). b \<noteq> 0x0D"
    using assms by (auto simp: str_bytes_mem CR_byte)
  then have tw: "takeWhile (\<lambda>b. b \<noteq> 0x0D) (str_bytes line @ 0x0D # 0x0A # rest) = str_bytes line"
    by (simp add: takeWhile_append)
  show ?thesis unfolding bytes decode_v1_def tw by simp
qed

definition v1_body :: "string \<Rightarrow> string \<Rightarrow> string \<Rightarrow> int \<Rightarrow> int \<Rightarrow> string" where
  "v1_body fam s d sp dp = Join '' '' [''PROXY'', fam, s, d, itoa_int sp, itoa_int dp]"

lemma v1_line_body: "v1_line fam s d sp dp = v1_body fam s d sp dp @ CRLF"
  by (simp add: v1_line_def v1_body_def)

lemma itoa_int_nat: "0 \<le> p \<Longrightarrow> itoa_int p = itoa (nat p)"
  by (simp add: itoa_int_def)

lemma port16_itoa: "0 \<le> p \<Longrightarrow> p < 65536 \<Longrightarrow> port16 (itoa_int p) = Some (word_of_int p)"
  by (simp add: port16_def itoa_int_nat nat_less_iff)

lemma v1_body_decode:
  assumes "fam = ''TCP4'' \<or> fam = ''TCP6''"
    and "\<And>c. c \<in> set s \<union> set d \<Longrightarrow> addr_char c"
    and "0 \<le> sp" "sp < 65536" "0 \<le> dp" "dp < 65536"
  shows "decode_v1 (str_bytes (v1_line fam s d sp dp) @ rest)
       = map_option (\<lambda>i. (i, rest)) (v1_fields [''PROXY'', fam, s, d, itoa_int sp, itoa_int dp])"
proof -
  have nosep: "CHR '' '' \<notin> set f" "CHR 0x0D \<notin> set f"
    if "f \<in> set [''PROXY'', fam, s, d, itoa_int sp, itoa_int dp]" for f
    using that assms addr_char_not_sep itoa_no_sep by (auto simp: itoa_int_nat)
  have "Split CHR '' '' (v1_body fam s d sp dp) = [''PROXY'', fam, s, d, itoa_int sp, itoa_int dp]"
    unfolding v1_body_def by (rule Split_Join) (use nosep in auto)
  moreover have "CHR 0x0D \<notin> set (v1_body fam s d sp dp)"
    using nosep set_Join [of "'' ''" "[''PROXY'', fam, s, d, itoa_int sp, itoa_int dp]"]
    unfolding v1_body_def by fastforce
  ultimately show ?thesis unfolding v1_line_body by (subst decode_v1_line) simp_all
qed

lemma ip_string_4: "length a = 4 \<Longrightarrow> ip_string a = ipv4_string a"
  by (auto simp: ip_string_def To4_def valid_ip_def)

lemma ip_string_6: "To4 a = None \<Longrightarrow> length a = 16 \<Longrightarrow> ip_string a = ipv6_string a"
  by (auto simp: ip_string_def valid_ip_def)

lemma endpoint_okD:
  assumes "endpoint_ok x" "tcpAddr x = Some (a, p)"
  shows "valid_ip a" "0 \<le> p" "p < 65536"
  using assms by (auto simp: endpoint_ok_def)

lemma v1_receiver:
  assumes ok: "endpoint_ok src" "endpoint_ok dst"
  shows "decode_v1 (proxyHeaderV1 src dst @ rest) = Some (pp_meaning src dst, rest)"
proof (cases src dst rule: proxyHeaderV2_cases)
  case (tcp4 a p b q a4 b4)
  note okd = endpoint_okD [OF ok(1) tcp4(1)] endpoint_okD [OF ok(2) tcp4(2)]
  have len: "length a4 = 4" "length b4 = 4" using tcp4 To4_length by blast+
  have "decode_v1 (str_bytes (v1_line ''TCP4'' (ipv4_string a4) (ipv4_string b4) p q) @ rest)
      = Some (PP_TCP4 a4 b4 (word_of_int p) (word_of_int q), rest)"
    using okd len by (subst v1_body_decode)
      (auto simp: v1_fields_def port16_itoa parse_ipv4_string dest: ipv4_string_chars)
  then show ?thesis
    using tcp4 len by (simp add: proxyHeaderV1_def pp_meaning_def ip_string_4)
next
  case (tcp6 a p b q)
  note okd = endpoint_okD [OF ok(1) tcp6(1)] endpoint_okD [OF ok(2) tcp6(2)]
  have len: "length a = 16" "length b = 16" using tcp6 okd To4_None_length by blast+
  have "decode_v1 (str_bytes (v1_line ''TCP6'' (ipv6_string a) (ipv6_string b) p q) @ rest)
      = Some (PP_TCP6 a b (word_of_int p) (word_of_int q), rest)"
    using okd len by (subst v1_body_decode)
      (auto simp: v1_fields_def port16_itoa parse_ipv6_string dest: ipv6_string_chars)
  then show ?thesis
    using tcp6 len by (simp add: proxyHeaderV1_def pp_meaning_def ip_string_6)
next
  case unspec
  have "decode_v1 (str_bytes v1_unknown @ rest) = Some (PP_Unspec, rest)"
    unfolding v1_unknown_def by (subst decode_v1_line) (auto simp: v1_fields_def)
  with unspec show ?thesis by simp
qed

lemma v1_line_length:
  assumes "length fam = 4" "length s \<le> 39" "length d \<le> 39"
    and "0 \<le> sp" "sp < 65536" "0 \<le> dp" "dp < 65536"
  shows "length (v1_line fam s d sp dp) \<le> 107"
proof -
  have "length (itoa_int sp) \<le> 5" "length (itoa_int dp) \<le> 5"
    using assms by (auto simp: itoa_int_nat intro!: itoa_length)
  then show ?thesis using assms by (simp add: v1_line_def CRLF_def)
qed

lemma v1_length:
  assumes ok: "endpoint_ok src" "endpoint_ok dst"
  shows "length (proxyHeaderV1 src dst) \<le> 107"
proof (cases src dst rule: proxyHeaderV2_cases)
  case (tcp4 a p b q a4 b4)
  note okd = endpoint_okD [OF ok(1) tcp4(1)] endpoint_okD [OF ok(2) tcp4(2)]
  have len: "length a4 = 4" "length b4 = 4" using tcp4 To4_length by blast+
  from len ipv4_string_length [of a4] ipv4_string_length [of b4] okd tcp4 show ?thesis
    by (simp add: proxyHeaderV1_def ip_string_4 v1_line_length)
next
  case (tcp6 a p b q)
  note okd = endpoint_okD [OF ok(1) tcp6(1)] endpoint_okD [OF ok(2) tcp6(2)]
  have len: "length a = 16" "length b = 16" using tcp6 okd To4_None_length by blast+
  from len ipv6_string_length [of a] ipv6_string_length [of b] okd tcp6 show ?thesis
    by (simp add: proxyHeaderV1_def ip_string_6 v1_line_length)
next
  case unspec
  then show ?thesis by (simp add: v1_unknown_def CRLF_def)
qed

lemma v2_length:
  assumes "ip_ok src" "ip_ok dst"
  shows "length (proxyHeaderV2 src dst) \<in> {16, 28, 52}"
proof (cases src dst rule: proxyHeaderV2_cases)
  case (tcp4 a p b q a4 b4)
  with To4_length [of a] To4_length [of b] show ?thesis
    by (simp add: proxyHeaderV2_def v2Signature_def Let_def)
next
  case (tcp6 a p b q)
  then have "valid_ip a" "valid_ip b" using assms by (auto simp: ip_ok_def)
  with tcp6 To4_None_length [of a] To4_None_length [of b] show ?thesis
    by (simp add: proxyHeaderV2_def v2Signature_def Let_def To16_valid6 slice_of_def)
next
  case unspec
  then show ?thesis by (simp add: v2Signature_def)
qed

lemma proxyHeaderV1_not_Nil: "proxyHeaderV1 src dst \<noteq> []"
  by (cases src dst rule: proxyHeaderV2_cases) (simp_all add: proxyHeaderV1_def v1_line_def v1_unknown_def)

lemma proxyHeaderV2_not_Nil: "proxyHeaderV2 src dst \<noteq> []"
  by (cases src dst rule: proxyHeaderV2_cases)
    (simp_all add: proxyHeaderV2_def v2Signature_def AppendUint16_def Let_def)

section \<open>Properties\<close>

text \<open>
  C3. The binary PROXY header delivers the connection's endpoints. Whatever payload follows, a
  receiver of the v2 header built for two addresses with well-formed IPs learns exactly their
  meaning (the IPv4 pair, the IPv6 pair, or unspecified for unknown and mixed families, with the
  ports as 16-bit values) and finds the payload untouched behind the header.
\<close>

theorem proxyHeaderV2_roundtrip:
  assumes "ip_ok src" "ip_ok dst"
  shows "decode_v2 (proxyHeaderV2 src dst @ rest) = Some (pp_meaning src dst, rest)"
  by (rule v2_receiver [OF assms])

theorem proxyHeaderV2_roundtrip_witness:
  "decode_v2 (proxyHeaderV2 (TCPAddr [192, 0, 2, 7] 51000 '''') (TCPAddr [198, 51, 100, 1] 443 '''') @ [22, 3, 1])
   = Some (PP_TCP4 [192, 0, 2, 7] [198, 51, 100, 1] 51000 443, [22, 3, 1])"
proof -
  let ?s = "TCPAddr [192, 0, 2, 7] 51000 ''''" and ?d = "TCPAddr [198, 51, 100, 1] 443 ''''"
  have ok: "ip_ok ?s" "ip_ok ?d" by (simp_all add: ip_ok_def tcpAddr_def valid_ip_def)
  have "pp_meaning ?s ?d = PP_TCP4 [192, 0, 2, 7] [198, 51, 100, 1] 51000 443"
    by (simp add: pp_meaning_def tcpAddr_def To4_def)
  with proxyHeaderV2_roundtrip [OF ok, of "[22, 3, 1]"] show ?thesis by simp
qed

text \<open>
  C4. The text PROXY header delivers the same endpoints. For addresses as connections have them
  (IPs of 4 or 16 bytes, ports of 16 bits) the v1 line is read back as their meaning, IPv6
  addresses in their compressed form included, and the payload behind CR LF is untouched.
\<close>

theorem proxyHeaderV1_roundtrip:
  assumes "endpoint_ok src" "endpoint_ok dst"
  shows "decode_v1 (proxyHeaderV1 src dst @ rest) = Some (pp_meaning src dst, rest)"
  by (rule v1_receiver [OF assms])

theorem proxyHeaderV1_roundtrip_witness:
  "decode_v1 (proxyHeaderV1 (TCPAddr [0x20, 1, 0xd, 0xb8, 0, 0, 0, 0, 0, 0, 0, 0, 0, 0, 0, 1] 4000 '''')
                            (TCPAddr (replicate 15 0 @ [1]) 443 '''') @ [71])
   = Some (PP_TCP6 [0x20, 1, 0xd, 0xb8, 0, 0, 0, 0, 0, 0, 0, 0, 0, 0, 0, 1] (replicate 15 0 @ [1]) 4000 443, [71])"
proof -
  let ?a = "[0x20, 1, 0xd, 0xb8, 0, 0, 0, 0, 0, 0, 0, 0, 0, 0, 0, 1] :: bytes"
  let ?b = "replicate 15 0 @ [1] :: bytes"
  let ?s = "TCPAddr ?a 4000 ''''" and ?d = "TCPAddr ?b 443 ''''"
  have ok: "endpoint_ok ?s" "endpoint_ok ?d"
    by (simp_all add: endpoint_ok_def tcpAddr_def valid_ip_def)
  have "take 12 ?a \<noteq> v4InV6Prefix" "take 12 ?b \<noteq> v4InV6Prefix"
    by code_simp+
  then have "pp_meaning ?s ?d = PP_TCP6 ?a ?b 4000 443"
    by (simp add: pp_meaning_def tcpAddr_def To4_def)
  with proxyHeaderV1_roundtrip [OF ok, of "[71]"] show ?thesis by simp
qed

text \<open>
  the sizes the protocol allows. A v1 line, CR LF included, never exceeds the 107 bytes a v1
  receiver has to buffer; a v2 header is 16, 28 or 52 bytes, within the capacity of 16 + 36 the
  builder reserves.
\<close>

theorem ProxyHeader_size:
  assumes "endpoint_ok src" "endpoint_ok dst"
  shows "length (proxyHeaderV1 src dst) \<le> 107 \<and> length (proxyHeaderV2 src dst) \<in> {16, 28, 52}"
proof -
  have "ip_ok src" "ip_ok dst" using assms by (auto simp: endpoint_ok_def ip_ok_def split: option.splits)
  with v1_length [OF assms] v2_length show ?thesis by blast
qed

theorem ProxyHeader_size_witness:
  "length (proxyHeaderV1 (TCPAddr [192, 0, 2, 7] 51000 '''') (OtherAddr ''pipe'')) \<le> 107 \<and>
   length (proxyHeaderV2 (TCPAddr [192, 0, 2, 7] 51000 '''') (OtherAddr ''pipe'')) \<in> {16, 28, 52}"
proof -
  have "tcpAddr (OtherAddr ''pipe'') = None"
    by (simp add: tcpAddr_def SplitHostPort_def last_index_of_def)
  then have "endpoint_ok (TCPAddr [192, 0, 2, 7] 51000 '''')" "endpoint_ok (OtherAddr ''pipe'')"
    by (simp_all add: endpoint_ok_def tcpAddr_def valid_ip_def)
  then show ?thesis by (rule ProxyHeader_size)
qed

text \<open>
  \<open>ProxyHeader\<close> fails exactly on a version other than the empty one, v1 and v2; with the empty
  version it builds no header, and otherwise the header is never empty, so \<open>Start\<close> always writes it.
\<close>

theorem ProxyHeader_versions:
  "(isl (ProxyHeader v src dst) \<longleftrightarrow> v \<notin> {'''', ''v1'', ''v2''})
   \<and> (ProxyHeader v src dst = Inr [] \<longleftrightarrow> v = '''')"
  by (simp add: ProxyHeader_def proxyHeaderV1_not_Nil proxyHeaderV2_not_Nil)

text \<open>
  a TCP address without an IP gets no well-formed v2 header, although the builder promises the
  UNSPEC form for what it cannot represent: the header announces 36 bytes of addresses and holds 4,
  so the receiver takes 32 bytes of the client's payload for addresses.
\<close>

theorem proxyHeaderV2_nil_ip_eats_payload:
  assumes "32 \<le> length rest"
  shows "\<exists>i. decode_v2 (proxyHeaderV2 (TCPAddr [] p z) (TCPAddr [] q z') @ rest) = Some (i, drop 32 rest)"
proof -
  let ?p = "word_of_int p :: u16" and ?q = "word_of_int q :: u16"
  let ?ports = "[ucast (drop_bit 8 ?p), ucast ?p, ucast (drop_bit 8 ?q), ucast ?q] :: bytes"
  have "proxyHeaderV2 (TCPAddr [] p z) (TCPAddr [] q z') @ rest
      = v2Signature @ [0x21] @ [0x21] @ [0x00, 0x24] @ (?ports @ take 32 rest) @ drop 32 rest"
    by (simp add: proxyHeaderV2_def tcpAddr_def To4_def To16_def slice_of_def AppendUint16_def Let_def)
  moreover have "length (?ports @ take 32 rest) = 36" using assms by simp
  ultimately show ?thesis
    using decode_v2_header [of "?ports @ take 32 rest" 0 "0x24" "0x21" "drop 32 rest"]
    by (simp add: decode_v2_block_def)
qed

theorem proxyHeaderV2_nil_ip_eats_payload_witness:
  "\<exists>i. decode_v2 (proxyHeaderV2 (TCPAddr [] 1 '''') (TCPAddr [] 2 '''') @ replicate 32 7 @ [1]) = Some (i, [1])"
  using proxyHeaderV2_nil_ip_eats_payload [of "replicate 32 7 @ [1]" 1 "''''" 2 "''''"] by simp

end
