(* ===== verification/Tcp_Start.thy ===== *)
theory Tcp_Start
  imports Tcp_Pipe Proxy_Proto
begin

text \<open>
  \<open>internal/proxy/tcp.go\<close>, \<open>TCPProxy.Start\<close>: one proxied connection from accept to close. The model
  gives the actions \<open>Start\<close> performs, in order, for the outcomes its environment supplies (the client
  handshake, the backend dial, the write of the PROXY header). Deferred calls are kept as the stack
  Go keeps: registered at the front, run from the front when the function returns. The phase in
  which \<open>Start\<close> waits for its goroutines is the action \<open>AwaitEnd\<close>; theory \<open>Tcp_Teardown\<close> refines it.
\<close>

record tcp_proxy =
  metricsEnabled :: bool
  serverTLS :: bool
  remoteTLS :: bool
  RemoteAddr :: string
  srcAddr :: net_addr
  dstAddr :: net_addr
  HandshakeTimeout :: int
  DialTimeout :: int
  hdrWriteTimeout :: int
  ProxyProto :: string

record start_env =
  handshake :: "io_err option"
  dial :: "io_err option"
  hdrWrite :: "bytes \<Rightarrow> io_err option"

datatype act =
    Metric metric_call
  | Handshake int
  | Dial bool string int
  | SetWriteDL int
  | WriteRemote bytes
  | ClearWriteDL
  | SpawnWatcher
  | SpawnPipes
  | AwaitEnd
  | Signal
  | CloseRemote
  | DialCancel
  | ConnCancel
  | CloseServer

definition second :: int where
  "second = 1000000000"

definition handshake_timeout :: "tcp_proxy \<Rightarrow> int" where
  "handshake_timeout p = (if HandshakeTimeout p \<le> 0 then 10 * second else HandshakeTimeout p)"

definition dial_timeout :: "tcp_proxy \<Rightarrow> int" where
  "dial_timeout p = (if DialTimeout p \<le> 0 then 30 * second else DialTimeout p)"

text \<open>\<open>TCPProxy.err\<close> called by \<open>Start\<close> itself, where \<open>CloseOnce\<close> has not fired yet.\<close>

definition err_acts :: "tcp_proxy \<Rightarrow> io_err \<Rightarrow> act list" where
  "err_acts p e =
     (if benign e then [] else map Metric (when_enabled (metricsEnabled p) [ErrorsTotal_Inc ''connection'']))
     @ [Signal]"

definition write_header :: "tcp_proxy \<Rightarrow> bytes \<Rightarrow> act list" where
  "write_header p hdr =
     (if 0 < hdrWriteTimeout p then [SetWriteDL (hdrWriteTimeout p)] else []) @ [WriteRemote hdr]"

definition Start :: "tcp_proxy \<Rightarrow> start_env \<Rightarrow> act list" where
  "Start p E =
     (let opening = map Metric (when_enabled (metricsEnabled p) [ConnectionsActive_Inc, ConnectionsTotal_Inc]);
          defers = map Metric (when_enabled (metricsEnabled p) [ConnectionsActive_Dec]);
          defers = CloseServer # defers;
          defers = ConnCancel # defers;
          shake = (if serverTLS p then [Handshake (handshake_timeout p)] else [])
      in
      if serverTLS p \<and> handshake E \<noteq> None then opening @ shake @ [Signal] @ defers
      else
        let defers = DialCancel # defers;
            dialed = opening @ shake @ [Dial (remoteTLS p) (RemoteAddr p) (dial_timeout p)]
        in case dial E of
             Some e \<Rightarrow> dialed @ err_acts p e @ defers
           | None \<Rightarrow>
               let defers = CloseRemote # defers;
                   serve = [SpawnWatcher, SpawnPipes, AwaitEnd]
               in if ProxyProto p = '''' then dialed @ serve @ defers
                  else
                    (case ProxyHeader (ProxyProto p) (srcAddr p) (dstAddr p) of
                       Inl _ \<Rightarrow> dialed @ err_acts p (OtherErr ''unknown proxy protocol version'') @ defers
                     | Inr hdr \<Rightarrow>
                         if hdr = [] then dialed @ serve @ defers
                         else
                           (case hdrWrite E hdr of
                              Some e \<Rightarrow> dialed @ write_header p hdr @ err_acts p e @ defers
                            | None \<Rightarrow>
                                dialed @ write_header p hdr
                                @ (if 0 < hdrWriteTimeout p then [ClearWriteDL] else [])
                                @ serve @ defers)))"

section \<open>Shapes of a run\<close>

lemma second_pos: "0 < second"
  by (simp add: second_def)

lemma count_map_Metric: "(\<And>m. a \<noteq> Metric m) \<Longrightarrow> count_list (map Metric ms) a = 0"
  by (induction ms) auto

lemma count_err_acts: "a \<noteq> Signal \<Longrightarrow> (\<And>m. a \<noteq> Metric m) \<Longrightarrow> count_list (err_acts p e) a = 0"
  by (simp add: err_acts_def count_map_Metric)

lemma set_err_acts: "a \<in> set (err_acts p e) \<Longrightarrow> a = Signal \<or> (\<exists>m. a = Metric m)"
  by (auto simp: err_acts_def split: if_splits)

lemma set_write_header: "a \<in> set (write_header p hdr) \<longleftrightarrow>
    a = WriteRemote hdr \<or> (0 < hdrWriteTimeout p \<and> a = SetWriteDL (hdrWriteTimeout p))"
  by (auto simp: write_header_def)

text \<open>The actions before the backend is dialed, and the deferred calls of a run that dialed.\<close>

definition start_prefix :: "tcp_proxy \<Rightarrow> act list" where
  "start_prefix p =
     map Metric (when_enabled (metricsEnabled p) [ConnectionsActive_Inc, ConnectionsTotal_Inc])
     @ (if serverTLS p then [Handshake (handshake_timeout p)] else [])"

definition start_defers :: "tcp_proxy \<Rightarrow> act list" where
  "start_defers p = [ConnCancel, CloseServer] @ map Metric (when_enabled (metricsEnabled p) [ConnectionsActive_Dec])"

definition start_dial :: "tcp_proxy \<Rightarrow> act" where
  "start_dial p = Dial (remoteTLS p) (RemoteAddr p) (dial_timeout p)"

definition header_of :: "tcp_proxy \<Rightarrow> pp_error + bytes" where
  "header_of p = ProxyHeader (ProxyProto p) (srcAddr p) (dstAddr p)"

text \<open>Every run is one of five: refused handshake, failed dial, no header, failed header, served.\<close>

lemma Start_cases:
  obtains (handshake) "serverTLS p" "handshake E \<noteq> None"
      "Start p E = start_prefix p @ [Signal] @ start_defers p"
  | (dial) e where "serverTLS p \<longrightarrow> handshake E = None" "dial E = Some e"
      "Start p E = start_prefix p @ [start_dial p] @ err_acts p e @ [DialCancel] @ start_defers p"
  | (version) e where "serverTLS p \<longrightarrow> handshake E = None" "dial E = None" "isl (header_of p)"
      "Start p E = start_prefix p @ [start_dial p] @ err_acts p e @ [CloseRemote, DialCancel] @ start_defers p"
  | (header) hdr e where "serverTLS p \<longrightarrow> handshake E = None" "dial E = None"
      "ProxyProto p \<noteq> ''''" "header_of p = Inr hdr" "hdr \<noteq> []" "hdrWrite E hdr = Some e"
      "Start p E = start_prefix p @ [start_dial p] @ write_header p hdr @ err_acts p e
                   @ [CloseRemote, DialCancel] @ start_defers p"
  | (served) hs where "serverTLS p \<longrightarrow> handshake E = None" "dial E = None"
      "hs = (if ProxyProto p = '''' then []
             else write_header p (projr (header_of p)) @ (if 0 < hdrWriteTimeout p then [ClearWriteDL] else []))"
      "ProxyProto p \<noteq> '''' \<Longrightarrow> header_of p = Inr (projr (header_of p)) \<and> projr (header_of p) \<noteq> []
             \<and> hdrWrite E (projr (header_of p)) = None"
      "Start p E = start_prefix p @ [start_dial p] @ hs @ [SpawnWatcher, SpawnPipes, AwaitEnd]
                   @ [CloseRemote, DialCancel] @ start_defers p"
proof (cases "serverTLS p \<and> handshake E \<noteq> None")
  case True
  then show ?thesis using handshake by (simp add: Start_def Let_def start_prefix_def start_defers_def)
next
  case False
  note defs = Start_def Let_def start_prefix_def start_defers_def start_dial_def header_of_def
  show ?thesis
  proof (cases "dial E")
    case (Some e)
    with False show ?thesis using dial [of e] by (auto simp: defs)
  next
    case None
    show ?thesis
    proof (cases "ProxyProto p = ''''")
      case True
      with False None show ?thesis using served [of "[]"] by (auto simp: defs)
    next
      case pp: False
      show ?thesis
      proof (cases "header_of p")
        case (Inl x)
        with False None pp show ?thesis
          using version [of "OtherErr ''unknown proxy protocol version''"] by (auto simp: defs)
      next
        case (Inr hdr)
        have ne: "hdr \<noteq> []" using Inr pp
          by (auto simp: header_of_def ProxyHeader_def proxyHeaderV1_not_Nil proxyHeaderV2_not_Nil split: if_splits)
        show ?thesis
        proof (cases "hdrWrite E hdr")
          case (Some e)
          with False None pp Inr ne show ?thesis using header [of hdr e] by (auto simp: defs)
        next
          case hw: None
          with False None pp Inr ne show ?thesis
            using served [of "write_header p hdr @ (if 0 < hdrWriteTimeout p then [ClearWriteDL] else [])"]
            by (auto simp: defs)
        qed
      qed
    qed
  qed
qed

lemma start_prefix_mem: "a \<in> set (start_prefix p) \<Longrightarrow>
    (\<exists>m. a = Metric m) \<or> (serverTLS p \<and> a = Handshake (handshake_timeout p))"
  by (auto simp: start_prefix_def split: if_splits)

lemma start_defers_mem: "a \<in> set (start_defers p) \<Longrightarrow> (\<exists>m. a = Metric m) \<or> a = ConnCancel \<or> a = CloseServer"
  by (auto simp: start_defers_def)

lemmas start_mem = start_prefix_mem start_defers_mem set_err_acts

lemma Start_counts:
  "count_list (start_prefix p) CloseServer = 0" "count_list (start_defers p) CloseServer = 1"
  "count_list (start_prefix p) CloseRemote = 0" "count_list (start_defers p) CloseRemote = 0"
  "count_list (start_prefix p) ConnCancel = 0" "count_list (start_defers p) ConnCancel = 1"
  "count_list (err_acts p e) CloseServer = 0" "count_list (err_acts p e) CloseRemote = 0"
  "count_list (err_acts p e) ConnCancel = 0"
  "count_list (write_header p h) CloseServer = 0" "count_list (write_header p h) CloseRemote = 0"
  "count_list (write_header p h) ConnCancel = 0"
  by (simp_all add: start_prefix_def start_defers_def count_map_Metric count_err_acts write_header_def)

lemma Start_metric_counts:
  "count_list (start_prefix p) (Metric ConnectionsActive_Inc) = of_bool (metricsEnabled p)"
  "count_list (start_prefix p) (Metric ConnectionsActive_Dec) = 0"
  "count_list (start_defers p) (Metric ConnectionsActive_Inc) = 0"
  "count_list (start_defers p) (Metric ConnectionsActive_Dec) = of_bool (metricsEnabled p)"
  "count_list (err_acts p e) (Metric ConnectionsActive_Inc) = 0"
  "count_list (err_acts p e) (Metric ConnectionsActive_Dec) = 0"
  "count_list (write_header p h) (Metric m) = 0"
  by (cases "metricsEnabled p"; simp add: start_prefix_def start_defers_def err_acts_def write_header_def)+

lemma split_after_prefix:
  "P @ R = xs @ d # ys \<Longrightarrow> d \<notin> set P \<Longrightarrow> \<exists>zs. xs = P @ zs \<and> R = zs @ d # ys"
  by (auto simp: append_eq_append_conv2 append_eq_Cons_conv)

lemma Start_prefix: "\<exists>R. Start p E = start_prefix p @ R"
  by (cases rule: Start_cases [where p = p and E = E]) auto

lemma Start_refused_mem:
  assumes "serverTLS p" "handshake E \<noteq> None" "a \<in> set (Start p E)"
  shows "(\<exists>m. a = Metric m) \<or> a = Handshake (handshake_timeout p) \<or> a \<in> {Signal, ConnCancel, CloseServer}"
  using assms start_mem by (cases rule: Start_cases [where p = p and E = E]) fastforce+

section \<open>Properties\<close>

text \<open>A proxy with TLS on both sides and a v1 header, for the witnesses.\<close>

definition demo_proxy :: tcp_proxy where
  "demo_proxy = \<lparr>metricsEnabled = True, serverTLS = True, remoteTLS = True, RemoteAddr = ''10.0.0.2:443'',
     srcAddr = TCPAddr [192, 0, 2, 7] 51000 '''', dstAddr = TCPAddr [198, 51, 100, 1] 443 '''',
     HandshakeTimeout = 0, DialTimeout = 0, hdrWriteTimeout = 5, ProxyProto = ''v1''\<rparr>"

definition demo_up :: start_env where
  "demo_up = \<lparr>handshake = None, dial = None, hdrWrite = (\<lambda>_. None)\<rparr>"

lemma demo_up_starts: "SpawnPipes \<in> set (Start demo_proxy demo_up)"
proof (cases rule: Start_cases [where p = demo_proxy and E = demo_up])
  case (version e)
  then show ?thesis by (simp add: header_of_def demo_proxy_def ProxyHeader_def)
qed (simp_all add: demo_up_def)

text \<open>
  C14. No backend connection for a client that does not complete its TLS handshake. On a TLS
  listener the backend is dialed only after a successful handshake; a failed one leads to no dial, no
  write and no pipes, to the error signal, and to the client connection being closed.
\<close>

theorem Start_handshake_gate:
  assumes "serverTLS p"
  shows "(\<forall>xs t a d ys. Start p E = xs @ Dial t a d # ys \<longrightarrow>
            handshake E = None \<and> Handshake (handshake_timeout p) \<in> set xs)
    \<and> (handshake E \<noteq> None \<longrightarrow>
         (\<forall>a \<in> set (Start p E). \<not> (\<exists>t r d. a = Dial t r d) \<and> \<not> (\<exists>b. a = WriteRemote b) \<and> a \<noteq> SpawnPipes)
         \<and> Signal \<in> set (Start p E) \<and> CloseServer \<in> set (Start p E))"
proof (intro conjI allI impI)
  fix xs t a d ys assume run: "Start p E = xs @ Dial t a d # ys"
  show "handshake E = None"
  proof (rule ccontr)
    assume "handshake E \<noteq> None"
    from Start_refused_mem [OF assms this, of "Dial t a d"] run show False by simp
  qed
  obtain R where "Start p E = start_prefix p @ R" using Start_prefix by blast
  moreover have "Dial t a d \<notin> set (start_prefix p)" by (auto dest: start_prefix_mem)
  ultimately obtain zs where "xs = start_prefix p @ zs" using run split_after_prefix by metis
  then show "Handshake (handshake_timeout p) \<in> set xs" using assms by (simp add: start_prefix_def)
next
  assume "handshake E \<noteq> None"
  note refused = Start_refused_mem [OF assms this]
  show "\<forall>a \<in> set (Start p E). \<not> (\<exists>t r d. a = Dial t r d) \<and> \<not> (\<exists>b. a = WriteRemote b) \<and> a \<noteq> SpawnPipes"
    using refused by fastforce
  show "Signal \<in> set (Start p E)" "CloseServer \<in> set (Start p E)"
    using \<open>handshake E \<noteq> None\<close> assms
    by (cases rule: Start_cases [where p = p and E = E]; simp add: start_defers_def)+
qed

theorem Start_handshake_gate_witness:
  "let tr = Start demo_proxy (demo_up\<lparr>handshake := Some TimeoutErr\<rparr>) in
   SpawnPipes \<notin> set tr \<and> Signal \<in> set tr \<and> CloseServer \<in> set tr"
proof -
  have "serverTLS demo_proxy" by (simp add: demo_proxy_def)
  from Start_handshake_gate [OF this, of "demo_up\<lparr>handshake := Some TimeoutErr\<rparr>"]
  show ?thesis by (auto simp: Let_def)
qed

text \<open>
  C22. Nothing is left open. On every path, whatever fails, \<open>Start\<close> closes the client connection
  exactly once and cancels the connection context exactly once; it closes the backend connection
  exactly once if the dial succeeded and not at all otherwise; and the gauge of active connections
  is decremented as often as it was incremented.
\<close>

theorem Start_releases:
  "count_list (Start p E) CloseServer = 1
   \<and> count_list (Start p E) ConnCancel = 1
   \<and> count_list (Start p E) CloseRemote
       = (if serverTLS p \<and> handshake E \<noteq> None then 0 else if dial E = None then 1 else 0)
   \<and> count_list (Start p E) (Metric ConnectionsActive_Inc) = count_list (Start p E) (Metric ConnectionsActive_Dec)"
  by (cases rule: Start_cases [where p = p and E = E])
    (auto simp: Start_counts Start_metric_counts start_dial_def)

text \<open>
  C21. The PROXY header comes first. When a PROXY protocol version is configured and the pipes are
  started, the backend has been sent exactly one piece of data before them, the header describing
  the client's address and the listener's address; when the header cannot be built or written, no
  pipe is started.
\<close>

theorem Start_header_first:
  assumes "ProxyProto p \<noteq> ''''" "SpawnPipes \<in> set (Start p E)"
  shows "\<exists>hdr xs ys. ProxyHeader (ProxyProto p) (srcAddr p) (dstAddr p) = Inr hdr \<and> hdrWrite E hdr = None
    \<and> Start p E = xs @ WriteRemote hdr # ys \<and> SpawnPipes \<notin> set xs
    \<and> (\<forall>b. WriteRemote b \<notin> set xs \<and> WriteRemote b \<notin> set ys)"
proof (cases rule: Start_cases [where p = p and E = E])
  case (served hs)
  define hdr where "hdr = projr (header_of p)"
  have hdr: "header_of p = Inr hdr" "hdrWrite E hdr = None" using served(4) assms(1) by (simp_all add: hdr_def)
  define xs where "xs = start_prefix p @ [start_dial p]
      @ (if 0 < hdrWriteTimeout p then [SetWriteDL (hdrWriteTimeout p)] else [])"
  define ys where "ys = (if 0 < hdrWriteTimeout p then [ClearWriteDL] else [])
      @ [SpawnWatcher, SpawnPipes, AwaitEnd] @ [CloseRemote, DialCancel] @ start_defers p"
  have "Start p E = xs @ WriteRemote hdr # ys"
    using served(3,5) assms(1) by (simp add: xs_def ys_def hdr_def write_header_def)
  moreover have "SpawnPipes \<notin> set xs" "WriteRemote b \<notin> set xs" "WriteRemote b \<notin> set ys" for b
    by (auto simp: xs_def ys_def start_dial_def dest!: start_mem)
  ultimately show ?thesis using hdr unfolding header_of_def by blast
qed (use assms in \<open>auto simp: set_write_header start_dial_def dest!: start_mem\<close>)

theorem Start_header_first_witness:
  "\<exists>hdr xs ys. ProxyHeader ''v1'' (srcAddr demo_proxy) (dstAddr demo_proxy) = Inr hdr
    \<and> Start demo_proxy demo_up = xs @ WriteRemote hdr # ys \<and> SpawnPipes \<notin> set xs"
proof -
  have "ProxyProto demo_proxy = ''v1''" by (simp add: demo_proxy_def)
  with Start_header_first [OF _ demo_up_starts] show ?thesis by fastforce
qed

text \<open>
  the handshake and the dial are always bounded: the handshake timeout is the configured
  positive value or 10 seconds, the dial timeout the configured positive value or 30 seconds.
\<close>

theorem Start_timeouts_bounded:
  assumes "a \<in> set (Start p E)"
  shows "(\<forall>t. a = Handshake t \<longrightarrow> 0 < t \<and> (0 < HandshakeTimeout p \<longrightarrow> t = HandshakeTimeout p)
              \<and> (HandshakeTimeout p \<le> 0 \<longrightarrow> t = 10 * second))
       \<and> (\<forall>s r t. a = Dial s r t \<longrightarrow> 0 < t \<and> s = remoteTLS p \<and> r = RemoteAddr p
              \<and> (0 < DialTimeout p \<longrightarrow> t = DialTimeout p) \<and> (DialTimeout p \<le> 0 \<longrightarrow> t = 30 * second))"
  using assms second_pos
  by (cases rule: Start_cases [where p = p and E = E])
    (auto simp: set_write_header start_dial_def handshake_timeout_def dial_timeout_def
      dest!: start_mem split: if_splits)

theorem Start_timeouts_bounded_witness:
  "\<forall>t. Handshake t \<in> set (Start demo_proxy demo_up) \<longrightarrow> t = 10 * second"
  using Start_timeouts_bounded [of _ demo_proxy demo_up] by (auto simp: demo_proxy_def)

end
