(* ===== verification/Conn_Limit.thy ===== *)
theory Conn_Limit
  imports Transition
begin

text \<open>
  The connection limits (\<open>server.maxconns\<close>): the accept loop of the TCP mode in \<open>main.go\<close> with its
  semaphore, wait group and drain, the \<open>ConnState\<close> hook of the HTTP mode in \<open>main.go\<close>, and the hook of
  \<open>internal/loadtest/harness.go\<close>. A buffered channel of empty structs is its number of elements; a send
  in a \<open>select\<close> with a default succeeds exactly when there is room, and a plain receive needs an element.
  \<open>slot_limiter\<close> is what a client of the limit relies on; the two limiters of \<open>main.go\<close> implement it and
  the one of the load-test harness does not.
\<close>

locale slot_limiter = invariant_system init step inv
  for init :: "'s \<Rightarrow> bool" and step :: "'s \<Rightarrow> 's \<Rightarrow> bool" and inv :: "'s \<Rightarrow> bool" +
  fixes cap :: nat and slots :: "'s \<Rightarrow> nat" and held :: "'s \<Rightarrow> nat"
  assumes slots_le: "inv s \<Longrightarrow> slots s \<le> cap"
    and held_slots: "inv s \<Longrightarrow> held s = slots s"
begin

lemma reach_held_le: "reach init step s \<Longrightarrow> held s \<le> cap"
  using reach_inv slots_le held_slots by metis

text \<open>A holder can always give its slot back: the receive finds an element.\<close>

lemma release_ready: "reach init step s \<Longrightarrow> 0 < held s \<Longrightarrow> 0 < slots s"
  using reach_inv held_slots by metis

text \<open>A full semaphore means that the limit is really used up.\<close>

lemma full_used: "reach init step s \<Longrightarrow> \<not> slots s < cap \<Longrightarrow> held s = cap"
  using reach_inv slots_le held_slots by (metis le_neq_implies_less)

end

text \<open>\<open>make(chan struct{}, maxConns)\<close> under its guard; \<open>None\<close> is the nil channel of an unlimited server.\<close>

definition make_sem :: "int \<Rightarrow> nat option" where
  "make_sem maxConns = (if maxConns > 0 then Some (nat maxConns) else None)"

section \<open>The TCP accept loop\<close>

text \<open>
  \<open>proxying\<close> are the identifiers of the connections whose goroutine is inside \<open>Start\<close>, \<open>leaving\<close> of those
  that have released their slot and not yet called \<open>wg.Done\<close>.
\<close>

record accept_state =
  semLen :: nat
  connID :: nat
  proxying :: "nat list"
  leaving :: "nat list"
  wgCount :: nat
  rejected :: nat
  rootErr :: bool
  loopDone :: bool

definition accept_start :: accept_state where
  "accept_start = \<lparr>semLen = 0, connID = 0, proxying = [], leaving = [], wgCount = 0, rejected = 0,
     rootErr = False, loopDone = False\<rparr>"

datatype accept_event = AcceptConn | AcceptErr

definition serve_conn :: "accept_state \<Rightarrow> accept_state" where
  "serve_conn s = s\<lparr>connID := connID s + 1, wgCount := wgCount s + 1, proxying := (connID s + 1) # proxying s\<rparr>"

fun accept_turn :: "nat option \<Rightarrow> accept_event \<Rightarrow> accept_state \<Rightarrow> accept_state" where
  "accept_turn sem AcceptErr s = (if rootErr s then s\<lparr>loopDone := True\<rparr> else s)"
| "accept_turn None AcceptConn s = serve_conn s"
| "accept_turn (Some maxConns) AcceptConn s =
     (if semLen s < maxConns then serve_conn (s\<lparr>semLen := semLen s + 1\<rparr>)
      else s\<lparr>rejected := rejected s + 1\<rparr>)"

text \<open>
  The deferred receive of a goroutine; \<open>None\<close> when it would block. Then its \<open>wg.Done\<close>; \<open>None\<close> when the
  counter would become negative, on which \<open>sync.WaitGroup\<close> panics.
\<close>

fun release_slot :: "nat option \<Rightarrow> nat \<Rightarrow> accept_state \<Rightarrow> accept_state option" where
  "release_slot None i s = Some (s\<lparr>proxying := remove1 i (proxying s), leaving := i # leaving s\<rparr>)"
| "release_slot (Some maxConns) i s =
     (if 0 < semLen s
      then Some (s\<lparr>semLen := semLen s - 1, proxying := remove1 i (proxying s), leaving := i # leaving s\<rparr>)
      else None)"

definition wg_done :: "nat \<Rightarrow> accept_state \<Rightarrow> accept_state option" where
  "wg_done i s =
     (if wgCount s = 0 then None else Some (s\<lparr>wgCount := wgCount s - 1, leaving := remove1 i (leaving s)\<rparr>))"

text \<open>
  The goroutines' own moves once \<open>Start\<close> has returned, and all moves: the loop's turns, and the
  cancellation of the root context.
\<close>

inductive drain_step :: "nat option \<Rightarrow> accept_state \<Rightarrow> accept_state \<Rightarrow> bool" for sem where
  drain_release: "i \<in> set (proxying s) \<Longrightarrow> release_slot sem i s = Some t \<Longrightarrow> drain_step sem s t"
| drain_wg: "i \<in> set (leaving s) \<Longrightarrow> wg_done i s = Some t \<Longrightarrow> drain_step sem s t"

inductive accept_step :: "nat option \<Rightarrow> accept_state \<Rightarrow> accept_state \<Rightarrow> bool" for sem where
  loop_turn: "\<not> loopDone s \<Longrightarrow> accept_step sem s (accept_turn sem ev s)"
| handler_move: "drain_step sem s t \<Longrightarrow> accept_step sem s t"
| root_cancelled: "\<not> rootErr s \<Longrightarrow> accept_step sem s (s\<lparr>rootErr := True\<rparr>)"

fun sem_inv :: "nat option \<Rightarrow> accept_state \<Rightarrow> bool" where
  "sem_inv None s \<longleftrightarrow> semLen s = 0"
| "sem_inv (Some maxConns) s \<longleftrightarrow> semLen s = length (proxying s) \<and> semLen s \<le> maxConns"

definition ids_inv :: "accept_state \<Rightarrow> bool" where
  "ids_inv s \<longleftrightarrow>
     distinct (proxying s @ leaving s) \<and> (\<forall>i \<in> set (proxying s) \<union> set (leaving s). 0 < i \<and> i \<le> connID s)"

definition accept_inv :: "nat option \<Rightarrow> accept_state \<Rightarrow> bool" where
  "accept_inv sem s \<longleftrightarrow>
     sem_inv sem s \<and> ids_inv s \<and> wgCount s = length (proxying s) + length (leaving s) \<and> (loopDone s \<longrightarrow> rootErr s)"

lemma accept_start_inv: "accept_inv sem accept_start"
  by (cases sem) (simp_all add: accept_inv_def accept_start_def ids_inv_def)

lemma serve_conn_ids: "ids_inv s \<Longrightarrow> ids_inv (serve_conn s)"
  by (auto simp: ids_inv_def serve_conn_def le_Suc_eq dest!: bspec [of _ _ "Suc (connID s)"])

lemma ids_inv_semLen [simp]: "ids_inv (s\<lparr>semLen := n\<rparr>) = ids_inv s" "ids_inv (s\<lparr>rejected := n\<rparr>) = ids_inv s"
  "ids_inv (s\<lparr>rootErr := b\<rparr>) = ids_inv s" "ids_inv (s\<lparr>loopDone := b\<rparr>) = ids_inv s"
  "ids_inv (s\<lparr>wgCount := n\<rparr>) = ids_inv s"
  by (simp_all add: ids_inv_def)

lemma accept_turn_inv:
  assumes "accept_inv sem s"
  shows "accept_inv sem (accept_turn sem ev s)"
proof (cases ev)
  case AcceptErr
  with assms show ?thesis by (cases sem) (auto simp: accept_inv_def)
next
  case AcceptConn
  with assms serve_conn_ids [of s] serve_conn_ids [of "s\<lparr>semLen := semLen s + 1\<rparr>"] show ?thesis
    by (cases sem) (auto simp: accept_inv_def serve_conn_def)
qed

lemma leave_ids:
  "ids_inv s \<Longrightarrow> i \<in> set (proxying s) \<Longrightarrow>
     ids_inv (s\<lparr>proxying := remove1 i (proxying s), leaving := i # leaving s\<rparr>)"
  by (auto simp: ids_inv_def)

lemma release_slot_inv:
  assumes "accept_inv sem s" "i \<in> set (proxying s)" "release_slot sem i s = Some t"
  shows "accept_inv sem t"
proof -
  have "0 < length (proxying s)" using assms(2) by (cases "proxying s") auto
  with assms leave_ids [of s i] leave_ids [of "s\<lparr>semLen := semLen s - 1\<rparr>" i] show ?thesis
    by (cases sem) (auto simp: accept_inv_def length_remove1 split: if_splits)
qed

lemma wg_done_ready:
  assumes "accept_inv sem s" "i \<in> set (leaving s)"
  shows "wg_done i s = Some (s\<lparr>wgCount := wgCount s - 1, leaving := remove1 i (leaving s)\<rparr>)"
  using assms by (auto simp: accept_inv_def wg_done_def)

lemma wg_done_inv:
  assumes "accept_inv sem s" "i \<in> set (leaving s)" "wg_done i s = Some t"
  shows "accept_inv sem t"
proof -
  have "length (leaving s) = Suc (length (remove1 i (leaving s)))"
    using assms(2) length_pos_if_in_set [of i "leaving s"] by (simp add: length_remove1)
  moreover have "ids_inv (s\<lparr>leaving := remove1 i (leaving s)\<rparr>)"
    using assms by (auto simp: accept_inv_def ids_inv_def)
  ultimately show ?thesis using assms wg_done_ready [OF assms(1,2)]
    by (cases sem) (auto simp: accept_inv_def ids_inv_def)
qed

lemma drain_step_inv: "drain_step sem s t \<Longrightarrow> accept_inv sem s \<Longrightarrow> accept_inv sem t"
  by (auto elim!: drain_step.cases intro: release_slot_inv wg_done_inv)

lemma root_cancelled_inv: "accept_inv sem s \<Longrightarrow> accept_inv sem (s\<lparr>rootErr := True\<rparr>)"
  by (cases sem) (auto simp: accept_inv_def)

lemma accept_step_inv: "accept_step sem s t \<Longrightarrow> accept_inv sem s \<Longrightarrow> accept_inv sem t"
  by (auto elim!: accept_step.cases intro: accept_turn_inv drain_step_inv root_cancelled_inv)

interpretation tcp_accept: invariant_system "\<lambda>s. s = accept_start" "accept_step sem" "accept_inv sem" for sem
  by unfold_locales (auto intro: accept_start_inv accept_step_inv)

interpretation tcp_limit: slot_limiter "\<lambda>s. s = accept_start" "accept_step (Some m)" "accept_inv (Some m)"
    m semLen "\<lambda>s. length (proxying s)" for m
  by unfold_locales (auto simp: accept_inv_def)

text \<open>The goroutines of a stopped loop drain: each move brings one of them closer to its end.\<close>

definition drain_rank :: "accept_state \<Rightarrow> nat" where
  "drain_rank s = 2 * length (proxying s) + length (leaving s)"

lemma drain_step_rank:
  assumes "drain_step sem s t"
  shows "drain_rank t < drain_rank s"
  using assms
proof cases
  case (drain_release i)
  then have "length (proxying s) = Suc (length (remove1 i (proxying s)))"
    using length_pos_if_in_set [of i "proxying s"] by (simp add: length_remove1)
  with drain_release show ?thesis by (cases sem) (auto simp: drain_rank_def split: if_splits)
next
  case (drain_wg i)
  then have "length (leaving s) = Suc (length (remove1 i (leaving s)))"
    using length_pos_if_in_set [of i "leaving s"] by (simp add: length_remove1)
  with drain_wg show ?thesis by (auto simp: drain_rank_def wg_done_def split: if_splits)
qed

lemma release_slot_ready:
  assumes "accept_inv sem s" "i \<in> set (proxying s)"
  shows "\<exists>t. release_slot sem i s = Some t"
  using assms length_pos_if_in_set [of i "proxying s"] by (cases sem) (auto simp: accept_inv_def)

lemma drain_not_stuck:
  assumes "accept_inv sem s" "wgCount s \<noteq> 0"
  shows "\<exists>t. drain_step sem s t"
proof -
  from assms have "proxying s \<noteq> [] \<or> leaving s \<noteq> []" by (auto simp: accept_inv_def)
  then consider i where "i \<in> set (proxying s)" | i where "i \<in> set (leaving s)"
    by (metis last_in_set)
  then show ?thesis using release_slot_ready [OF assms(1)] wg_done_ready [OF assms(1)]
    by cases (blast intro: drain_step.intros)+
qed

interpretation drain: progress_system "drain_step sem" "accept_inv sem" "\<lambda>s. wgCount s = 0" drain_rank for sem
  by unfold_locales (auto intro: drain_step_inv drain_step_rank drain_not_stuck)

datatype drain_case = AllDrained | DrainTimeout

definition drain_ready :: "accept_state \<Rightarrow> bool \<Rightarrow> drain_case list" where
  "drain_ready s timerFired = (if wgCount s = 0 then [AllDrained] else []) @ (if timerFired then [DrainTimeout] else [])"

text \<open>
  C11. The limit of the TCP mode, in every reachable state of the accept loop and its handler goroutines,
  for every value of \<open>server.maxconns\<close>: a positive value bounds the connections being proxied, and the slots
  in use are exactly theirs; the receive by which a handler returns its slot never blocks and frees
  exactly one slot; the handlers' identifiers are distinct; the wait group counts exactly the goroutines
  that have not finished, and its counter never becomes negative.
\<close>

theorem tcp_maxconns_respected:
  assumes "reach (\<lambda>s. s = accept_start) (accept_step (make_sem maxConns)) s"
  shows "(0 < maxConns \<longrightarrow> int (length (proxying s)) \<le> maxConns \<and> semLen s = length (proxying s))
    \<and> (\<forall>i \<in> set (proxying s). \<exists>t. release_slot (make_sem maxConns) i s = Some t
         \<and> proxying t = remove1 i (proxying s) \<and> leaving t = i # leaving s
         \<and> (0 < maxConns \<longrightarrow> semLen t + 1 = semLen s))
    \<and> (\<forall>i \<in> set (leaving s). \<exists>t. wg_done i s = Some t \<and> wgCount t + 1 = wgCount s)
    \<and> distinct (proxying s @ leaving s) \<and> wgCount s = length (proxying s @ leaving s)"
proof -
  have inv: "accept_inv (make_sem maxConns) s" using assms by (rule tcp_accept.reach_inv)
  have "0 < maxConns \<longrightarrow> int (length (proxying s)) \<le> maxConns \<and> semLen s = length (proxying s)"
    using tcp_limit.reach_held_le [of "nat maxConns" s] assms inv by (auto simp: make_sem_def accept_inv_def)
  moreover have "\<exists>t. release_slot (make_sem maxConns) i s = Some t \<and> proxying t = remove1 i (proxying s)
      \<and> leaving t = i # leaving s \<and> (0 < maxConns \<longrightarrow> semLen t + 1 = semLen s)"
    if "i \<in> set (proxying s)" for i
    using release_slot_ready [OF inv that] by (auto simp: make_sem_def split: if_splits)
  moreover have "\<exists>t. wg_done i s = Some t \<and> wgCount t + 1 = wgCount s" if "i \<in> set (leaving s)" for i
    using wg_done_ready [OF inv that] inv that by (cases "leaving s") (auto simp: accept_inv_def)
  ultimately show ?thesis using inv by (auto simp: accept_inv_def ids_inv_def)
qed

text \<open>A loop with the limit two and a third connection that arrives while two are being proxied.\<close>

definition two_conns :: accept_state where
  "two_conns = accept_turn (make_sem 2) AcceptConn (accept_turn (make_sem 2) AcceptConn accept_start)"

lemma two_conns_reachable: "reach (\<lambda>s. s = accept_start) (accept_step (make_sem 2)) two_conns"
proof -
  have "accept_step (make_sem 2) accept_start (accept_turn (make_sem 2) AcceptConn accept_start)"
    by (rule loop_turn) (simp add: accept_start_def)
  moreover have "accept_step (make_sem 2) (accept_turn (make_sem 2) AcceptConn accept_start) two_conns"
    unfolding two_conns_def by (rule loop_turn) (simp add: accept_start_def make_sem_def serve_conn_def)
  ultimately show ?thesis by (blast intro: reach_start reach_step)
qed

theorem tcp_maxconns_respected_witness:
  "proxying two_conns = [2, 1] \<and> semLen two_conns = 2 \<and> (\<exists>t. release_slot (make_sem 2) 1 two_conns = Some t \<and> semLen t = 1)"
proof -
  have "proxying two_conns = [2, 1]" by (simp add: two_conns_def accept_start_def make_sem_def serve_conn_def)
  with tcp_maxconns_respected [OF two_conns_reachable] show ?thesis by fastforce
qed

text \<open>
  A connection is refused only when the limit is used up, and otherwise it is served: with as many
  connections proxied as \<open>server.maxconns\<close> allows, an accepted connection changes nothing but the count
  of refusals; in every other reachable state it gets the next identifier and a handler of its own, and
  the handlers already running are untouched.
\<close>

theorem tcp_reject_iff_full:
  assumes "reach (\<lambda>s. s = accept_start) (accept_step (make_sem maxConns)) s"
  shows "if 0 < maxConns \<and> int (length (proxying s)) = maxConns
    then accept_turn (make_sem maxConns) AcceptConn s = s\<lparr>rejected := rejected s + 1\<rparr>
    else proxying (accept_turn (make_sem maxConns) AcceptConn s) = (connID s + 1) # proxying s
      \<and> connID s + 1 \<notin> set (proxying s @ leaving s)
      \<and> rejected (accept_turn (make_sem maxConns) AcceptConn s) = rejected s"
proof -
  have inv: "accept_inv (make_sem maxConns) s" using assms by (rule tcp_accept.reach_inv)
  then have "connID s + 1 \<notin> set (proxying s @ leaving s)"
    by (auto simp: accept_inv_def ids_inv_def dest!: bspec [of _ _ "Suc (connID s)"])
  moreover have "semLen s < nat maxConns \<longleftrightarrow> int (length (proxying s)) \<noteq> maxConns" if "0 < maxConns"
    using inv that by (auto simp: make_sem_def accept_inv_def)
  ultimately show ?thesis by (auto simp: make_sem_def serve_conn_def)
qed

theorem tcp_reject_iff_full_witness:
  "accept_turn (make_sem 2) AcceptConn two_conns = two_conns\<lparr>rejected := 1\<rparr>"
  using tcp_reject_iff_full [OF two_conns_reachable]
  by (simp add: two_conns_def accept_start_def make_sem_def serve_conn_def)

text \<open>
  C20. Shutdown drains: once the loop has stopped, the handlers whose \<open>Start\<close> returns finish in at most
  two moves each, in any interleaving; when no move is left, no connection is proxied, the wait group
  is at zero and the drain \<open>select\<close> has only the clean case ready unless its timer has fired. The loop
  stops only after the root context is cancelled.
\<close>

theorem tcp_drain_completes:
  assumes "reach (\<lambda>s. s = accept_start) (accept_step sem) s" and "loopDone s" and "(drain_step sem ^^ n) s t"
  shows "rootErr s \<and> n \<le> drain_rank s
    \<and> ((\<nexists>u. drain_step sem t u) \<longrightarrow> proxying t = [] \<and> leaving t = [] \<and> drain_ready t False = [AllDrained])"
proof -
  have inv: "accept_inv sem s" using assms(1) by (rule tcp_accept.reach_inv)
  have inv': "accept_inv sem t" using drain.good_steps [OF inv relpowp_imp_rtranclp [OF assms(3)]] .
  then have "(\<nexists>u. drain_step sem t u) \<longrightarrow> wgCount t = 0" using drain_not_stuck by blast
  with inv inv' assms(2) drain.run_bound [OF inv assms(3)] show ?thesis
    by (auto simp: accept_inv_def drain_ready_def)
qed

text \<open>A loop that stopped while one connection was being proxied, and the two moves of its handler.\<close>

definition stopped_loop :: accept_state where
  "stopped_loop = (serve_conn accept_start)\<lparr>rootErr := True, loopDone := True\<rparr>"

definition drained_loop :: accept_state where
  "drained_loop = stopped_loop\<lparr>proxying := [], wgCount := 0\<rparr>"

lemma stopped_loop_reachable: "reach (\<lambda>s. s = accept_start) (accept_step None) stopped_loop"
proof -
  have "accept_step None accept_start (serve_conn accept_start)"
    using loop_turn [of accept_start None AcceptConn] by (simp add: accept_start_def)
  moreover have "accept_step None (serve_conn accept_start) ((serve_conn accept_start)\<lparr>rootErr := True\<rparr>)"
    by (rule root_cancelled) (simp add: accept_start_def serve_conn_def)
  moreover have "accept_step None ((serve_conn accept_start)\<lparr>rootErr := True\<rparr>) stopped_loop"
    using loop_turn [of "(serve_conn accept_start)\<lparr>rootErr := True\<rparr>" None AcceptErr]
    by (simp add: accept_start_def serve_conn_def stopped_loop_def)
  ultimately show ?thesis by (blast intro: reach_start reach_step)
qed

lemmas stopped_simps = stopped_loop_def drained_loop_def accept_start_def serve_conn_def

lemma drained: "(drain_step None ^^ 2) stopped_loop drained_loop" "\<nexists>u. drain_step None drained_loop u"
proof -
  have "drain_step None stopped_loop (stopped_loop\<lparr>proxying := [], leaving := [1]\<rparr>)"
    by (rule drain_release [of 1]) (simp_all add: stopped_simps)
  moreover have "drain_step None (stopped_loop\<lparr>proxying := [], leaving := [1]\<rparr>) drained_loop"
    by (rule drain_wg [of 1]) (simp_all add: stopped_simps wg_done_def)
  ultimately show "(drain_step None ^^ 2) stopped_loop drained_loop" by (auto simp: numeral_2_eq_2)
  show "\<nexists>u. drain_step None drained_loop u"
    by (auto simp: stopped_simps elim!: drain_step.cases)
qed

theorem tcp_drain_completes_witness:
  "proxying stopped_loop = [1] \<and> rootErr stopped_loop \<and> proxying drained_loop = [] \<and> drain_ready drained_loop False = [AllDrained]"
  using tcp_drain_completes [OF stopped_loop_reachable _ drained(1)] drained(2)
  by (simp add: stopped_loop_def serve_conn_def accept_start_def)

section \<open>The ConnState hook of the HTTP mode\<close>

text \<open>
  \<open>acquired\<close> is the map of the code. The hook sends on the semaphore before it takes the mutex, so a
  connection can be between the two (\<open>taking\<close>). \<open>net/http\<close> calls the hook with \<open>StateNew\<close> once for a
  connection, before its goroutine starts, and at most once afterwards with \<open>StateClosed\<close> or
  \<open>StateHijacked\<close>; \<open>ended\<close> and \<open>refused\<close> record that order.
\<close>

record hook_state =
  hookSem :: nat
  taking :: "nat set"
  acquired :: "nat set"
  refused :: "nat set"
  ended :: "nat set"

definition hook_start :: hook_state where
  "hook_start = \<lparr>hookSem = 0, taking = {}, acquired = {}, refused = {}, ended = {}\<rparr>"

definition unseen :: "nat \<Rightarrow> hook_state \<Rightarrow> bool" where
  "unseen c s \<longleftrightarrow> c \<notin> taking s \<union> acquired s \<union> refused s \<union> ended s"

definition ConnState_new :: "nat \<Rightarrow> nat \<Rightarrow> hook_state \<Rightarrow> hook_state" where
  "ConnState_new maxConns c s =
     (if hookSem s < maxConns then s\<lparr>hookSem := hookSem s + 1, taking := insert c (taking s)\<rparr>
      else s\<lparr>refused := insert c (refused s)\<rparr>)"

definition ConnState_record :: "nat \<Rightarrow> hook_state \<Rightarrow> hook_state" where
  "ConnState_record c s = s\<lparr>taking := taking s - {c}, acquired := insert c (acquired s)\<rparr>"

text \<open>Under the mutex; \<open>None\<close> when the receive would block with the mutex held.\<close>

definition ConnState_end :: "nat \<Rightarrow> hook_state \<Rightarrow> hook_state option" where
  "ConnState_end c s =
     (if c \<in> acquired s
      then (if 0 < hookSem s
            then Some (s\<lparr>acquired := acquired s - {c}, hookSem := hookSem s - 1, ended := insert c (ended s)\<rparr>)
            else None)
      else Some (s\<lparr>refused := refused s - {c}, ended := insert c (ended s)\<rparr>))"

inductive hook_step :: "nat \<Rightarrow> hook_state \<Rightarrow> hook_state \<Rightarrow> bool" for maxConns where
  hook_new: "unseen c s \<Longrightarrow> hook_step maxConns s (ConnState_new maxConns c s)"
| hook_record: "c \<in> taking s \<Longrightarrow> hook_step maxConns s (ConnState_record c s)"
| hook_end: "c \<in> acquired s \<union> refused s \<Longrightarrow> ConnState_end c s = Some t \<Longrightarrow> hook_step maxConns s t"

definition hook_inv :: "nat \<Rightarrow> hook_state \<Rightarrow> bool" where
  "hook_inv maxConns s \<longleftrightarrow>
     finite (taking s) \<and> finite (acquired s) \<and> hookSem s = card (taking s) + card (acquired s)
     \<and> hookSem s \<le> maxConns \<and> taking s \<inter> acquired s = {}
     \<and> (taking s \<union> acquired s) \<inter> (refused s \<union> ended s) = {} \<and> refused s \<inter> ended s = {}"

lemma hook_step_inv:
  assumes "hook_step maxConns s t" "hook_inv maxConns s"
  shows "hook_inv maxConns t"
  using assms(1)
proof cases
  case (hook_new c)
  then show ?thesis using assms(2) by (auto simp: hook_inv_def ConnState_new_def unseen_def)
next
  case (hook_record c)
  then obtain n where n: "card (taking s) = Suc n" "card (taking s - {c}) = n"
    using assms(2) card_Suc_Diff1 [of "taking s" c] by (metis hook_inv_def)
  have "c \<notin> acquired s" using hook_record assms(2) by (auto simp: hook_inv_def)
  with n show ?thesis using hook_record assms(2) by (auto simp: hook_inv_def ConnState_record_def)
next
  case (hook_end c)
  show ?thesis
  proof (cases "c \<in> acquired s")
    case True
    then obtain n where "card (acquired s) = Suc n" "card (acquired s - {c}) = n"
      using assms(2) card_Suc_Diff1 [of "acquired s" c] by (metis hook_inv_def)
    then show ?thesis using hook_end True assms(2) by (auto simp: hook_inv_def ConnState_end_def split: if_splits)
  next
    case False
    then show ?thesis using hook_end assms(2) by (auto simp: hook_inv_def ConnState_end_def split: if_splits)
  qed
qed

interpretation http_limit: slot_limiter "\<lambda>s. s = hook_start" "hook_step m" "hook_inv m" m hookSem
    "\<lambda>s. card (taking s \<union> acquired s)" for m
proof unfold_locales
  show "hook_inv m s" if "s = hook_start" for s using that by (simp add: hook_start_def hook_inv_def)
  show "hook_inv m t" if "hook_inv m s" "hook_step m s t" for s t using that hook_step_inv by blast
qed (simp_all add: hook_inv_def card_Un_disjoint)

text \<open>
  C10. The limit of the HTTP mode, for a positive limit and in every reachable state of the \<open>ConnState\<close>
  hook: the connections that hold a slot are within the limit; closing a connection never blocks (it
  would block the mutex); closing a refused connection releases no slot of a live one; and the slot of
  a served connection is released exactly once, when it ends.
\<close>

theorem http_maxconns_respected:
  assumes "reach (\<lambda>s. s = hook_start) (hook_step maxConns) s"
  shows "card (taking s \<union> acquired s) \<le> maxConns
    \<and> (\<forall>c \<in> refused s. \<exists>t. ConnState_end c s = Some t \<and> hookSem t = hookSem s \<and> acquired t = acquired s)
    \<and> (\<forall>c \<in> acquired s. \<exists>t. ConnState_end c s = Some t \<and> hookSem t + 1 = hookSem s \<and> acquired t = acquired s - {c}
          \<and> (ConnState_end c t = Some t))"
proof -
  have inv: "hook_inv maxConns s" using assms by (rule http_limit.reach_inv)
  have ready: "0 < hookSem s" if "c \<in> acquired s" for c
    using inv that card_gt_0_iff [of "acquired s"] by (auto simp: hook_inv_def)
  have "c \<notin> acquired s \<and> c \<notin> ended s" if "c \<in> refused s" for c using inv that by (auto simp: hook_inv_def)
  moreover have "c \<notin> refused s" if "c \<in> acquired s" for c using inv that by (auto simp: hook_inv_def)
  ultimately show ?thesis
    using http_limit.reach_held_le [OF assms] ready by (auto simp: ConnState_end_def insert_absorb)
qed

text \<open>With the limit one: connection 1 is served and connection 2 has been refused.\<close>

definition served_and_refused :: hook_state where
  "served_and_refused = ConnState_new 1 2 (ConnState_record 1 (ConnState_new 1 1 hook_start))"

lemmas hook_demo_simps = served_and_refused_def ConnState_new_def ConnState_record_def hook_start_def unseen_def

lemma served_and_refused_reachable: "reach (\<lambda>s. s = hook_start) (hook_step 1) served_and_refused"
proof -
  have "hook_step 1 hook_start (ConnState_new 1 1 hook_start)"
    by (rule hook_new) (simp add: hook_demo_simps)
  moreover have "hook_step 1 (ConnState_new 1 1 hook_start) (ConnState_record 1 (ConnState_new 1 1 hook_start))"
    by (rule hook_record) (simp add: hook_demo_simps)
  moreover have "hook_step 1 (ConnState_record 1 (ConnState_new 1 1 hook_start)) served_and_refused"
    unfolding served_and_refused_def by (rule hook_new) (simp add: hook_demo_simps)
  ultimately show ?thesis by (blast intro: reach_start reach_step)
qed

theorem http_maxconns_respected_witness:
  "1 \<in> acquired served_and_refused \<and> 2 \<in> refused served_and_refused
   \<and> (\<exists>t. ConnState_end 2 served_and_refused = Some t \<and> hookSem t = 1 \<and> acquired t = {1})"
proof -
  have "2 \<in> refused served_and_refused" "hookSem served_and_refused = 1" "acquired served_and_refused = {1}"
    by (simp_all add: hook_demo_simps)
  with http_maxconns_respected [OF served_and_refused_reachable] show ?thesis by auto
qed

section \<open>The ConnState hook of the load-test harness\<close>

text \<open>
  \<open>setupHTTP\<close> of the harness keeps no map: every end of a connection takes an element out of the
  channel if there is one. \<open>acquired\<close> is here only the set of connections that got a slot and are open.
\<close>

definition harness_new :: "nat \<Rightarrow> nat \<Rightarrow> hook_state \<Rightarrow> hook_state" where
  "harness_new maxConns c s =
     (if hookSem s < maxConns then s\<lparr>hookSem := hookSem s + 1, acquired := insert c (acquired s)\<rparr>
      else s\<lparr>refused := insert c (refused s)\<rparr>)"

definition harness_end :: "nat \<Rightarrow> hook_state \<Rightarrow> hook_state" where
  "harness_end c s =
     (let s' = s\<lparr>acquired := acquired s - {c}, refused := refused s - {c}, ended := insert c (ended s)\<rparr>
      in if 0 < hookSem s then s'\<lparr>hookSem := hookSem s - 1\<rparr> else s')"

inductive harness_step :: "nat \<Rightarrow> hook_state \<Rightarrow> hook_state \<Rightarrow> bool" for maxConns where
  harness_opens: "unseen c s \<Longrightarrow> harness_step maxConns s (harness_new maxConns c s)"
| harness_closes: "c \<in> acquired s \<union> refused s \<Longrightarrow> harness_step maxConns s (harness_end c s)"

definition harness_filled :: "nat \<Rightarrow> hook_state" where
  "harness_filled n = \<lparr>hookSem = n, taking = {}, acquired = {1..n}, refused = {}, ended = {}\<rparr>"

lemma harness_filled_reachable:
  "n \<le> maxConns \<Longrightarrow> reach (\<lambda>s. s = hook_start) (harness_step maxConns) (harness_filled n)"
proof (induction n)
  case 0
  have "harness_filled 0 = hook_start" by (simp add: harness_filled_def hook_start_def)
  then show ?case by simp
next
  case (Suc n)
  have "harness_new maxConns (Suc n) (harness_filled n) = harness_filled (Suc n)"
    using Suc.prems by (simp add: harness_new_def harness_filled_def atLeastAtMostSuc_conv)
  moreover have "unseen (Suc n) (harness_filled n)" by (simp add: unseen_def harness_filled_def)
  ultimately have "harness_step maxConns (harness_filled n) (harness_filled (Suc n))"
    using harness_opens by metis
  with Suc show ?case by (auto intro: reach_step)
qed

text \<open>
  C39. The limiter of the load-test harness does not keep its limit: for every positive \<open>MaxConns\<close> a
  state is reachable in which one connection more than the limit is open. It suffices that a refused
  connection is closed: its close gives away the slot of a live connection.
\<close>

theorem harness_limit_exceeded:
  assumes "0 < maxConns"
  shows "\<exists>s. reach (\<lambda>s. s = hook_start) (harness_step maxConns) s \<and> card (acquired s) = maxConns + 1"
proof -
  let ?full = "harness_filled maxConns" and ?x = "maxConns + 1" and ?y = "maxConns + 2"
  let ?s1 = "harness_new maxConns ?x ?full"
  let ?s2 = "harness_end ?x ?s1"
  let ?s3 = "harness_new maxConns ?y ?s2"
  have "harness_step maxConns ?full ?s1"
    by (rule harness_opens) (simp add: unseen_def harness_filled_def)
  moreover have "harness_step maxConns ?s1 ?s2"
    by (rule harness_closes) (simp add: harness_new_def harness_filled_def)
  moreover have "harness_step maxConns ?s2 ?s3"
    by (rule harness_opens) (simp add: unseen_def harness_new_def harness_end_def harness_filled_def Let_def)
  ultimately have "reach (\<lambda>s. s = hook_start) (harness_step maxConns) ?s3"
    using harness_filled_reachable [of maxConns maxConns] by (blast intro: reach_step)
  moreover have "acquired ?s3 = insert ?y {1..maxConns}"
    using assms by (auto simp: harness_new_def harness_end_def harness_filled_def Let_def)
  ultimately show ?thesis by (intro exI [of _ ?s3]) simp
qed

theorem harness_limit_exceeded_witness:
  "\<exists>s. reach (\<lambda>s. s = hook_start) (harness_step 1) s \<and> card (acquired s) = 2"
  using harness_limit_exceeded [of 1] by (simp add: numeral_2_eq_2)

end
