(* ===== verification/Startup.thy ===== *)
theory Startup
  imports Config_Load Config_Validate Tls_Config Cert_Watcher Signal_Logging Tcp_Start Conn_Limit
begin

text \<open>
  \<open>main.go\<close>: the program from its arguments to a running proxy or an exit. Everything the system decides is
  in \<open>main_env\<close>; the outcome is an exit with its status and reason, or the running server with all that
  was decided on the way. Output to the log is left out. What the running server does is the subject of
  \<open>Tcp_Start\<close>, \<open>Tcp_Teardown\<close> and \<open>Conn_Limit\<close> (TCP) and of \<open>Http_Rewrite\<close> and \<open>Http_Transport\<close> (HTTP).
\<close>

record main_env =
  validPattern :: "string \<Rightarrow> bool"
  bindMetrics :: "string \<Rightarrow> kerr + unit"
  listenTCP :: "string \<Rightarrow> kerr option"
  watchWd :: "kerr + string"
  newWatcher :: "kerr option"
  addWatch :: "string \<Rightarrow> kerr option"
  dirOrder :: "string set \<Rightarrow> string list"
  dialSyslog :: "string \<Rightarrow> kerr option"
  openLog :: "string \<Rightarrow> bool"
  tlsEnv :: tls_env

datatype exit_reason =
    VersionShown
  | LoadFailed load_error
  | HelpShown
  | InvalidConfig cfg_error
  | ValidatedOnly
  | SyslogFailed
  | MetricsFailed kerr
  | MetricsPanic
  | NoServerAddr
  | ResolveFailed kerr
  | ListenFailed kerr
  | ServerTLSFailed config_error
  | RemoteTLSFailed config_error
  | WatchFailed watch_error
  | NoRemoteAddr
  | BadRemoteURL kerr
  | UnknownServerType

datatype handler = MetricsShutdown | ReloadCerts | CounterInterrupt | TransportInterrupt | ServerShutdown

record timeouts =
  readTimeout :: int
  writeTimeout :: int
  idleTimeout :: int
  handshakeTimeout :: int
  dialTimeout :: int

datatype mode = TcpMode string "nat option" | HttpMode url bool string "nat option"

record server_run =
  runListener :: listener
  runStore :: "CertStore option"
  runRemoteTLS :: "tls_config option"
  runHandlers :: "handler handler_table"
  runTimeouts :: timeouts
  runMode :: mode
  runLog :: "level \<times> log_dest"

datatype main_outcome = Exited int exit_reason | Running server_run

definition timeouts_of :: "'k koanf \<Rightarrow> runtime \<Rightarrow> 'k \<Rightarrow> timeouts" where
  "timeouts_of K R k =
     \<lparr>readTimeout = Duration K R k ''server.timeouts.read'', writeTimeout = Duration K R k ''server.timeouts.write'',
      idleTimeout = Duration K R k ''server.timeouts.idle'', handshakeTimeout = Duration K R k ''server.timeouts.handshake'',
      dialTimeout = Duration K R k ''remote.timeouts.dial''\<rparr>"

text \<open>The mode switch at the end of \<open>main\<close>, up to the point where each mode starts to serve.\<close>

definition tcp_mode :: "'k koanf \<Rightarrow> 'k \<Rightarrow> exit_reason + mode \<times> handler list" where
  "tcp_mode K k =
     (let remoteAddr = kString K k ''remote.addr'' in
      if remoteAddr = '''' then Inl NoRemoteAddr
      else Inr (TcpMode remoteAddr (make_sem (kInt K k ''server.maxconns'')), [CounterInterrupt]))"

definition http_mode :: "'k koanf \<Rightarrow> runtime \<Rightarrow> 'k \<Rightarrow> exit_reason + mode \<times> handler list" where
  "http_mode K R k =
     (case urlParse R (kString K k ''remote.addr'') of
        Inl e \<Rightarrow> Inl (BadRemoteURL e)
      | Inr u \<Rightarrow>
          Inr (HttpMode u (kBool K k ''server.trustxff'') (kString K k ''server.healthcheck'')
                 (make_sem (kInt K k ''server.maxconns'')),
               [TransportInterrupt, ServerShutdown]))"

definition main_mode :: "'k koanf \<Rightarrow> runtime \<Rightarrow> 'k \<Rightarrow> exit_reason + mode \<times> handler list" where
  "main_mode K R k =
     (let t = kString K k ''server.type'' in
      if t = ''tcp'' then tcp_mode K k
      else if t = ''http'' \<or> t = ''https'' then http_mode K R k
      else Inl UnknownServerType)"

lemmas mode_defs = main_mode_def tcp_mode_def http_mode_def

definition start_metrics :: "'k koanf \<Rightarrow> main_env \<Rightarrow> 'k \<Rightarrow> exit_reason + handler list" where
  "start_metrics K E k =
     (if kBool K k ''metrics.enable'' then
        (case StartServer (validPattern E) (bindMetrics E) (kString K k ''metrics.addr'') (kString K k ''metrics.path'') of
           HandlePanic \<Rightarrow> Inl MetricsPanic
         | BindError e \<Rightarrow> Inl (MetricsFailed e)
         | MetricsServing _ _ \<Rightarrow> Inr [MetricsShutdown])
      else Inr [])"

definition add_handlers :: "handler list \<Rightarrow> os_signal list \<Rightarrow> handler handler_table \<Rightarrow> handler handler_table" where
  "add_handlers hs sigs tab = fold (\<lambda>h tab. AddHandler h sigs tab) hs tab"

text \<open>The address, the listener, the TLS of both sides and the file watcher.\<close>

definition main_listen ::
  "'k koanf \<Rightarrow> runtime \<Rightarrow> main_env \<Rightarrow> 'k \<Rightarrow> exit_reason + (listener \<times> CertStore option \<times> tls_config option)" where
  "main_listen K R E k =
     (let serverAddr = kString K k ''server.addr'' in
      if serverAddr = '''' then Inl NoServerAddr
      else
        bind_res (map_err ResolveFailed (ResolveTCPAddr R serverAddr)) (\<lambda>tcpAddr.
        bind_res (case listenTCP E tcpAddr of Some e \<Rightarrow> Inl (ListenFailed e) | None \<Rightarrow> Inr ()) (\<lambda>_.
        bind_res (map_err ServerTLSFailed (ConfigServer K (suites R) (tlsEnv E) k)) (\<lambda>(l, certStore).
        bind_res (map_err RemoteTLSFailed (ConfigRemote K (suites R) (tlsEnv E) k)) (\<lambda>remote.
        bind_res (case certStore of
                    Some cs \<Rightarrow> if kBool K k ''server.tls.autoreload''
                              then bind_res (map_err WatchFailed (Watch (watchWd E) (newWatcher E) (addWatch E) (dirOrder E) cs)) (\<lambda>_. Inr ())
                              else Inr ()
                  | None \<Rightarrow> Inr ()) (\<lambda>_.
          Inr (l, certStore, remote)))))))"

text \<open>The handlers are registered in this order: metrics, certificates, mode.\<close>

definition main_handlers :: "handler list \<Rightarrow> CertStore option \<Rightarrow> handler list \<Rightarrow> handler handler_table" where
  "main_handlers mh certStore sh =
     add_handlers sh [Interrupt, SIGTERM]
       (add_handlers (if certStore \<noteq> None then [ReloadCerts] else []) [SIGHUP]
         (add_handlers mh [Interrupt, SIGTERM] New))"

text \<open>From a validated configuration to a running server, in the order of the code.\<close>

definition main_serve :: "'k koanf \<Rightarrow> runtime \<Rightarrow> main_env \<Rightarrow> 'k \<Rightarrow> exit_reason + server_run" where
  "main_serve K R E k =
     bind_res (case Configure K (syslogging (dialSyslog E)) (openLog E) k of None \<Rightarrow> Inl SyslogFailed | Some lg \<Rightarrow> Inr lg) (\<lambda>lg.
     bind_res (start_metrics K E k) (\<lambda>mh.
     bind_res (main_listen K R E k) (\<lambda>(l, certStore, remote).
     bind_res (main_mode K R k) (\<lambda>(m, sh).
       Inr \<lparr>runListener = l, runStore = certStore, runRemoteTLS = remote,
            runHandlers = main_handlers mh certStore sh,
            runTimeouts = timeouts_of K R k, runMode = m, runLog = lg\<rparr>))))"

definition given_flags :: "flag_values \<Rightarrow> nat" where
  "given_flags parsed = length (filter (\<lambda>(_, _, given). given) parsed)"

definition main ::
  "'k koanf \<Rightarrow> os_env \<Rightarrow> 'k providers \<Rightarrow> runtime \<Rightarrow> main_env \<Rightarrow> string list \<Rightarrow> flag_values \<Rightarrow> main_outcome" where
  "main K W P R E args parsed =
     (if ''-version'' \<in> set args \<or> ''--version'' \<in> set args then Exited 0 VersionShown
      else
        (case load_config K W P args parsed of
           Inl e \<Rightarrow> Exited 1 (LoadFailed e)
         | Inr k \<Rightarrow>
             if kString K k ''remote.addr'' = '''' \<and> ParseConfigPaths args = [] \<and> given_flags parsed = 0
             then Exited 0 HelpShown
             else
               (case ValidateConfig K R k of
                  (Some e, _) \<Rightarrow> Exited 1 (InvalidConfig e)
                | (None, k) \<Rightarrow>
                    if kBool K k ''validate'' then Exited 0 ValidatedOnly
                    else (case main_serve K R E k of
                            Inl e \<Rightarrow> Exited (if e = MetricsPanic then 2 else 1) e
                          | Inr run \<Rightarrow> Running run))))"

section \<open>What is known of a running server\<close>

lemma main_listen_Inr:
  "main_listen K R E k = Inr (l, certStore, remote) \<Longrightarrow>
     kString K k ''server.addr'' \<noteq> '''' \<and> ConfigServer K (suites R) (tlsEnv E) k = Inr (l, certStore)
     \<and> ConfigRemote K (suites R) (tlsEnv E) k = Inr remote"
  by (auto simp: main_listen_def Let_def bind_res_eq_Inr split: if_splits)

lemma main_serve_Inr:
  assumes "main_serve K R E k = Inr run"
  obtains mh sh where "start_metrics K E k = Inr mh"
    "main_listen K R E k = Inr (runListener run, runStore run, runRemoteTLS run)" "main_mode K R k = Inr (runMode run, sh)"
    "runHandlers run = main_handlers mh (runStore run) sh" "runTimeouts run = timeouts_of K R k"
proof -
  from assms obtain lg mh l certStore remote m sh where
    "start_metrics K E k = Inr mh" "main_listen K R E k = Inr (l, certStore, remote)" "main_mode K R k = Inr (m, sh)"
    and run: "run = \<lparr>runListener = l, runStore = certStore, runRemoteTLS = remote,
            runHandlers = main_handlers mh certStore sh, runTimeouts = timeouts_of K R k, runMode = m, runLog = lg\<rparr>"
    unfolding main_serve_def bind_res_eq_Inr case_prod_unfold by (metis prod.collapse sum.inject(2))
  then show ?thesis using that by simp
qed

lemma main_Running:
  assumes "main K W P R E args parsed = Running run"
  obtains k k' where "load_config K W P args parsed = Inr k" "ValidateConfig K R k = (None, k')"
    "\<not> kBool K k' ''validate''" "main_serve K R E k' = Inr run"
  using assms by (auto simp: main_def split: if_splits sum.splits prod.splits option.splits)

lemma ConfigRemote_None:
  "ConfigRemote K T V k = Inr None \<Longrightarrow> \<not> kBool K k ''remote.tls.enable''"
  by (auto simp: ConfigRemote_def remote_base_def bind_res_eq_Inr Let_def split: option.splits if_splits)

lemma main_mode_types:
  "main_mode K R k = Inr (m, sh) \<Longrightarrow>
     kString K k ''server.type'' \<in> {''tcp'', ''http'', ''https''}
     \<and> (kString K k ''server.type'' = ''tcp'' \<longleftrightarrow> (\<exists>a sem. m = TcpMode a sem)) \<and> ReloadCerts \<notin> set sh"
  by (auto simp: mode_defs Let_def split: if_splits sum.splits)

lemma add_handlers_lookup:
  "set (add_handlers hs sigs tab sig) = set (tab sig) \<union> (if sig \<in> set sigs then set hs else {})"
proof (induction hs arbitrary: tab)
  case (Cons h hs)
  have "count_list sigs sig = 0 \<longleftrightarrow> sig \<notin> set sigs" by (simp add: count_list_0_iff)
  with Cons show ?case by (auto simp: add_handlers_def AddHandler_lookup)
qed (simp add: add_handlers_def)

lemma start_metrics_handlers: "start_metrics K E k = Inr mh \<Longrightarrow> ReloadCerts \<notin> set mh"
  by (auto simp: start_metrics_def split: if_splits server_start.splits)

lemma main_serve_handlers:
  assumes "main_serve K R E k = Inr run"
  shows "set (runHandlers run SIGHUP) = (if runStore run = None then {} else {ReloadCerts})"
    "ReloadCerts \<notin> set (runHandlers run Interrupt) \<union> set (runHandlers run SIGTERM)"
  using assms
proof (atomize (full), cases rule: main_serve_Inr)
  case (1 mh sh)
  with start_metrics_handlers [OF 1(1)] main_mode_types [OF 1(3)]
  show "set (runHandlers run SIGHUP) = (if runStore run = None then {} else {ReloadCerts})
      \<and> ReloadCerts \<notin> set (runHandlers run Interrupt) \<union> set (runHandlers run SIGTERM)"
    by (simp add: main_handlers_def add_handlers_lookup New_def)
qed

lemma stage_reasons:
  "start_metrics K E k = Inl e \<Longrightarrow> e \<notin> {VersionShown, HelpShown, ValidatedOnly}"
  "main_listen K R E k = Inl e \<Longrightarrow> e \<notin> {VersionShown, HelpShown, ValidatedOnly}"
  "main_mode K R k = Inl e \<Longrightarrow> e \<notin> {VersionShown, HelpShown, ValidatedOnly}"
proof -
  show "start_metrics K E k = Inl e \<Longrightarrow> e \<notin> {VersionShown, HelpShown, ValidatedOnly}"
    by (auto simp: start_metrics_def split: if_splits server_start.splits)
  show "main_listen K R E k = Inl e \<Longrightarrow> e \<notin> {VersionShown, HelpShown, ValidatedOnly}"
    by (auto simp: main_listen_def Let_def bind_res_eq_Inl map_err_eq_Inl split: if_splits option.splits)
  show "main_mode K R k = Inl e \<Longrightarrow> e \<notin> {VersionShown, HelpShown, ValidatedOnly}"
    by (auto simp: mode_defs Let_def split: if_splits sum.splits)
qed

lemma main_serve_reason:
  assumes "main_serve K R E k = Inl e"
  shows "e \<notin> {VersionShown, HelpShown, ValidatedOnly}"
proof -
  from assms consider "e = SyslogFailed" | "start_metrics K E k = Inl e" | "main_listen K R E k = Inl e" | "main_mode K R k = Inl e"
    by (auto simp: main_serve_def bind_res_eq_Inl split: option.splits)
  then show ?thesis by cases (simp, (erule stage_reasons)+)
qed

text \<open>
  Exit statuses: the program exits with status zero exactly when it showed its version, its help or
  the validated configuration; every failure has another status.
\<close>

theorem main_exit_status:
  assumes "main K W P R E args parsed = Exited code reason"
  shows "code = 0 \<longleftrightarrow> reason \<in> {VersionShown, HelpShown, ValidatedOnly}"
  using assms by (auto simp: main_def dest: main_serve_reason split: if_splits sum.splits prod.splits option.splits)

end
