(* ===== verification/Http_Rewrite.thy ===== *)
theory Http_Rewrite
  imports Go_Net Go_Runtime
begin

text \<open>
  \<open>internal/proxy/rewrite.go\<close> with the parts of \<open>net/http/httputil\<close> it calls, \<open>SingleJoiningSlash\<close> of
  \<open>tcp.go\<close> and the health-check middleware of \<open>internal/health\<close>. A header is a map from canonical names to
  lists of values; \<open>Set\<close>, \<open>Del\<close> and \<open>Get\<close> canonicalise the name, a direct map access does not. \<open>esc\<close> is
  \<open>URL.EscapedPath\<close>.
\<close>

section \<open>Headers\<close>

type_synonym header = "string \<rightharpoonup> string list"

text \<open>\<open>textproto.CanonicalMIMEHeaderKey\<close> on valid header names: capitals at the start and after a dash.\<close>

fun canon :: "bool \<Rightarrow> string \<Rightarrow> string" where
  "canon up [] = []"
| "canon up (c # s) = (if up then upper_char c else lower_char c) # canon (c = CHR ''-'') s"

definition CanonicalKey :: "string \<Rightarrow> string" where
  "CanonicalKey s = canon True s"

definition Header_Set :: "header \<Rightarrow> string \<Rightarrow> string \<Rightarrow> header" where
  "Header_Set h k v = h(CanonicalKey k \<mapsto> [v])"

definition Header_Del :: "header \<Rightarrow> string \<Rightarrow> header" where
  "Header_Del h k = h(CanonicalKey k := None)"

section \<open>Joining paths\<close>

definition SingleJoiningSlash :: "string \<Rightarrow> string \<Rightarrow> string" where
  "SingleJoiningSlash a b =
     (let aslash = (a \<noteq> [] \<and> last a = CHR ''/''); bslash = (b \<noteq> [] \<and> hd b = CHR ''/'') in
      if aslash \<and> bslash then a @ tl b
      else if \<not> aslash \<and> \<not> bslash then a @ ''/'' @ b
      else a @ b)"

text \<open>\<open>joinURLPath\<close> of \<open>net/http/httputil\<close>: path and raw path.\<close>

definition joinURLPath :: "(url \<Rightarrow> string) \<Rightarrow> url \<Rightarrow> url \<Rightarrow> string \<times> string" where
  "joinURLPath esc a b =
     (if RawPath a = '''' \<and> RawPath b = '''' then (SingleJoiningSlash (Path a) (Path b), '''')
      else
        let apath = esc a; bpath = esc b;
            aslash = HasSuffix apath ''/''; bslash = HasPrefix bpath ''/'' in
        if aslash \<and> bslash then (Path a @ drop 1 (Path b), apath @ drop 1 bpath)
        else if \<not> aslash \<and> \<not> bslash then (Path a @ ''/'' @ Path b, apath @ ''/'' @ bpath)
        else (Path a @ Path b, apath @ bpath))"

section \<open>Rewriting\<close>

record request =
  reqURL :: url
  reqHost :: string
  Header :: header
  reqRemoteAddr :: string
  isTLS :: bool

definition rewriteRequestURL :: "(url \<Rightarrow> string) \<Rightarrow> url \<Rightarrow> url \<Rightarrow> url" where
  "rewriteRequestURL esc target u =
     (let (p, rp) = joinURLPath esc target u in
      \<lparr>Scheme = Scheme target, Host = Host target, Path = p, RawPath = rp,
       RawQuery = (if RawQuery target = '''' \<or> RawQuery u = '''' then RawQuery target @ RawQuery u
                   else RawQuery target @ ''&'' @ RawQuery u)\<rparr>)"

definition SetURL :: "(url \<Rightarrow> string) \<Rightarrow> url \<Rightarrow> request \<Rightarrow> request" where
  "SetURL esc target out = out\<lparr>reqURL := rewriteRequestURL esc target (reqURL out), reqHost := ''''\<rparr>"

definition SetXForwarded :: "request \<Rightarrow> request \<Rightarrow> request" where
  "SetXForwarded inp out =
     (let h = (case SplitHostPort (reqRemoteAddr inp) of
                 Inr (clientIP, _) \<Rightarrow>
                   (case Header out ''X-Forwarded-For'' of
                      Some (p # prior) \<Rightarrow> Header_Set (Header out) ''X-Forwarded-For'' (Join '', '' (p # prior) @ '', '' @ clientIP)
                    | _ \<Rightarrow> Header_Set (Header out) ''X-Forwarded-For'' clientIP)
               | Inl _ \<Rightarrow> Header_Del (Header out) ''X-Forwarded-For'');
          h = Header_Set h ''X-Forwarded-Host'' (reqHost inp);
          h = Header_Set h ''X-Forwarded-Proto'' (if isTLS inp then ''https'' else ''http'')
      in out\<lparr>Header := h\<rparr>)"

text \<open>The steps of the function that \<open>NewRewrite\<close> returns, and the function, on the inbound and the outbound request.\<close>

definition carry_xff :: "bool \<Rightarrow> request \<Rightarrow> request \<Rightarrow> request" where
  "carry_xff trustXFF inp out =
     (if trustXFF
      then out\<lparr>Header := (Header out)(''X-Forwarded-For'' := Header inp ''X-Forwarded-For'')\<rparr>
      else out\<lparr>Header := Header_Del (Header out) ''X-Forwarded-For''\<rparr>)"

definition set_real_ip :: "request \<Rightarrow> request \<Rightarrow> request" where
  "set_real_ip inp out =
     (case SplitHostPort (reqRemoteAddr inp) of
        Inr (clientIP, _) \<Rightarrow> out\<lparr>Header := Header_Set (Header out) ''X-Real-IP'' clientIP\<rparr>
      | Inl _ \<Rightarrow> out)"

definition default_user_agent :: "request \<Rightarrow> request" where
  "default_user_agent out =
     (if Header out ''User-Agent'' = None then out\<lparr>Header := Header_Set (Header out) ''User-Agent'' ''''\<rparr> else out)"

definition NewRewrite :: "(url \<Rightarrow> string) \<Rightarrow> url \<Rightarrow> bool \<Rightarrow> request \<Rightarrow> request \<Rightarrow> request" where
  "NewRewrite esc u trustXFF inp out =
     (let out = SetURL esc u out;
          out = out\<lparr>reqHost := Host u\<rparr>;
          out = carry_xff trustXFF inp out;
          out = SetXForwarded inp out;
          out = set_real_ip inp out
      in default_user_agent out)"

section \<open>Health check\<close>

datatype response = HealthOK string string | FromNext

text \<open>Status 200 with a content type and a body, or whatever the next handler does.\<close>

definition CheckMiddleware :: "string \<Rightarrow> request \<Rightarrow> response" where
  "CheckMiddleware path r =
     (if Path (reqURL r) = path
      then HealthOK ''application/json'' ([CHR 0x7B, CHR 0x22] @ ''status'' @ [CHR 0x22] @ '':'' @ [CHR 0x22] @ ''ok'' @ [CHR 0x22, CHR 0x7D])
      else FromNext)"

section \<open>Properties\<close>

lemma canonical_keys [simp]:
  "CanonicalKey ''X-Forwarded-For'' = ''X-Forwarded-For''" "CanonicalKey ''X-Forwarded-Host'' = ''X-Forwarded-Host''"
  "CanonicalKey ''X-Forwarded-Proto'' = ''X-Forwarded-Proto''" "CanonicalKey ''X-Real-IP'' = ''X-Real-Ip''"
  "CanonicalKey ''User-Agent'' = ''User-Agent''"
  by code_simp+

lemmas rewrite_defs = NewRewrite_def SetURL_def SetXForwarded_def carry_xff_def set_real_ip_def default_user_agent_def
  Header_Set_def Header_Del_def Let_def

text \<open>The headers that tell the backend who the client is.\<close>

definition identity_headers :: "string list" where
  "identity_headers = [''X-Forwarded-For'', ''X-Forwarded-Host'', ''X-Forwarded-Proto'', ''X-Real-Ip'']"

lemma rewrite_identity:
  assumes "SplitHostPort (reqRemoteAddr inp) = Inr (peer, port)"
  shows "map (Header (NewRewrite esc u False inp out)) identity_headers
    = [Some [peer], Some [reqHost inp], Some [if isTLS inp then ''https'' else ''http''], Some [peer]]"
  using assms by (simp add: rewrite_defs identity_headers_def)

text \<open>
  Clients cannot forge their identity: for a request whose peer address is \<open>host:port\<close> and with
  \<open>server.trustxff\<close> off, the identity headers sent to the backend are the peer's own address, the host
  that was asked for and the protocol of the inbound connection, each with exactly one value, whatever
  headers the client sent and whatever was already in the outbound request.
\<close>

theorem NewRewrite_identity:
  assumes "SplitHostPort (reqRemoteAddr inp) = Inr (peer, port)"
  shows "map (Header (NewRewrite esc u False inp out)) identity_headers
    = [Some [peer], Some [reqHost inp], Some [if isTLS inp then ''https'' else ''http''], Some [peer]]"
  using assms by (rule rewrite_identity)

definition demo_url :: url where
  "demo_url = \<lparr>Scheme = ''http'', Host = ''backend:8080'', Path = ''/base/'', RawPath = '''', RawQuery = ''k=1''\<rparr>"

definition demo_req :: request where
  "demo_req = \<lparr>reqURL = \<lparr>Scheme = '''', Host = '''', Path = ''/x'', RawPath = '''', RawQuery = ''q=2''\<rparr>, reqHost = ''example.com'',
     Header = [''X-Forwarded-For'' \<mapsto> [''6.6.6.6''], ''X-Real-Ip'' \<mapsto> [''6.6.6.6'']], reqRemoteAddr = ''10.0.0.9:5000'', isTLS = True\<rparr>"

lemma demo_split: "SplitHostPort (reqRemoteAddr demo_req) = Inr (''10.0.0.9'', ''5000'')"
  by code_simp

theorem NewRewrite_identity_witness:
  "Header (NewRewrite (\<lambda>u. Path u) demo_url False demo_req demo_req) ''X-Forwarded-For'' = Some [''10.0.0.9'']
   \<and> Header (NewRewrite (\<lambda>u. Path u) demo_url False demo_req demo_req) ''X-Real-Ip'' = Some [''10.0.0.9'']"
  using NewRewrite_identity [OF demo_split, of "\<lambda>u. Path u" demo_url demo_req] by (simp add: identity_headers_def)

text \<open>
  With \<open>server.trustxff\<close> on, the chain of addresses is extended and never replaced: the values of the
  inbound \<open>X-Forwarded-For\<close>, in order, and then the peer, as one value; \<open>X-Real-IP\<close> is still the peer.
\<close>

theorem NewRewrite_trusted_chain:
  assumes "SplitHostPort (reqRemoteAddr inp) = Inr (peer, port)"
  shows "Header (NewRewrite esc u True inp out) ''X-Forwarded-For''
      = Some [case Header inp ''X-Forwarded-For'' of Some (p # ps) \<Rightarrow> Join '', '' ((p # ps) @ [peer]) | _ \<Rightarrow> peer]
    \<and> Header (NewRewrite esc u True inp out) ''X-Real-Ip'' = Some [peer]"
proof -
  have "Join sep ((p # ps) @ [x]) = Join sep (p # ps) @ sep @ x" for sep p ps x
    by (induction ps arbitrary: p) auto
  then show ?thesis using assms by (auto simp: rewrite_defs split: option.split list.split)
qed

theorem NewRewrite_trusted_chain_witness:
  "Header (NewRewrite (\<lambda>u. Path u) demo_url True demo_req demo_req) ''X-Forwarded-For'' = Some [''6.6.6.6, 10.0.0.9'']"
  using NewRewrite_trusted_chain [OF demo_split, of "\<lambda>u. Path u" demo_url demo_req] by (simp add: demo_req_def)

lemma stage_frames [simp]:
  "reqURL (carry_xff trust inp out) = reqURL out" "reqHost (carry_xff trust inp out) = reqHost out"
  "reqURL (SetXForwarded inp out) = reqURL out" "reqHost (SetXForwarded inp out) = reqHost out"
  "reqURL (set_real_ip inp out) = reqURL out" "reqHost (set_real_ip inp out) = reqHost out"
  "reqURL (default_user_agent out) = reqURL out" "reqHost (default_user_agent out) = reqHost out"
  by (simp_all add: carry_xff_def SetXForwarded_def set_real_ip_def default_user_agent_def Let_def
      split: sum.split prod.split)

lemma NewRewrite_frame:
  "reqURL (NewRewrite esc u trust inp out) = rewriteRequestURL esc u (reqURL out)"
  "reqHost (NewRewrite esc u trust inp out) = Host u"
  by (simp_all add: NewRewrite_def SetURL_def Let_def)

lemma stage_headers:
  assumes "k \<notin> set identity_headers"
  shows "Header (carry_xff trust inp out) k = Header out k" "Header (SetXForwarded inp out) k = Header out k"
    "Header (set_real_ip inp out) k = Header out k"
  using assms by (simp_all add: carry_xff_def SetXForwarded_def set_real_ip_def Header_Set_def Header_Del_def
      identity_headers_def Let_def split: sum.split prod.split option.split list.split)

lemma NewRewrite_other:
  assumes "k \<notin> set identity_headers" "k \<noteq> ''User-Agent'' \<or> Header out k \<noteq> None"
  shows "Header (NewRewrite esc u trust inp out) k = Header out k"
proof -
  have "Header (set_real_ip inp (SetXForwarded inp (carry_xff trust inp ((SetURL esc u out)\<lparr>reqHost := Host u\<rparr>)))) k = Header out k"
    using assms(1) by (simp add: stage_headers SetURL_def)
  then show ?thesis using assms(2)
    by (auto simp: NewRewrite_def default_user_agent_def Header_Set_def Let_def)
qed

text \<open>
  Routing: every rewritten request goes to the backend's scheme and host, on a path that keeps both
  the backend's base path and the client's path with exactly one slash where they meet, with the client's
  query after the backend's; headers other than the identity headers and a missing \<open>User-Agent\<close> are kept.
\<close>

theorem NewRewrite_routes_to_backend:
  fixes u :: url and out :: request
  assumes "RawPath u = ''''" and "RawPath (reqURL out) = ''''"
  shows "let out' = NewRewrite esc u trust inp out in
    Scheme (reqURL out') = Scheme u \<and> Host (reqURL out') = Host u \<and> reqHost out' = Host u
    \<and> Path (reqURL out') = SingleJoiningSlash (Path u) (Path (reqURL out))
    \<and> HasSuffix (RawQuery (reqURL out')) (RawQuery (reqURL out)) \<and> HasPrefix (RawQuery (reqURL out')) (RawQuery u)
    \<and> (k \<notin> set (''User-Agent'' # identity_headers) \<longrightarrow> Header out' k = Header out k)
    \<and> (Header out ''User-Agent'' \<noteq> None \<longrightarrow> Header out' ''User-Agent'' = Header out ''User-Agent'')"
proof -
  have "\<not> (k \<in> set identity_headers)" if "k \<notin> set (''User-Agent'' # identity_headers)" using that by simp
  moreover have "''User-Agent'' \<notin> set identity_headers" by (simp add: identity_headers_def)
  ultimately show ?thesis using assms NewRewrite_other [of k out esc u trust inp]
      NewRewrite_other [of "''User-Agent''" out esc u trust inp]
    by (simp add: Let_def NewRewrite_frame rewriteRequestURL_def joinURLPath_def HasSuffix_iff HasPrefix_iff)
qed

theorem NewRewrite_routes_to_backend_witness:
  "Path (reqURL (NewRewrite (\<lambda>u. Path u) demo_url False demo_req demo_req)) = ''/base/x''
   \<and> Host (reqURL (NewRewrite (\<lambda>u. Path u) demo_url False demo_req demo_req)) = ''backend:8080''"
  using NewRewrite_routes_to_backend [of demo_url demo_req "\<lambda>u. Path u" False demo_req "''X''"]
  by (simp add: demo_url_def demo_req_def Let_def SingleJoiningSlash_def)

definition trim_last_slash :: "string \<Rightarrow> string" where
  "trim_last_slash a = (if a \<noteq> [] \<and> last a = CHR ''/'' then butlast a else a)"

definition trim_first_slash :: "string \<Rightarrow> string" where
  "trim_first_slash b = (case b of c # b' \<Rightarrow> if c = CHR ''/'' then b' else b | [] \<Rightarrow> [])"

text \<open>
  \<open>SingleJoiningSlash\<close> joins with exactly one slash: the result is the first segment without a trailing
  slash, one slash, and the second segment without a leading slash.
\<close>

theorem SingleJoiningSlash_one_slash:
  "SingleJoiningSlash a b = trim_last_slash a @ ''/'' @ trim_first_slash b"
proof -
  have "a = butlast a @ ''/''" if "a \<noteq> []" "last a = CHR ''/''" using that by (metis append_butlast_last_id)
  then show ?thesis
    by (cases b) (auto simp: SingleJoiningSlash_def trim_last_slash_def trim_first_slash_def Let_def)
qed

end
