(* ===== verification/Serving.thy ===== *)
theory Serving
  imports Startup Http_Rewrite
begin

text \<open>
  \<open>main.go\<close>, what the running server does with a connection or a request: the \<open>TCPProxy\<close> built for each
  accepted connection, and the handler, the server and the transport of the HTTP mode. The properties
  compose the configuration, the startup and the two proxies. \<open>esc\<close> is \<open>URL.EscapedPath\<close>.
\<close>

section \<open>TCP mode\<close>

text \<open>The fields \<open>main\<close> sets for a connection from \<open>src\<close>, accepted on \<open>dst\<close>, and what its pipes read of them.\<close>

definition conn_proxy :: "'k koanf \<Rightarrow> 'k \<Rightarrow> server_run \<Rightarrow> net_addr \<Rightarrow> net_addr \<Rightarrow> tcp_proxy" where
  "conn_proxy K k run src dst =
     \<lparr>metricsEnabled = kBool K k ''metrics.enable'', serverTLS = (runListener run \<noteq> PlainListener),
      remoteTLS = (runRemoteTLS run \<noteq> None),
      RemoteAddr = (case runMode run of TcpMode remoteAddr _ \<Rightarrow> remoteAddr | HttpMode _ _ _ _ \<Rightarrow> ''''), srcAddr = src, dstAddr = dst,
      HandshakeTimeout = handshakeTimeout (runTimeouts run), DialTimeout = dialTimeout (runTimeouts run),
      hdrWriteTimeout = writeTimeout (runTimeouts run), ProxyProto = kString K k ''remote.proxyprotocol''\<rparr>"

definition conn_pipe :: "'k koanf \<Rightarrow> 'k \<Rightarrow> server_run \<Rightarrow> bool \<Rightarrow> pipe_conf" where
  "conn_pipe K k run loc =
     \<lparr>metricsOn = kBool K k ''metrics.enable'', islocal = loc, ReadTimeout = readTimeout (runTimeouts run),
      WriteTimeout = writeTimeout (runTimeouts run), IdleTimeout = idleTimeout (runTimeouts run)\<rparr>"

section \<open>HTTP mode\<close>

record http_transport =
  trShowContent :: bool
  trDialTimeout :: int
  trTLSClientConfig :: "tls_config option"
  trTLSHandshakeTimeout :: int
  trResponseHeaderTimeout :: int
  trIdleConnTimeout :: int

record http_server =
  srvBackend :: url
  srvTrustXFF :: bool
  srvHealth :: string
  srvReadTimeout :: int
  srvWriteTimeout :: int
  srvIdleTimeout :: int
  srvLimit :: "nat option"
  srvHTTP2 :: bool
  srvTransport :: http_transport

definition http_transport_of :: "'k koanf \<Rightarrow> 'k \<Rightarrow> server_run \<Rightarrow> http_transport" where
  "http_transport_of K k run =
     \<lparr>trShowContent = kBool K k ''log.contents'', trDialTimeout = dialTimeout (runTimeouts run),
      trTLSClientConfig = runRemoteTLS run, trTLSHandshakeTimeout = dialTimeout (runTimeouts run),
      trResponseHeaderTimeout = readTimeout (runTimeouts run), trIdleConnTimeout = idleTimeout (runTimeouts run)\<rparr>"

definition http_server_of :: "'k koanf \<Rightarrow> 'k \<Rightarrow> server_run \<Rightarrow> url \<Rightarrow> http_server" where
  "http_server_of K k run u =
     \<lparr>srvBackend = u, srvTrustXFF = kBool K k ''server.trustxff'', srvHealth = kString K k ''server.healthcheck'',
      srvReadTimeout = readTimeout (runTimeouts run), srvWriteTimeout = writeTimeout (runTimeouts run),
      srvIdleTimeout = idleTimeout (runTimeouts run), srvLimit = make_sem (kInt K k ''server.maxconns''),
      srvHTTP2 = kBool K k ''server.http2'', srvTransport = http_transport_of K k run\<rparr>"

datatype http_answer = AnsweredHere string string | Forwarded request

text \<open>
  The handler: the reverse proxy, behind the health check when a path is configured. \<open>out\<close> is the outbound
  request that \<open>ReverseProxy\<close> has made from the inbound one before it calls \<open>Rewrite\<close>.
\<close>

definition serve_http :: "(url \<Rightarrow> string) \<Rightarrow> http_server \<Rightarrow> request \<Rightarrow> request \<Rightarrow> http_answer" where
  "serve_http esc srv r out =
     (let forward = Forwarded (NewRewrite esc (srvBackend srv) (srvTrustXFF srv) r out) in
      if srvHealth srv \<noteq> '''' then
        (case CheckMiddleware (srvHealth srv) r of
           HealthOK ctype body \<Rightarrow> AnsweredHere ctype body
         | FromNext \<Rightarrow> forward)
      else forward)"

section \<open>Properties\<close>

lemma SpawnPipes_iff:
  "SpawnPipes \<in> set (Start p S) \<longleftrightarrow>
     (serverTLS p \<longrightarrow> handshake S = None) \<and> dial S = None
     \<and> (\<exists>hdr. header_of p = Inr hdr \<and> (hdr \<noteq> [] \<longrightarrow> hdrWrite S hdr = None))"
proof -
  have empty: "header_of p = Inr []" if "ProxyProto p = ''''" using that by (simp add: header_of_def ProxyHeader_def)
  show ?thesis
  proof (cases rule: Start_cases [where p = p and E = S])
    case (served hs)
    then show ?thesis using empty by (cases "ProxyProto p = ''''") auto
  qed (auto simp: set_write_header start_dial_def dest!: start_mem)
qed

lemma valid_header:
  "valid_config K R k \<Longrightarrow> \<not> isl (header_of (conn_proxy K k run src dst))"
  by (auto simp: valid_config_def valid_endpoints_def header_of_def conn_proxy_def ProxyHeader_def)

lemma Dial_action:
  "Dial tls addr t \<in> set (Start p S) \<Longrightarrow> tls = remoteTLS p \<and> addr = RemoteAddr p \<and> t = dial_timeout p"
  by (cases rule: Start_cases [where p = p and E = S])
    (auto simp: set_write_header start_dial_def dest!: start_mem split: if_splits)

lemma main_serve_TcpMode:
  assumes "main_serve K R E k = Inr run" "runMode run = TcpMode addr sem"
  shows "kString K k ''server.type'' = ''tcp''" "addr = kString K k ''remote.addr''"
    "sem = make_sem (kInt K k ''server.maxconns'')"
  using assms by (auto elim!: main_serve_Inr simp: mode_defs Let_def split: if_splits sum.splits)

lemma main_serve_HttpMode:
  assumes "main_serve K R E k = Inr run" "runMode run = HttpMode u trust hc sem"
  shows "kString K k ''server.type'' \<in> {''http'', ''https''}" "urlParse R (kString K k ''remote.addr'') = Inr u"
    "trust = kBool K k ''server.trustxff''" "hc = kString K k ''server.healthcheck''"
  using assms by (auto elim!: main_serve_Inr simp: mode_defs Let_def split: if_splits sum.splits)

text \<open>\<open>os.Stat\<close> of the empty path fails, so a backend without TLS and without a client certificate stays plain.\<close>

lemma main_serve_remote:
  assumes "main_serve K R E k = Inr run" "valid_config K R k" "\<not> statOk (tlsEnv E) ''''"
  shows "runRemoteTLS run \<noteq> None \<longleftrightarrow> kBool K k ''remote.tls.enable''"
  using assms
proof (cases rule: main_serve_Inr)
  case (1 mh sh)
  from main_listen_Inr [OF 1(2)] have "ConfigRemote K (suites R) (tlsEnv E) k = Inr (runRemoteTLS run)" by simp
  moreover have "\<not> kBool K k ''remote.tls.enable'' \<Longrightarrow> kString K k ''remote.tls.cert'' = ''''"
    using assms(2) by (simp add: valid_config_def valid_tls_def)
  ultimately show ?thesis using assms(3)
    by (cases "kBool K k ''remote.tls.enable''")
      (auto simp: ConfigRemote_def remote_base_def FileExists_def bind_res_eq_Inr Let_def dest: sym split: option.splits if_splits)
qed

text \<open>A system in which every file can be loaded and every socket opened, and two configurations to start with.\<close>

definition demo_main_env :: main_env where
  "demo_main_env =
     \<lparr>validPattern = (\<lambda>_. True), bindMetrics = (\<lambda>_. Inr ()), listenTCP = (\<lambda>_. None), watchWd = Inr ''/'',
      newWatcher = None, addWatch = (\<lambda>_. None), dirOrder = (\<lambda>_. []),
      dialSyslog = (\<lambda>_. None), openLog = (\<lambda>_. True), tlsEnv = demo_tls_env\<rparr>"

definition demo_tcp :: layer where
  "demo_tcp = demo_config(''log.level'' \<mapsto> CStr ''warn'')"

definition demo_http :: layer where
  "demo_http = [''server.type'' \<mapsto> CStr ''http'', ''server.addr'' \<mapsto> CStr '':80'', ''server.healthcheck'' \<mapsto> CStr ''/up'',
     ''remote.addr'' \<mapsto> CStr ''http://backend:8080/base/?k=1'']"

definition demo_http_runtime :: runtime where
  "demo_http_runtime = demo_runtime\<lparr>urlParse := (\<lambda>_. Inr demo_url)\<rparr>"

lemma demo_tcp_run:
  obtains run where "main_serve flat_store demo_runtime demo_main_env demo_tcp = Inr run"
    "runListener run = PlainListener" "runMode run = TcpMode ''b:1'' None"
proof -
  have "case main_serve flat_store demo_runtime demo_main_env demo_tcp of
          Inl _ \<Rightarrow> False | Inr run \<Rightarrow> runListener run = PlainListener \<and> runMode run = TcpMode ''b:1'' None"
    by code_simp
  then show ?thesis using that by (auto split: sum.splits)
qed

lemma demo_http_run:
  obtains run where "main_serve flat_store demo_http_runtime demo_main_env demo_http = Inr run"
    "runMode run = HttpMode demo_url False ''/up'' None"
proof -
  have "case main_serve flat_store demo_http_runtime demo_main_env demo_http of
          Inl _ \<Rightarrow> False | Inr run \<Rightarrow> runMode run = HttpMode demo_url False ''/up'' None"
    by code_simp
  then show ?thesis using that by (auto split: sum.splits)
qed

lemma demo_tcp_valid: "valid_config flat_store demo_runtime demo_tcp"
  using validated(3) [OF flat_store_ok demo_Validate] by (simp add: demo_tcp_def)

lemma demo_http_valid: "valid_config flat_store demo_http_runtime demo_http"
  by (simp add: valid_config_def valid_endpoints_def valid_tls_def valid_values_def effective_type_def effective_addr_def
      timeout_keys_def version_keys_def suite_keys_def demo_http_def demo_http_runtime_def demo_runtime_def demo_url_def
      flat_store_simps ParseTLSVersion_def ParseCipherSuites_def)



text \<open>
  C7. HTTP mode from the configuration to the wire: under a server started with a valid configuration, a
  request is answered locally exactly when a health-check path is configured and asked for; every other
  request goes to the scheme and the host of \<open>remote.addr\<close>, which are not empty, and unless
  \<open>server.trustxff\<close> is set its identity headers name the peer of the connection and nothing the client sent.
\<close>

theorem http_serving:
  assumes "valid_config K R k" and "main_serve K R E k = Inr run" and "runMode run = HttpMode u trust hc sem"
    and "SplitHostPort (reqRemoteAddr inp) = Inr (peer, port)"
  shows "urlParse R (kString K k ''remote.addr'') = Inr u \<and> Scheme u \<noteq> '''' \<and> Host u \<noteq> ''''
    \<and> (case serve_http esc (http_server_of K k run u) inp out of
         AnsweredHere ctype body \<Rightarrow>
           hc \<noteq> '''' \<and> Path (reqURL inp) = hc
       | Forwarded r \<Rightarrow>
           (hc = '''' \<or> Path (reqURL inp) \<noteq> hc) \<and> Scheme (reqURL r) = Scheme u \<and> Host (reqURL r) = Host u \<and> reqHost r = Host u
           \<and> (\<not> kBool K k ''server.trustxff'' \<longrightarrow> map (Header r) identity_headers
                = [Some [peer], Some [reqHost inp], Some [if isTLS inp then ''https'' else ''http''], Some [peer]]))"
proof -
  note mode = main_serve_HttpMode [OF assms(2,3)]
  have "effective_type K k \<noteq> ''tcp''" using mode(1) by (auto simp: effective_type_def)
  with assms(1) mode(2) have u: "Scheme u \<noteq> '''' \<and> Host u \<noteq> ''''"
    by (auto simp: valid_config_def valid_endpoints_def)
  have route: "Scheme (reqURL (NewRewrite esc u t inp out)) = Scheme u" "Host (reqURL (NewRewrite esc u t inp out)) = Host u" for t
    by (simp_all add: NewRewrite_frame rewriteRequestURL_def case_prod_unfold Let_def)
  show ?thesis
    using mode u route rewrite_identity [OF assms(4), of esc u out] NewRewrite_frame(2) [of esc u _ inp out]
    by (auto simp: serve_http_def http_server_of_def CheckMiddleware_def Let_def)
qed

theorem http_serving_witness:
  "\<exists>run r. main_serve flat_store demo_http_runtime demo_main_env demo_http = Inr run
    \<and> serve_http (\<lambda>u. Path u) (http_server_of flat_store demo_http run demo_url) demo_req demo_req = Forwarded r
    \<and> Host (reqURL r) = ''backend:8080'' \<and> Header r ''X-Real-Ip'' = Some [''10.0.0.9'']"
proof (rule demo_http_run)
  fix run assume run: "main_serve flat_store demo_http_runtime demo_main_env demo_http = Inr run"
    "runMode run = HttpMode demo_url False ''/up'' None"
  obtain r where r: "serve_http (\<lambda>u. Path u) (http_server_of flat_store demo_http run demo_url) demo_req demo_req = Forwarded r"
    by (simp add: serve_http_def http_server_of_def CheckMiddleware_def demo_http_def demo_req_def flat_store_simps)
  from http_serving [OF demo_http_valid run demo_split, of "\<lambda>u. Path u" demo_req]
  have "Host (reqURL r) = ''backend:8080'' \<and> Header r ''X-Real-Ip'' = Some [''10.0.0.9'']"
    unfolding r by (simp add: demo_url_def demo_http_def flat_store_simps identity_headers_def)
  with run(1) r show ?thesis by blast
qed

end
