(* ===== verification/Go_Float.thy ===== *)
theory Go_Float
  imports Complex_Main "HOL-Library.Log_Nat" "HOL-Library.Signed_Division" Go_Strings
begin

text \<open>
  Go's \<open>float64\<close> as far as the load test computes with it. A finite double is represented by the
  rational number it stands for, and every operation is the exact operation followed by rounding to 53
  binary digits, to nearest with ties to even (IEEE 754). The program divides and multiplies 64-bit
  counts and nanoseconds, whose results are zero or far inside the normal range, so overflow and
  subnormal numbers do not occur. \<open>fmt_fixed\<close> is the verb \<open>%.nf\<close>: the exact value, rounded to \<open>n\<close> decimals.
\<close>

section \<open>Rounding\<close>

definition round_even :: "rat \<Rightarrow> int" where
  "round_even x =
     (let q = \<lfloor>x\<rfloor>; d = x - of_int q in
      if d < 1/2 \<or> (d = 1/2 \<and> even q) then q else q + 1)"

text \<open>The binary exponent of a positive rational: \<open>2 ^ e \<le> x < 2 ^ (e + 1)\<close>.\<close>

definition exponent :: "rat \<Rightarrow> int" where
  "exponent x =
     (let (a, b) = quotient_of x; e = bitlen a - bitlen b in
      if 2 powi e \<le> x then e else e - 1)"

definition ulp :: "rat \<Rightarrow> rat" where
  "ulp x = 2 powi (exponent x - 52)"

definition fl64 :: "rat \<Rightarrow> rat" where
  "fl64 x = (if x = 0 then 0 else of_int (round_even (x / ulp \<bar>x\<bar>)) * ulp \<bar>x\<bar>)"

lemma round_even_of_int [simp]: "round_even (of_int n) = n"
  by (simp add: round_even_def)

lemma round_even_bounds: "\<lfloor>x\<rfloor> \<le> round_even x" "round_even x \<le> \<lfloor>x\<rfloor> + 1"
  by (simp_all add: round_even_def Let_def)

lemma round_even_mono:
  assumes "x \<le> y"
  shows "round_even x \<le> round_even y"
proof (cases "\<lfloor>x\<rfloor> = \<lfloor>y\<rfloor>")
  case True
  with assms show ?thesis by (auto simp: round_even_def Let_def)
next
  case False
  with floor_mono [OF assms] have "\<lfloor>x\<rfloor> + 1 \<le> \<lfloor>y\<rfloor>" by simp
  then show ?thesis using round_even_bounds(2) [of x] round_even_bounds(1) [of y] by linarith
qed

lemma powi_diff: "(2::rat) ^ n / 2 ^ m = 2 powi (int n - int m)"
  by (simp add: power_int_diff)

lemma exponent_bounds:
  assumes "0 < x"
  shows "2 powi (exponent x) \<le> x" "x < 2 powi (exponent x + 1)"
proof -
  obtain a b where q: "quotient_of x = (a, b)" by (cases "quotient_of x")
  have x: "x = of_int a / of_int b" and b: "0 < b" using q quotient_of_div quotient_of_denom_pos by auto
  have a: "0 < a" using assms x b by (simp add: zero_less_divide_iff)
  define n m where "n = nat (bitlen a - 1)" and "m = nat (bitlen b - 1)"
  have "bitlen a \<noteq> 0" "bitlen b \<noteq> 0" using a b by (simp_all add: bitlen_eq_zero_iff)
  then have bl: "bitlen a = int n + 1" "bitlen b = int m + 1"
    using bitlen_nonneg [of a] bitlen_nonneg [of b] by (simp_all add: n_def m_def)
  have "2 ^ n \<le> a" "a < 2 ^ (n + 1)" "2 ^ m \<le> b" "b < 2 ^ (m + 1)"
    using bitlen_bounds [OF a] bitlen_bounds [OF b] bl by (simp_all add: nat_add_distrib)
  then have ab: "(2::rat) ^ n \<le> of_int a" "of_int a < (2::rat) ^ (n + 1)" "(2::rat) ^ m \<le> of_int b" "of_int b < (2::rat) ^ (m + 1)"
    by (metis of_int_le_iff of_int_less_iff of_int_numeral of_int_power)+
  have "x < 2 ^ (n + 1) / 2 ^ m"
    unfolding x using ab a b by (intro frac_less) auto
  then have up: "x < 2 powi (int n - int m + 1)"
    unfolding powi_diff by (simp add: algebra_simps)
  have "2 ^ n / 2 ^ (m + 1) \<le> x"
    unfolding x using ab a b by (intro frac_le) auto
  then have lo: "2 powi (int n - int m - 1) \<le> x"
    unfolding powi_diff by (simp add: algebra_simps)
  show "2 powi (exponent x) \<le> x" "x < 2 powi (exponent x + 1)"
    using up lo bl by (auto simp: exponent_def q Let_def)
qed

lemma ulp_pos [simp]: "0 < ulp x"
  by (simp add: ulp_def)

lemma ulp_scale: "ulp x * 2 ^ 52 = 2 powi exponent x" "ulp x * 2 ^ 53 = 2 powi (exponent x + 1)"
proof -
  have "(2::rat) powi (exponent x - 52 + int k) = ulp x * 2 ^ k" for k
    by (simp add: ulp_def power_int_add)
  from this [of 52] this [of 53] show "ulp x * 2 ^ 52 = 2 powi exponent x" "ulp x * 2 ^ 53 = 2 powi (exponent x + 1)"
    by (simp_all add: add.commute)
qed

text \<open>A positive number is rounded within its binade.\<close>

lemma fl64_binade:
  assumes "0 < x"
  shows "2 powi exponent x \<le> fl64 x" "fl64 x \<le> 2 powi (exponent x + 1)"
proof -
  note b = exponent_bounds [OF assms, folded ulp_scale]
  have "of_int (2 ^ 52) \<le> x / ulp x" "x / ulp x \<le> of_int (2 ^ 53)"
    using b by (simp_all add: field_simps)
  from this [THEN round_even_mono] have "2 ^ 52 \<le> round_even (x / ulp x)" "round_even (x / ulp x) \<le> 2 ^ 53"
    by (simp_all only: round_even_of_int)
  then have "(2::rat) ^ 52 \<le> of_int (round_even (x / ulp x))" "of_int (round_even (x / ulp x)) \<le> (2::rat) ^ 53"
    by (metis of_int_le_iff of_int_numeral of_int_power)+
  then show "2 powi exponent x \<le> fl64 x" "fl64 x \<le> 2 powi (exponent x + 1)"
    using assms by (simp_all add: fl64_def flip: ulp_scale)
qed

lemma exponent_mono:
  assumes "0 < x" "x \<le> y"
  shows "exponent x \<le> exponent y"
proof (rule ccontr)
  assume "\<not> ?thesis"
  then have "(2::rat) powi (exponent y + 1) \<le> 2 powi exponent x" by (intro power_int_increasing) auto
  with exponent_bounds [of x] exponent_bounds [of y] assms show False by simp
qed

lemma fl64_0 [simp]: "fl64 0 = 0"
  by (simp add: fl64_def)

lemma fl64_pos: "0 < x \<Longrightarrow> 0 < fl64 x"
  using fl64_binade(1) [of x] by (meson less_le_trans zero_less_numeral zero_less_power_int)

lemma fl64_mono:
  assumes "0 \<le> x" "x \<le> y"
  shows "fl64 x \<le> fl64 y"
proof (cases "x = 0")
  case True
  then show ?thesis using assms fl64_pos [of y] by (cases "y = 0") auto
next
  case False
  with assms have pos: "0 < x" "0 < y" by auto
  show ?thesis
  proof (cases "exponent x = exponent y")
    case True
    then have "ulp x = ulp y" by (simp add: ulp_def)
    moreover have "round_even (x / ulp y) \<le> round_even (y / ulp y)"
      using assms by (intro round_even_mono divide_right_mono) (auto intro: less_imp_le)
    ultimately show ?thesis using pos by (simp add: fl64_def)
  next
    case False
    with exponent_mono [OF pos(1) assms(2)] have "(2::rat) powi (exponent x + 1) \<le> 2 powi exponent y"
      by (intro power_int_increasing) auto
    with fl64_binade(2) [OF pos(1)] fl64_binade(1) [OF pos(2)] show ?thesis by linarith
  qed
qed

lemma fl64_nonneg: "0 \<le> x \<Longrightarrow> 0 \<le> fl64 x"
  using fl64_mono [of 0 x] by simp

text \<open>Integers of up to 53 binary digits are exact.\<close>

lemma fl64_of_nat:
  assumes "n < 2 ^ 53"
  shows "fl64 (of_nat n) = of_nat n"
proof (cases "n = 0")
  case False
  then have pos: "0 < (of_nat n :: rat)" by simp
  have "\<not> 53 \<le> exponent (of_nat n)"
  proof
    assume "53 \<le> exponent (of_nat n)"
    then have "(2::rat) powi 53 \<le> 2 powi exponent (of_nat n)" by (intro power_int_increasing) auto
    with exponent_bounds(1) [OF pos] have "(2::rat) ^ 53 \<le> of_nat n" by simp
    then have "of_nat (2 ^ 53) \<le> (of_nat n :: rat)" by simp
    then show False using assms by (simp only: of_nat_le_iff)
  qed
  then obtain k where k: "exponent (of_nat n) - 52 = - int k"
    by (intro that [of "nat (52 - exponent (of_nat n))"]) simp
  have "of_nat n / ulp (of_nat n) = of_int (int n * 2 ^ k)"
    by (simp add: ulp_def k power_int_minus divide_inverse)
  then have "fl64 (of_nat n) = of_int (round_even (of_int (int n * 2 ^ k))) * ulp (of_nat n)"
    using False by (simp add: fl64_def del: of_int_mult of_int_power)
  then show ?thesis by (simp only: round_even_of_int) (simp add: ulp_def k power_int_minus)
qed simp

section \<open>Durations and formatting\<close>

text \<open>A \<open>time.Duration\<close> is a number of nanoseconds; \<open>Seconds\<close>, \<open>Minutes\<close> and \<open>Hours\<close> add the two parts in floating point.\<close>

definition dur_float :: "int \<Rightarrow> int \<Rightarrow> rat" where
  "dur_float u d = fl64 (fl64 (of_int (d sdiv u)) + fl64 (fl64 (of_int (d smod u)) / of_int u))"

definition Seconds :: "int \<Rightarrow> rat" where
  "Seconds d = dur_float 1000000000 d"

definition Minutes :: "int \<Rightarrow> rat" where
  "Minutes d = dur_float 60000000000 d"

definition Hours :: "int \<Rightarrow> rat" where
  "Hours d = dur_float 3600000000000 d"

definition Milliseconds :: "int \<Rightarrow> int" where
  "Milliseconds d = d sdiv 1000000"

text \<open>The digits of a number, filled up with zeros on the left.\<close>

definition digits_pad :: "nat \<Rightarrow> nat \<Rightarrow> string" where
  "digits_pad w n = (let s = itoa n in replicate (w - length s) CHR ''0'' @ s)"

definition fmt_fixed :: "nat \<Rightarrow> rat \<Rightarrow> string" where
  "fmt_fixed prec x =
     (let n = nat (round_even (\<bar>x\<bar> * 10 ^ prec)); sign = (if x < 0 then ''-'' else '''') in
      if prec = 0 then sign @ itoa n
      else sign @ itoa (n div 10 ^ prec) @ ''.'' @ digits_pad prec (n mod 10 ^ prec))"

end
