(* ===== verification/Load_Stats.thy ===== *)
theory Load_Stats
  imports Go_Float "HOL-Library.Multiset"
begin

text \<open>
  \<open>internal/loadtest/stats.go\<close>: the statistics of a load test. Many workers record into one \<open>Stats\<close>; the
  counters are atomic and the slices and the map are changed under a mutex, so what a worker does is a
  sequence of atomic steps (\<open>stat_step\<close>), and a run is any interleaving of such sequences. Each
  \<open>Record\<close> method is given by its steps. Writing to the map before \<open>Start\<close> has made it panics in Go: \<open>exec\<close>
  gives \<open>None\<close>. Counters are 64-bit words read as signed; a \<open>time.Duration\<close> or a point in time is a number
  of nanoseconds.
\<close>

type_synonym i64 = "64 word"

record Stats =
  connectLatency :: "int list"
  rtLatency :: "int list"
  errorBreakdown :: "(string \<rightharpoonup> i64) option"
  successCount :: i64
  errorCount :: i64
  bytesSent :: i64
  bytesReceived :: i64
  startTime :: int

text \<open>The zero value \<open>&Stats{}\<close>, and \<open>Start\<close>.\<close>

definition Stats_zero :: Stats where
  "Stats_zero = \<lparr>connectLatency = [], rtLatency = [], errorBreakdown = None, successCount = 0, errorCount = 0,
     bytesSent = 0, bytesReceived = 0, startTime = 0\<rparr>"

definition Stats_Start :: "int \<Rightarrow> Stats \<Rightarrow> Stats" where
  "Stats_Start now s = s\<lparr>startTime := now, errorBreakdown := Some Map.empty\<rparr>"

datatype stat_step =
    AppendConnect int
  | AppendRoundTrip int
  | AddSuccess
  | AddError
  | CountError string
  | AddSent i64
  | AddReceived i64

definition incr :: "(string \<rightharpoonup> i64) \<Rightarrow> string \<Rightarrow> (string \<rightharpoonup> i64)" where
  "incr m e = m(e \<mapsto> (case m e of Some n \<Rightarrow> n + 1 | None \<Rightarrow> 1))"

fun exec :: "stat_step \<Rightarrow> Stats \<Rightarrow> Stats option" where
  "exec (AppendConnect d) s = Some (s\<lparr>connectLatency := connectLatency s @ [d]\<rparr>)"
| "exec (AppendRoundTrip d) s = Some (s\<lparr>rtLatency := rtLatency s @ [d]\<rparr>)"
| "exec AddSuccess s = Some (s\<lparr>successCount := successCount s + 1\<rparr>)"
| "exec AddError s = Some (s\<lparr>errorCount := errorCount s + 1\<rparr>)"
| "exec (CountError e) s =
     (case errorBreakdown s of None \<Rightarrow> None | Some m \<Rightarrow> Some (s\<lparr>errorBreakdown := Some (incr m e)\<rparr>))"
| "exec (AddSent n) s = Some (s\<lparr>bytesSent := bytesSent s + n\<rparr>)"
| "exec (AddReceived n) s = Some (s\<lparr>bytesReceived := bytesReceived s + n\<rparr>)"

fun run_steps :: "stat_step list \<Rightarrow> Stats \<Rightarrow> Stats option" where
  "run_steps [] s = Some s"
| "run_steps (x # xs) s = (case exec x s of None \<Rightarrow> None | Some s' \<Rightarrow> run_steps xs s')"

definition RecordConnect :: "int \<Rightarrow> stat_step list" where
  "RecordConnect d = [AppendConnect d]"

definition RecordRoundTrip :: "int \<Rightarrow> stat_step list" where
  "RecordRoundTrip d = [AppendRoundTrip d]"

definition RecordSuccess :: "stat_step list" where
  "RecordSuccess = [AddSuccess]"

definition RecordError :: "string \<Rightarrow> stat_step list" where
  "RecordError errStr = [AddError, CountError errStr]"

definition RecordBytes :: "int \<Rightarrow> int \<Rightarrow> stat_step list" where
  "RecordBytes sent received = [AddSent (word_of_int sent), AddReceived (word_of_int received)]"

lemmas record_defs = RecordConnect_def RecordRoundTrip_def RecordSuccess_def RecordError_def RecordBytes_def

section \<open>Snapshot\<close>

record Result =
  resScenario :: string
  resDuration :: int
  resConcurrency :: int
  TotalRequests :: int
  RequestsPerSec :: rat
  BytesSent :: int
  BytesReceived :: int
  ThroughputMBps :: rat
  ConnectP50 :: int
  ConnectP95 :: int
  ConnectP99 :: int
  RoundTripP50 :: int
  RoundTripP95 :: int
  RoundTripP99 :: int
  RoundTripMax :: int
  ErrorCount :: int
  ErrorRate :: rat
  ErrorBreakdown :: "string \<rightharpoonup> i64"

definition percentile :: "int list \<Rightarrow> rat \<Rightarrow> int" where
  "percentile samples p =
     (let n = length samples in
      if n = 0 then 0
      else
        let idx = nat \<lfloor>fl64 (fl64 (of_nat (n - 1)) * p)\<rfloor>;
            idx = (if idx \<ge> n then n - 1 else idx)
        in samples ! idx)"

text \<open>The floating-point constants of the source.\<close>

definition p50 :: rat where "p50 = fl64 (50 / 100)"
definition p95 :: rat where "p95 = fl64 (95 / 100)"
definition p99 :: rat where "p99 = fl64 (99 / 100)"

definition Snapshot :: "int \<Rightarrow> string \<Rightarrow> int \<Rightarrow> Stats \<Rightarrow> Result" where
  "Snapshot now scenario concurrency s =
     (let duration = now - startTime s;
          connectCopy = sort (connectLatency s);
          rtCopy = sort (rtLatency s);
          errBreakdown = (case errorBreakdown s of None \<Rightarrow> Map.empty | Some m \<Rightarrow> m);
          success = successCount s;
          errors = errorCount s;
          total = sint (success + errors);
          sent = bytesSent s;
          received = bytesReceived s;
          secs = Seconds duration;
          rps = (if secs > 0 then fl64 (fl64 (of_int total) / secs) else 0);
          throughput = (if secs > 0 then fl64 (fl64 (fl64 (of_int (sint (sent + received))) / (1024 * 1024)) / secs) else 0);
          errRate = (if total > 0 then fl64 (fl64 (of_int (sint errors)) / fl64 (of_int total)) else 0);
          rtMax = (if length rtCopy > 0 then rtCopy ! (length rtCopy - 1) else 0)
      in
      \<lparr>resScenario = scenario, resDuration = duration, resConcurrency = concurrency, TotalRequests = total,
       RequestsPerSec = rps, BytesSent = sint sent, BytesReceived = sint received, ThroughputMBps = throughput,
       ConnectP50 = percentile connectCopy p50, ConnectP95 = percentile connectCopy p95, ConnectP99 = percentile connectCopy p99,
       RoundTripP50 = percentile rtCopy p50, RoundTripP95 = percentile rtCopy p95, RoundTripP99 = percentile rtCopy p99,
       RoundTripMax = rtMax, ErrorCount = sint errors, ErrorRate = errRate, ErrorBreakdown = errBreakdown\<rparr>)"

section \<open>Percentiles\<close>

text \<open>The index a percentile reads, capped as in the code.\<close>

definition pct_index :: "nat \<Rightarrow> rat \<Rightarrow> nat" where
  "pct_index n p = min (n - 1) (nat \<lfloor>fl64 (fl64 (of_nat (n - 1)) * p)\<rfloor>)"

lemma percentile_index:
  assumes "xs \<noteq> []"
  shows "percentile xs p = xs ! pct_index (length xs) p"
proof -
  have cap: "(if length xs \<le> i then length xs - 1 else i) = min (length xs - 1) i" for i
    using assms by (cases xs) (auto simp: min_def)
  show ?thesis by (simp only: percentile_def pct_index_def Let_def length_0_conv assms if_False cap)
qed

lemma percentile_Nil [simp]: "percentile [] p = 0"
  by (simp add: percentile_def)

lemma pct_index_less: "0 < n \<Longrightarrow> pct_index n p < n"
  unfolding pct_index_def by (metis One_nat_def diff_less min_less_iff_disj zero_less_one)

lemma pct_index_mono:
  assumes "0 \<le> p" "p \<le> q"
  shows "pct_index n p \<le> pct_index n q"
proof -
  have "fl64 (fl64 (of_nat (n - 1)) * p) \<le> fl64 (fl64 (of_nat (n - 1)) * q)"
    using assms by (intro fl64_mono mult_left_mono mult_nonneg_nonneg fl64_nonneg) auto
  then show ?thesis unfolding pct_index_def by (intro min.mono nat_mono floor_mono) auto
qed

text \<open>For slices of less than \<open>2 ^ 53\<close> samples the cap is never needed.\<close>

lemma pct_index_uncapped:
  assumes "n \<le> 2 ^ 53" "0 \<le> p" "p \<le> 1"
  shows "nat \<lfloor>fl64 (fl64 (of_nat (n - 1)) * p)\<rfloor> \<le> n - 1"
proof -
  have n: "n - 1 < 2 ^ 53" using assms(1) by simp
  have "fl64 (of_nat (n - 1) * p) \<le> fl64 (of_nat (n - 1))"
    using assms by (intro fl64_mono mult_nonneg_nonneg) (auto intro: mult_left_le)
  then have "fl64 (fl64 (of_nat (n - 1)) * p) \<le> of_int (int (n - 1))" by (simp only: fl64_of_nat [OF n] of_int_of_nat_eq)
  then have "\<lfloor>fl64 (fl64 (of_nat (n - 1)) * p)\<rfloor> \<le> int (n - 1)" by (metis floor_mono floor_of_int)
  then show ?thesis by simp
qed

lemma percentile_mono:
  assumes "sorted xs" "0 \<le> p" "p \<le> q"
  shows "percentile xs p \<le> percentile xs q"
  using assms pct_index_mono [OF assms(2,3), of "length xs"] pct_index_less [of "length xs"]
  by (cases "xs = []") (auto simp: percentile_index intro: sorted_nth_mono)

lemma percentile_le_last:
  assumes "sorted xs" "xs \<noteq> []"
  shows "percentile xs p \<le> xs ! (length xs - 1)"
  using assms pct_index_less [of "length xs" p] by (auto simp: percentile_index intro!: sorted_nth_mono)

lemma p_values: "0 \<le> p50" "p50 \<le> p95" "p95 \<le> p99" "p99 \<le> 1"
proof -
  show "0 \<le> p50" by (simp add: p50_def fl64_nonneg)
  show "p50 \<le> p95" "p95 \<le> p99" by (simp_all add: p50_def p95_def p99_def fl64_mono)
  have "fl64 (99 / 100) \<le> fl64 (of_nat 1)" by (intro fl64_mono) auto
  also have "\<dots> = 1" by (subst fl64_of_nat) auto
  finally show "p99 \<le> 1" by (simp add: p99_def)
qed

section \<open>Interleavings\<close>

text \<open>What a sequence of steps adds, in a form that does not depend on their order.\<close>

definition connects :: "stat_step list \<Rightarrow> int list" where
  "connects xs = concat (map (\<lambda>x. case x of AppendConnect d \<Rightarrow> [d] | _ \<Rightarrow> []) xs)"

definition roundtrips :: "stat_step list \<Rightarrow> int list" where
  "roundtrips xs = concat (map (\<lambda>x. case x of AppendRoundTrip d \<Rightarrow> [d] | _ \<Rightarrow> []) xs)"

definition sent_total :: "stat_step list \<Rightarrow> i64" where
  "sent_total xs = sum_list (map (\<lambda>x. case x of AddSent n \<Rightarrow> n | _ \<Rightarrow> 0) xs)"

definition received_total :: "stat_step list \<Rightarrow> i64" where
  "received_total xs = sum_list (map (\<lambda>x. case x of AddReceived n \<Rightarrow> n | _ \<Rightarrow> 0) xs)"

definition count_errors :: "stat_step list \<Rightarrow> (string \<rightharpoonup> i64) \<Rightarrow> (string \<rightharpoonup> i64)" where
  "count_errors xs m =
     (\<lambda>e. let c = count_list xs (CountError e) in
          if c = 0 then m e else Some ((case m e of Some n \<Rightarrow> n | None \<Rightarrow> 0) + word_of_nat c))"

lemmas total_defs = connects_def roundtrips_def sent_total_def received_total_def

lemma count_errors_CountError: "count_errors xs (incr m e) = count_errors (CountError e # xs) m"
  by (rule ext) (auto simp: count_errors_def incr_def Let_def split: option.split)

lemma count_errors_other: "(\<And>e. x \<noteq> CountError e) \<Longrightarrow> count_errors (x # xs) m = count_errors xs m"
  by (rule ext) (simp add: count_errors_def)

lemma run_steps_eq:
  "errorBreakdown s = Some m \<Longrightarrow>
   run_steps xs s = Some (s\<lparr>connectLatency := connectLatency s @ connects xs, rtLatency := rtLatency s @ roundtrips xs,
     errorBreakdown := Some (count_errors xs m), successCount := successCount s + word_of_nat (count_list xs AddSuccess),
     errorCount := errorCount s + word_of_nat (count_list xs AddError),
     bytesSent := bytesSent s + sent_total xs, bytesReceived := bytesReceived s + received_total xs\<rparr>)"
proof (induction xs arbitrary: s m)
  case Nil
  have "count_errors [] m = m" by (rule ext) (simp add: count_errors_def)
  with Nil show ?case by (simp add: total_defs)
next
  case (Cons x xs)
  obtain s' m' where s': "exec x s = Some s'" "errorBreakdown s' = Some m'"
    using Cons.prems by (cases x) (auto split: option.splits)
  show ?case
    unfolding run_steps.simps s'(1) option.case Cons.IH [OF s'(2)]
    using s' Cons.prems count_errors_CountError count_errors_other
    by (cases x) (auto simp: total_defs algebra_simps)
qed

lemma mset_concat_map: "mset xs = mset ys \<Longrightarrow> mset (concat (map f xs)) = mset (concat (map f ys))"
  by (metis mset_concat mset_map sum_mset_sum_list)

lemma totals_perm:
  assumes "mset xs = mset ys"
  shows "mset (connects xs) = mset (connects ys)" "mset (roundtrips xs) = mset (roundtrips ys)"
    "count_list xs x = count_list ys x" "count_errors xs = count_errors ys"
    "sent_total xs = sent_total ys" "received_total xs = received_total ys"
proof -
  show c: "count_list xs x = count_list ys x" for x using assms by (metis count_mset)
  then show "count_errors xs = count_errors ys" by (simp add: count_errors_def fun_eq_iff)
  have "sum_list (map f xs) = sum_list (map f ys)" for f :: "stat_step \<Rightarrow> i64"
    using assms by (metis mset_map sum_mset_sum_list)
  then show "sent_total xs = sent_total ys" "received_total xs = received_total ys" by (simp_all add: total_defs)
  show "mset (connects xs) = mset (connects ys)" "mset (roundtrips xs) = mset (roundtrips ys)"
    unfolding total_defs by (rule mset_concat_map [OF assms])+
qed

lemma Snapshot_cong:
  assumes "sort (connectLatency s) = sort (connectLatency t)" "sort (rtLatency s) = sort (rtLatency t)"
    "errorBreakdown s = errorBreakdown t" "successCount s = successCount t" "errorCount s = errorCount t"
    "bytesSent s = bytesSent t" "bytesReceived s = bytesReceived t" "startTime s = startTime t"
  shows "Snapshot now scenario concurrency s = Snapshot now scenario concurrency t"
  unfolding Snapshot_def assms ..

lemma sort_Nil_iff [simp]: "sort xs = [] \<longleftrightarrow> xs = []"
  by (metis length_0_conv length_sort)

lemma sort_perm: "mset xs = mset ys \<Longrightarrow> sort xs = sort ys"
  by (metis sorted_list_of_multiset_mset)

section \<open>Properties\<close>



text \<open>
  C33. The report does not depend on the schedule: two interleavings of the same recording steps, from any
  started statistics, both complete and give the same snapshot.
\<close>

theorem Snapshot_schedule_independent:
  assumes "errorBreakdown s = Some m" and "mset xs = mset ys"
  shows "\<exists>sx sy. run_steps xs s = Some sx \<and> run_steps ys s = Some sy
    \<and> Snapshot now scenario concurrency sx = Snapshot now scenario concurrency sy"
proof -
  note p = totals_perm [OF assms(2)]
  have sorts: "sort (connectLatency s @ connects xs) = sort (connectLatency s @ connects ys)"
    "sort (rtLatency s @ roundtrips xs) = sort (rtLatency s @ roundtrips ys)"
    using p(1,2) by (auto intro!: sort_perm)
  show ?thesis
    unfolding run_steps_eq [OF assms(1)] option.inject
    by (intro exI conjI, rule refl, rule refl, rule Snapshot_cong) (simp_all add: p(3-6) sorts)
qed

theorem Snapshot_schedule_independent_witness:
  "\<exists>sx sy. run_steps (RecordRoundTrip 3 @ RecordError ''dial'') (Stats_Start 0 Stats_zero) = Some sx
     \<and> run_steps [AddError, AppendRoundTrip 3, CountError ''dial''] (Stats_Start 0 Stats_zero) = Some sy
     \<and> Snapshot 9 ''x'' 2 sx = Snapshot 9 ''x'' 2 sy"
  by (rule Snapshot_schedule_independent) (simp_all add: Stats_Start_def record_defs)

end
