(* ===== verification/Load_Generator.thy ===== *)
theory Load_Generator
  imports Load_Stats
begin

text \<open>
  \<open>internal/loadtest/generator.go\<close>: the TCP and HTTP workers. A worker's environment is the list of what
  happens in its turns: \<open>None\<close> when the select finds the context done, otherwise the outcomes of the calls
  of one attempt. A worker gives the recording steps it performs, the connections it opens and closes,
  and how it ends: returned, blocked in a read for which no outcome has come, or still looping. The workers
  of a run share one \<open>Stats\<close> and their steps interleave freely. Errors are their texts.
\<close>

definition defaultPayloadSize :: int where
  "defaultPayloadSize = 1024"

datatype conn_act = Opened | Closed

datatype worker_end = Returned | Blocked | Looping

section \<open>TCP workers\<close>

record tcp_try =
  dialOutcome :: "string + int"
  writeErr :: "string option"
  readOutcomes :: "(nat \<times> string option) list"
  tryTime :: int

text \<open>The loop that reads the echo: \<open>None\<close> while it waits for a read.\<close>

fun read_loop :: "nat \<Rightarrow> nat \<Rightarrow> (nat \<times> string option) list \<Rightarrow> (nat \<times> string option) option" where
  "read_loop len received [] = (if received < len then None else Some (received, None))"
| "read_loop len received ((n, readErr) # rs) =
     (if received < len then
        (case readErr of
           Some e \<Rightarrow> Some (received + n, Some e)
         | None \<Rightarrow> read_loop len (received + n) rs)
      else Some (received, None))"

text \<open>One turn of the loop: recorded steps, connections, and whether it came to its end.\<close>

definition tcp_turn :: "nat \<Rightarrow> tcp_try \<Rightarrow> stat_step list \<times> conn_act list \<times> bool" where
  "tcp_turn len t =
     (case dialOutcome t of
        Inl e \<Rightarrow> (RecordError (''dial: '' @ e), [], True)
      | Inr d \<Rightarrow>
          (case writeErr t of
             Some e \<Rightarrow> (RecordConnect d @ RecordError (''write: '' @ e), [Opened, Closed], True)
           | None \<Rightarrow>
               (case read_loop len 0 (readOutcomes t) of
                  None \<Rightarrow> (RecordConnect d, [Opened], False)
                | Some (received, Some e) \<Rightarrow> (RecordConnect d @ RecordError (''read: '' @ e), [Opened, Closed], True)
                | Some (received, None) \<Rightarrow>
                    (RecordConnect d @ RecordRoundTrip (tryTime t) @ RecordBytes (int len) (int received) @ RecordSuccess,
                     [Opened, Closed], True))))"

fun tcpWorker :: "nat \<Rightarrow> tcp_try option list \<Rightarrow> stat_step list \<times> conn_act list \<times> worker_end" where
  "tcpWorker len [] = ([], [], Looping)"
| "tcpWorker len (None # ts) = ([], [], Returned)"
| "tcpWorker len (Some t # ts) =
     (let (xs, cs, finished) = tcp_turn len t in
      if finished then (let (ys, ds, e) = tcpWorker len ts in (xs @ ys, cs @ ds, e)) else (xs, cs, Blocked))"

text \<open>\<open>Run\<close>: the payload size, and one worker per environment in \<open>envs\<close>.\<close>

definition tcp_size :: "int \<Rightarrow> nat" where
  "tcp_size payloadSize = nat (if payloadSize \<le> 0 then defaultPayloadSize else payloadSize)"

definition TCP_Run :: "int \<Rightarrow> tcp_try option list list \<Rightarrow> (stat_step list \<times> conn_act list \<times> worker_end) list" where
  "TCP_Run payloadSize envs = map (tcpWorker (tcp_size payloadSize)) envs"

section \<open>HTTP workers\<close>

text \<open>Errors of \<open>Do\<close> and of reading the body come with whether the context is done by then.\<close>

record http_try =
  newRequestErr :: "string option"
  doErr :: "(string \<times> bool) option"
  bodyOutcome :: "(string \<times> bool) + nat"
  httpTime :: int
  httpTime2 :: int

definition http_turn :: "nat \<Rightarrow> http_try \<Rightarrow> stat_step list \<times> bool" where
  "http_turn len t =
     (case newRequestErr t of
        Some e \<Rightarrow> (RecordError (''request: '' @ e), True)
      | None \<Rightarrow>
          (case doErr t of
             Some (e, cancelled) \<Rightarrow> if cancelled then ([], False) else (RecordError (''do: '' @ e), True)
           | None \<Rightarrow>
               (case bodyOutcome t of
                  Inl (e, cancelled) \<Rightarrow> if cancelled then ([], False) else (RecordError (''read body: '' @ e), True)
                | Inr n \<Rightarrow>
                    (RecordRoundTrip (httpTime t) @ RecordConnect (httpTime2 t) @ RecordBytes (int len) (int n) @ RecordSuccess,
                     True))))"

fun httpWorker :: "nat \<Rightarrow> http_try option list \<Rightarrow> stat_step list \<times> worker_end" where
  "httpWorker len [] = ([], Looping)"
| "httpWorker len (None # ts) = ([], Returned)"
| "httpWorker len (Some t # ts) =
     (let (xs, again) = http_turn len t in
      if again then (let (ys, e) = httpWorker len ts in (xs @ ys, e)) else (xs, Returned))"

definition http_size :: "int \<Rightarrow> nat" where
  "http_size payloadSize = nat (if payloadSize < 0 then 0 else payloadSize)"

definition http_method :: "nat \<Rightarrow> string" where
  "http_method len = (if len > 0 then ''POST'' else ''GET'')"

definition HTTP_Run :: "int \<Rightarrow> http_try option list list \<Rightarrow> (stat_step list \<times> worker_end) list" where
  "HTTP_Run payloadSize envs = map (httpWorker (http_size payloadSize)) envs"

section \<open>Interleaving\<close>

inductive interleaves :: "'a list list \<Rightarrow> 'a list \<Rightarrow> bool" where
  interleaves_done: "\<forall>xs \<in> set xss. xs = [] \<Longrightarrow> interleaves xss []"
| interleaves_step: "i < length xss \<Longrightarrow> xss ! i = y # ys \<Longrightarrow> interleaves (xss[i := ys]) zs \<Longrightarrow> interleaves xss (y # zs)"

lemma mset_concat_update:
  assumes "i < length xss" "xss ! i = y # ys"
  shows "mset (concat xss) = add_mset y (mset (concat (xss[i := ys])))"
proof -
  have "xss = take i xss @ (y # ys) # drop (Suc i) xss" using assms by (metis id_take_nth_drop)
  then have "mset (concat xss) = mset (concat (take i xss @ (y # ys) # drop (Suc i) xss))" by (rule arg_cong)
  then show ?thesis using assms by (simp add: upd_conv_take_nth_drop)
qed

lemma interleaves_mset: "interleaves xss zs \<Longrightarrow> mset zs = mset (concat xss)"
  by (induction rule: interleaves.induct) (auto simp: mset_concat_update concat_eq_Nil_conv)

section \<open>Accounting of a worker\<close>

text \<open>What one finished attempt records: one verdict, a round trip exactly with a success, all connections closed.\<close>

definition accounted :: "nat \<Rightarrow> stat_step list \<Rightarrow> nat \<Rightarrow> bool" where
  "accounted len xs tries \<longleftrightarrow>
     count_list xs AddSuccess + count_list xs AddError = tries
     \<and> length (roundtrips xs) = count_list xs AddSuccess
     \<and> length (filter (\<lambda>x. \<exists>e. x = CountError e) xs) = count_list xs AddError
     \<and> sent_total xs = word_of_nat (count_list xs AddSuccess * len)"

lemma accounted_Nil [simp]: "accounted len [] 0"
  by (simp add: accounted_def total_defs)

lemma totals_append [simp]:
  "connects (xs @ ys) = connects xs @ connects ys" "roundtrips (xs @ ys) = roundtrips xs @ roundtrips ys"
  "sent_total (xs @ ys) = sent_total xs + sent_total ys" "received_total (xs @ ys) = received_total xs + received_total ys"
  by (simp_all add: total_defs)

lemma accounted_append:
  "accounted len xs a \<Longrightarrow> accounted len ys b \<Longrightarrow> accounted len (xs @ ys) (a + b)"
  by (simp add: accounted_def algebra_simps)

lemma accounted_perm:
  assumes "mset xs = mset ys"
  shows "accounted len xs n \<longleftrightarrow> accounted len ys n"
proof -
  have "length (filter P xs) = length (filter P ys)" for P by (metis assms mset_filter size_mset)
  moreover have "length (roundtrips xs) = length (roundtrips ys)" by (metis assms totals_perm(2) size_mset)
  ultimately show ?thesis unfolding accounted_def totals_perm(3,5) [OF assms] by simp
qed

lemma record_accounted:
  "accounted len (RecordError e) 1"
  "accounted len (RecordConnect d) 0"
  "accounted len (RecordRoundTrip d @ RecordBytes (int len) n @ RecordSuccess) 1"
  by (simp_all add: accounted_def record_defs total_defs)

lemma tcp_turn_accounted:
  assumes "tcp_turn len t = (xs, cs, True)"
  shows "accounted len xs 1" "count_list cs Opened = count_list cs Closed"
proof -
  note c = accounted_append [OF record_accounted(2) record_accounted(1)] accounted_append [OF record_accounted(2) record_accounted(3)]
  from assms c show "accounted len xs 1"
    by (auto simp: tcp_turn_def record_accounted [simplified] split: sum.splits option.splits)
  from assms show "count_list cs Opened = count_list cs Closed"
    by (auto simp: tcp_turn_def split: sum.splits option.splits)
qed

definition attempts :: "'t option list \<Rightarrow> 't list" where
  "attempts ts = map the (takeWhile (\<lambda>t. t \<noteq> None) ts)"

lemma attempts_simps [simp]:
  "attempts [] = []" "attempts (None # ts) = []" "attempts (Some t # ts) = t # attempts ts"
  by (simp_all add: attempts_def)

lemma tcpWorker_accounted:
  "tcpWorker len ts = (xs, cs, e) \<Longrightarrow> e \<noteq> Blocked \<Longrightarrow>
     accounted len xs (length (attempts ts)) \<and> count_list cs Opened = count_list cs Closed"
proof (induction ts arbitrary: xs cs)
  case (Cons a ts)
  show ?case
  proof (cases a)
    case (Some t)
    obtain ys ds b where turn: "tcp_turn len t = (ys, ds, b)" by (cases "tcp_turn len t")
    obtain zs es e' where rest: "tcpWorker len ts = (zs, es, e')" by (cases "tcpWorker len ts")
    have b: "b = True" using Cons.prems Some turn by (auto simp: Let_def split: if_splits)
    with Cons.prems turn rest Some have eq: "xs = ys @ zs" "cs = ds @ es" "e = e'" by simp_all
    from Cons.IH [OF rest [folded eq(3)] Cons.prems(2)]
    have "accounted len zs (length (attempts ts))" "count_list es Opened = count_list es Closed" by simp_all
    with accounted_append [OF tcp_turn_accounted(1) [OF turn [unfolded b]]] tcp_turn_accounted(2) [OF turn [unfolded b]] eq Some
    show ?thesis by simp
  qed (use Cons.prems in simp)
qed simp

lemma http_turn_accounted:
  "http_turn len t = (xs, True) \<Longrightarrow> accounted len xs 1" "http_turn len t = (xs, False) \<Longrightarrow> accounted len xs 0"
  by (auto simp: http_turn_def accounted_def record_defs total_defs split: option.splits sum.splits if_splits)

lemma httpWorker_accounted:
  "httpWorker len ts = (xs, e) \<Longrightarrow> \<exists>n \<le> length (attempts ts). accounted len xs n"
proof (induction ts arbitrary: xs)
  case (Cons a ts)
  show ?case
  proof (cases a)
    case (Some t)
    obtain ys b where turn: "http_turn len t = (ys, b)" by (cases "http_turn len t")
    obtain zs e' where rest: "httpWorker len ts = (zs, e')" by (cases "httpWorker len ts")
    show ?thesis
    proof (cases b)
      case True
      with Cons.prems turn rest Some have eq: "xs = ys @ zs" "e = e'" by simp_all
      from Cons.IH [OF rest [folded eq(2)]] obtain n where "n \<le> length (attempts ts)" "accounted len zs n" by blast
      with accounted_append [OF http_turn_accounted(1) [OF turn [unfolded eqTrueI [OF True]]]] eq Some
      show ?thesis by (intro exI [of _ "1 + n"]) simp
    next
      case False
      then have "accounted len xs 0" using Cons.prems turn Some http_turn_accounted(2) [of len t ys] by simp
      then show ?thesis by blast
    qed
  qed (use Cons.prems in simp)
qed simp

section \<open>Properties\<close>

lemma sint_word_of_nat: "n < 2 ^ 63 \<Longrightarrow> sint (word_of_nat n :: i64) = int n"
  by (simp add: signed_of_nat signed_take_bit_int_eq_self)

lemma ratio_le_1:
  assumes "0 \<le> a" "a \<le> b" "0 < b"
  shows "0 \<le> fl64 (fl64 a / fl64 b)" "fl64 (fl64 a / fl64 b) \<le> 1"
proof -
  have ab: "0 \<le> fl64 a / fl64 b" "fl64 a / fl64 b \<le> 1"
    using assms fl64_mono [of a b] fl64_nonneg [of a] fl64_pos [of b] by (simp_all add: divide_le_eq)
  then show "0 \<le> fl64 (fl64 a / fl64 b)" by (simp add: fl64_nonneg)
  have "fl64 (fl64 a / fl64 b) \<le> fl64 (of_nat 1)" using ab by (intro fl64_mono) auto
  also have "\<dots> = 1" by (subst fl64_of_nat) auto
  finally show "fl64 (fl64 a / fl64 b) \<le> 1" .
qed

definition tried :: "'t option list list \<Rightarrow> nat" where
  "tried envs = sum_list (map (length \<circ> attempts) envs)"

lemma TCP_Run_accounted:
  assumes "\<forall>w \<in> set (TCP_Run payload envs). snd (snd w) \<noteq> Blocked"
  shows "accounted (tcp_size payload) (concat (map fst (TCP_Run payload envs))) (tried envs)
    \<and> (\<forall>w \<in> set (TCP_Run payload envs). count_list (fst (snd w)) Opened = count_list (fst (snd w)) Closed)"
  using assms
proof (induction envs)
  case (Cons ts envs)
  obtain xs cs e where w: "tcpWorker (tcp_size payload) ts = (xs, cs, e)" by (cases "tcpWorker (tcp_size payload) ts")
  from Cons.prems w have "e \<noteq> Blocked" by (simp add: TCP_Run_def)
  from tcpWorker_accounted [OF w this] Cons w show ?case
    by (simp add: TCP_Run_def tried_def accounted_append)
qed (simp add: TCP_Run_def tried_def)

lemma Snapshot_counts:
  "TotalRequests (Snapshot now name c s) = sint (successCount s + errorCount s)"
  "ErrorCount (Snapshot now name c s) = sint (errorCount s)"
  "ErrorRate (Snapshot now name c s) =
     (if 0 < sint (successCount s + errorCount s)
      then fl64 (fl64 (of_int (sint (errorCount s))) / fl64 (of_int (sint (successCount s + errorCount s)))) else 0)"
  by (simp_all add: Snapshot_def Let_def)

lemma accounted_snapshot:
  assumes "accounted len xs n" "n < 2 ^ 63"
  obtains s where "run_steps xs (Stats_Start t0 Stats_zero) = Some s"
    "TotalRequests (Snapshot now name c s) = int n" "0 \<le> ErrorCount (Snapshot now name c s)"
    "int (length (rtLatency s)) = int n - ErrorCount (Snapshot now name c s)"
    "bytesSent s = word_of_nat (length (rtLatency s) * len)"
    "0 \<le> ErrorRate (Snapshot now name c s)" "ErrorRate (Snapshot now name c s) \<le> 1"
proof -
  have start: "errorBreakdown (Stats_Start t0 Stats_zero) = Some Map.empty" by (simp add: Stats_Start_def)
  define a b where "a = count_list xs AddSuccess" and "b = count_list xs AddError"
  have n: "n = a + b" "length (roundtrips xs) = a" "sent_total xs = word_of_nat (a * len)"
    using assms(1) by (simp_all add: accounted_def a_def b_def)
  have tot: "(word_of_nat a + word_of_nat b :: i64) = word_of_nat n" by (simp add: n)
  have sints: "sint (word_of_nat n :: i64) = int n" "sint (word_of_nat b :: i64) = int b"
    by (rule sint_word_of_nat, use assms(2) n(1) in linarith)+
  obtain s where run: "run_steps xs (Stats_Start t0 Stats_zero) = Some s" and f: "rtLatency s = roundtrips xs"
    "successCount s = word_of_nat a" "errorCount s = word_of_nat b" "bytesSent s = sent_total xs"
    using run_steps_eq [OF start, of xs] by (simp add: Stats_Start_def Stats_zero_def a_def b_def)
  have counts: "TotalRequests (Snapshot now name c s) = int n" "ErrorCount (Snapshot now name c s) = int b"
    "ErrorRate (Snapshot now name c s) = (if 0 < n then fl64 (fl64 (of_nat b) / fl64 (of_nat n)) else 0)"
    by (simp_all only: Snapshot_counts f tot sints of_int_of_nat_eq of_nat_0_less_iff)
  have "0 \<le> ErrorRate (Snapshot now name c s) \<and> ErrorRate (Snapshot now name c s) \<le> 1"
    using ratio_le_1 [of "of_nat b" "of_nat n"] n(1) unfolding counts by auto
  moreover have "bytesSent s = word_of_nat (length (rtLatency s) * len)" by (simp only: f n)
  moreover have "int (length (rtLatency s)) = int n - ErrorCount (Snapshot now name c s)" by (simp add: f n counts)
  ultimately show ?thesis using run counts by (intro that) auto
qed

text \<open>A worker whose peer stops answering stays blocked: the context is looked at only between attempts.\<close>

lemma tcpWorker_blocked:
  assumes "dialOutcome t = Inr d" "writeErr t = None" "read_loop len 0 (readOutcomes t) = None"
  shows "snd (snd (tcpWorker len (Some t # ts))) = Blocked"
  using assms by (simp add: tcp_turn_def)


definition demo_try :: tcp_try where
  "demo_try = \<lparr>dialOutcome = Inr 7, writeErr = None, readOutcomes = [(1000, None), (24, None)], tryTime = 5\<rparr>"

definition demo_envs :: "tcp_try option list list" where
  "demo_envs = [[Some demo_try, Some (demo_try\<lparr>dialOutcome := Inl ''refused''\<rparr>), None], [None]]"

definition demo_steps :: "stat_step list" where
  "demo_steps = [AppendConnect 7, AppendRoundTrip 5, AddSent 1024, AddReceived 1024, AddSuccess, AddError, CountError ''dial: refused'']"

lemma demo_TCP_Run: "TCP_Run 0 demo_envs = [(demo_steps, [Opened, Closed], Returned), ([], [], Returned)]"
  by (simp add: TCP_Run_def demo_envs_def demo_steps_def demo_try_def tcp_turn_def tcp_size_def defaultPayloadSize_def record_defs)

lemma interleaves_single: "interleaves [xs, []] xs"
proof (induction xs)
  case (Cons x xs)
  then show ?case using interleaves_step [of 0 "[x # xs, []]" x xs xs] by simp
qed (simp add: interleaves_done)


end
