(* ===== verification/Load_Report.thy ===== *)
theory Load_Report
  imports Load_Stats
begin

text \<open>
  \<open>internal/loadtest/report.go\<close>: the text and JSON reports, as the bytes that are written. Strings are UTF-8
  byte strings, as in Go; the widths of \<open>fmt\<close> count runes. A Go map is iterated in any order: the printer takes
  the entries of the error breakdown in the order of the iteration. \<open>Duration.String\<close> and the JSON encoder are
  arguments.
\<close>

section \<open>Formatting\<close>

definition NL :: string where
  "NL = [CHR 0x0A]"

definition durationMs :: "int \<Rightarrow> rat" where
  "durationMs d = fl64 (fl64 (of_int d) / fl64 1000000)"

definition formatMs :: "int \<Rightarrow> string" where
  "formatMs d = fmt_fixed 2 (durationMs d) @ ''ms''"

fun comma_loop :: "string \<Rightarrow> string" where
  "comma_loop [] = []"
| "comma_loop (d # ds) = CHR '','' # take 3 (d # ds) @ comma_loop (drop 3 (d # ds))"

definition addCommas :: "string \<Rightarrow> string" where
  "addCommas s =
     (if s = [] then s
      else
        let start = (if s ! 0 = CHR ''-'' then 1 else 0);
            digits = drop start s;
            n = length digits
        in if n \<le> 3 then s
           else let first = (if n mod 3 = 0 then 3 else n mod 3) in
                take start s @ take first digits @ comma_loop (drop first digits))"

definition formatInt :: "int \<Rightarrow> string" where
  "formatInt n = addCommas (itoa_int n)"

text \<open>\<open>SplitN(whole, ".", 2)\<close>: before and after the first dot, if there is one.\<close>

definition splitn_dot :: "string \<Rightarrow> string list" where
  "splitn_dot s =
     (let a = takeWhile (\<lambda>c. c \<noteq> CHR ''.'') s in
      if length a < length s then [a, drop (Suc (length a)) s] else [s])"

definition formatFloat :: "rat \<Rightarrow> string" where
  "formatFloat f =
     (let parts = splitn_dot (fmt_fixed 1 f); intPart = addCommas (parts ! 0) in
      if length parts = 2 then intPart @ ''.'' @ parts ! 1 else intPart)"

definition formatDurationShort :: "int \<Rightarrow> string" where
  "formatDurationShort d =
     (if d \<ge> 3600000000000 then fmt_fixed 0 (Hours d) @ ''h''
      else if d \<ge> 60000000000 then fmt_fixed 0 (Minutes d) @ ''m''
      else if d \<ge> 1000000000 then fmt_fixed 0 (Seconds d) @ ''s''
      else itoa_int (Milliseconds d) @ ''ms'')"

definition ellipsis :: string where
  "ellipsis = [CHR 0xE2, CHR 0x80, CHR 0xA6]"

text \<open>\<open>None\<close> where the slice expression panics, for a negative limit.\<close>

definition truncate_str :: "string \<Rightarrow> int \<Rightarrow> string option" where
  "truncate_str s maxLen =
     (if int (length s) \<le> maxLen then Some s
      else if maxLen \<le> 1 then (if maxLen < 0 then None else Some (take (nat maxLen) s))
      else Some (take (nat (maxLen - 1)) s @ ellipsis))"

section \<open>Reports\<close>

text \<open>\<open>%10s\<close> and \<open>%-20s\<close>: runes are counted as bytes that do not continue a character.\<close>

definition continuation :: "char \<Rightarrow> bool" where
  "continuation c \<longleftrightarrow> 0x80 \<le> (of_char c :: nat) \<and> (of_char c :: nat) < 0xC0"

definition rune_count :: "string \<Rightarrow> nat" where
  "rune_count s = length (filter (\<lambda>c. \<not> continuation c) s)"

definition padL :: "nat \<Rightarrow> string \<Rightarrow> string" where
  "padL w s = replicate (w - rune_count s) CHR '' '' @ s"

definition padR :: "nat \<Rightarrow> string \<Rightarrow> string" where
  "padR w s = s @ replicate (w - rune_count s) CHR '' ''"

definition percent :: "rat \<Rightarrow> rat" where
  "percent x = fl64 (x * 100)"

definition PrintText :: "Result \<Rightarrow> (string \<times> i64) list \<Rightarrow> string" where
  "PrintText r entries =
     ''=== '' @ resScenario r @ '' ('' @ formatDurationShort (resDuration r) @ '', '' @ itoa_int (resConcurrency r) @ '' workers) ==='' @ NL
     @ ''  Throughput:    '' @ formatFloat (RequestsPerSec r) @ '' req/s | '' @ fmt_fixed 2 (ThroughputMBps r) @ '' MB/s'' @ NL
     @ ''  Latency p50/p95/p99/max: '' @ formatMs (RoundTripP50 r) @ '' / '' @ formatMs (RoundTripP95 r) @ '' / ''
       @ formatMs (RoundTripP99 r) @ '' / '' @ formatMs (RoundTripMax r) @ NL
     @ ''  Connect p50/p95/p99: '' @ formatMs (ConnectP50 r) @ '' / '' @ formatMs (ConnectP95 r) @ '' / '' @ formatMs (ConnectP99 r) @ NL
     @ ''  Errors: '' @ formatInt (ErrorCount r) @ '' ('' @ fmt_fixed 2 (percent (ErrorRate r)) @ ''%)'' @ NL
     @ concat (map (\<lambda>(errType, count). ''    - '' @ errType @ '': '' @ formatInt (sint count) @ NL) entries)"

record jsonResult =
  jScenario :: string
  jDuration :: string
  jConcurrency :: int
  jTotalRequests :: int
  jRequestsPerSec :: rat
  jBytesSent :: int
  jBytesReceived :: int
  jThroughputMBps :: rat
  jConnectP50Ms :: rat
  jConnectP95Ms :: rat
  jConnectP99Ms :: rat
  jRoundTripP50Ms :: rat
  jRoundTripP95Ms :: rat
  jRoundTripP99Ms :: rat
  jRoundTripMaxMs :: rat
  jErrorCount :: int
  jErrorRate :: rat
  jErrorBreakdown :: "string \<rightharpoonup> i64"

definition json_result :: "(int \<Rightarrow> string) \<Rightarrow> Result \<Rightarrow> jsonResult" where
  "json_result durString r =
     \<lparr>jScenario = resScenario r, jDuration = durString (resDuration r), jConcurrency = resConcurrency r,
      jTotalRequests = TotalRequests r, jRequestsPerSec = RequestsPerSec r, jBytesSent = BytesSent r,
      jBytesReceived = BytesReceived r, jThroughputMBps = ThroughputMBps r,
      jConnectP50Ms = durationMs (ConnectP50 r), jConnectP95Ms = durationMs (ConnectP95 r),
      jConnectP99Ms = durationMs (ConnectP99 r), jRoundTripP50Ms = durationMs (RoundTripP50 r),
      jRoundTripP95Ms = durationMs (RoundTripP95 r), jRoundTripP99Ms = durationMs (RoundTripP99 r),
      jRoundTripMaxMs = durationMs (RoundTripMax r), jErrorCount = ErrorCount r, jErrorRate = ErrorRate r,
      jErrorBreakdown = ErrorBreakdown r\<rparr>"

definition PrintJSON :: "(jsonResult list \<Rightarrow> string option) \<Rightarrow> (int \<Rightarrow> string) \<Rightarrow> Result list \<Rightarrow> string option" where
  "PrintJSON encode durString results = encode (map (json_result durString) results)"

definition rule_line :: string where
  "rule_line = concat (replicate 100 [CHR 0xE2, CHR 0x94, CHR 0x80])"

definition summary_line :: "string \<Rightarrow> string list \<Rightarrow> string \<Rightarrow> string" where
  "summary_line name cells err = padR 20 name @ concat (map (\<lambda>c. '' '' @ padL 10 c) cells) @ '' '' @ err"

definition summary_row :: "Result \<Rightarrow> string" where
  "summary_row r =
     summary_line (the (truncate_str (resScenario r) 20))
       [formatFloat (RequestsPerSec r), fmt_fixed 2 (ThroughputMBps r), formatMs (RoundTripP50 r),
        formatMs (RoundTripP99 r), formatInt (ErrorCount r)]
       (padL 9 (fmt_fixed 2 (percent (ErrorRate r))) @ ''%'') @ NL"

definition PrintSummary :: "Result list \<Rightarrow> string" where
  "PrintSummary results =
     (if results = [] then []
      else NL @ ''Summary'' @ NL @ rule_line @ NL
           @ summary_line ''Scenario'' [''Req/s'', ''MB/s'', ''P50'', ''P99'', ''Errors''] (padL 10 ''Err%'') @ NL
           @ rule_line @ NL @ concat (map summary_row results) @ rule_line @ NL)"

section \<open>Grouping of digits\<close>

lemma comma_loop_groups:
  assumes "length ds mod 3 = 0"
  shows "\<exists>gs. comma_loop ds = concat (map (\<lambda>g. CHR '','' # g) gs) \<and> concat gs = ds \<and> (\<forall>g \<in> set gs. length g = 3)"
  using assms
proof (induction ds rule: comma_loop.induct)
  case 1
  show ?case by (intro exI [of _ "[]"]) simp
next
  case (2 d ds)
  let ?ds = "d # ds"
  have len: "3 \<le> length ?ds" using "2.prems" by (metis dvd_imp_le length_greater_0_conv list.distinct(1) mod_0_imp_dvd)
  then have "length (drop 3 ?ds) mod 3 = 0" using "2.prems" by (simp add: le_mod_geq)
  from "2.IH" [OF this] obtain gs where gs: "comma_loop (drop 3 ?ds) = concat (map (\<lambda>g. CHR '','' # g) gs)"
    "concat gs = drop 3 ?ds" "\<forall>g \<in> set gs. length g = 3" by blast
  have "comma_loop ?ds = concat (map (\<lambda>g. CHR '','' # g) (take 3 ?ds # gs))" using gs(1) by simp
  moreover have "concat (take 3 ?ds # gs) = ?ds" using gs(2) by (metis append_take_drop_id concat.simps(2))
  moreover have "\<forall>g \<in> set (take 3 ?ds # gs). length g = 3" using gs(3) len by auto
  ultimately show ?case by blast
qed

lemma Join_groups: "Join sep (g # gs) = g @ concat (map (\<lambda>h. sep @ h) gs)"
  by (induction gs arbitrary: g) auto

text \<open>The number between the sign and the end, in groups of three from the right.\<close>

lemma addCommas_groups:
  assumes "ds \<noteq> []" "hd ds \<noteq> CHR ''-''" "sign = [] \<or> sign = ''-''"
  shows "\<exists>g gs. addCommas (sign @ ds) = sign @ Join '','' (g # gs) \<and> concat (g # gs) = ds
    \<and> length g \<in> {1..3} \<and> (\<forall>h \<in> set gs. length h = 3)"
proof -
  have start: "(if (sign @ ds) ! 0 = CHR ''-'' then 1 else 0) = length sign" using assms by (auto simp: hd_conv_nth)
  show ?thesis
  proof (cases "length ds \<le> 3")
    case True
    then have "addCommas (sign @ ds) = sign @ Join '','' [ds]" unfolding addCommas_def Let_def start by simp
    with True assms(1) show ?thesis by (intro exI [of _ ds] exI [of _ "[]"]) (auto simp: Suc_le_eq)
  next
    case False
    define k where "k = (if length ds mod 3 = 0 then 3 else length ds mod 3)"
    have k: "1 \<le> k \<and> k \<le> 3 \<and> k \<le> length ds \<and> (length ds - k) mod 3 = 0"
      using False unfolding k_def by presburger
    from comma_loop_groups [of "drop k ds"] k obtain gs where gs: "comma_loop (drop k ds) = concat (map (\<lambda>g. CHR '','' # g) gs)"
      "concat gs = drop k ds" "\<forall>g \<in> set gs. length g = 3" by auto
    have "addCommas (sign @ ds) = sign @ take k ds @ comma_loop (drop k ds)"
      using False assms(1) unfolding addCommas_def Let_def start by (simp add: k_def)
    with gs have "addCommas (sign @ ds) = sign @ Join '','' (take k ds # gs)" by (simp add: Join_groups)
    with gs k show ?thesis by (intro exI [of _ "take k ds"] exI [of _ gs]) simp
  qed
qed

section \<open>Properties\<close>

lemma rune_count_append [simp]: "rune_count (a @ b) = rune_count a + rune_count b"
  by (simp add: rune_count_def)

lemma rune_count_simps [simp]:
  "rune_count [] = 0" "rune_count (c # s) = (if continuation c then 0 else 1) + rune_count s"
  "rune_count (replicate n CHR '' '') = n" "\<not> continuation CHR '' ''"
  by (simp_all add: rune_count_def continuation_def)

lemma rune_count_pad: "rune_count s \<le> w \<Longrightarrow> rune_count (padL w s) = w" "rune_count s \<le> w \<Longrightarrow> rune_count (padR w s) = w"
  by (simp_all add: padL_def padR_def)

lemma rune_count_take: "rune_count (take n s) \<le> n"
  unfolding rune_count_def by (metis (no_types, lifting) le_trans length_filter_le length_take min.cobounded2)

lemma rune_count_truncate:
  assumes "0 < w" "truncate_str s (int w) = Some t"
  shows "rune_count t \<le> w"
proof -
  have "rune_count s \<le> length s" by (simp add: rune_count_def)
  moreover have "rune_count ellipsis = 1" by (simp add: ellipsis_def rune_count_def continuation_def)
  moreover have "rune_count (take (nat (int w - 1)) s) \<le> w - 1" using rune_count_take [of "nat (int w - 1)" s] by simp
  moreover have "rune_count (take w s) \<le> w" by (rule rune_count_take)
  ultimately show ?thesis using assms by (auto simp: truncate_str_def split: if_splits)
qed

lemma summary_line_width:
  assumes "rune_count name \<le> 20" "\<forall>c \<in> set cells. rune_count c \<le> 10"
  shows "rune_count (summary_line name cells err) = 21 + 11 * length cells + rune_count err"
proof -
  have "rune_count (concat (map (\<lambda>c. '' '' @ padL 10 c) cells)) = 11 * length cells"
    using assms(2) by (induction cells) (auto simp: rune_count_pad)
  with assms(1) show ?thesis by (simp add: summary_line_def rune_count_pad)
qed

text \<open>
  Counts are printed so that they can be read back: for every 64-bit or larger integer the printed
  number is its sign and its decimal digits with a comma before every third digit from the right, and
  nothing else; without the commas it is the decimal number.
\<close>

theorem formatInt_readable:
  "\<exists>sign g gs. sign = (if n < 0 then ''-'' else '''') \<and> formatInt n = sign @ Join '','' (g # gs)
     \<and> concat (g # gs) = itoa (nat \<bar>n\<bar>) \<and> length g \<in> {1..3} \<and> list_all (\<lambda>h. length h = 3) gs
     \<and> filter (\<lambda>c. c \<noteq> CHR '','') (formatInt n) = itoa_int n"
proof -
  let ?ds = "itoa (nat \<bar>n\<bar>)" and ?sign = "if n < 0 then ''-'' else ''''"
  have eq: "itoa_int n = ?sign @ ?ds" by (simp add: itoa_int_def)
  have digits: "is_digit c" if "c \<in> set ?ds" for c using that itoa_digits [of "nat \<bar>n\<bar>"] by (simp add: list_all_iff)
  then have no: "hd ?ds \<noteq> CHR ''-''" "CHR '','' \<notin> set ?ds"
    using hd_in_set [OF itoa_not_Nil, of "nat \<bar>n\<bar>"] by (force simp: is_digit_def)+
  obtain g gs where g: "formatInt n = ?sign @ Join '','' (g # gs)" "concat (g # gs) = ?ds" "length g \<in> {1..3}"
      "\<forall>h \<in> set gs. length h = 3"
    using addCommas_groups [OF itoa_not_Nil no(1), of ?sign] unfolding formatInt_def eq by (cases "n < 0") (simp, blast)+
  have "CHR '','' \<notin> set h" if "h \<in> set (g # gs)" for h using no(2) that unfolding g(2) [symmetric] by auto
  then have keep: "filter (\<lambda>c. c \<noteq> CHR '','') h = h" if "h \<in> set (g # gs)" for h using that by (auto intro!: filter_True)
  have "filter (\<lambda>c. c \<noteq> CHR '','') (Join '','' (g # gs)) = concat (g # gs)"
    unfolding Join_groups using keep by (simp add: filter_concat map_idI comp_def cong: map_cong)
  then have "filter (\<lambda>c. c \<noteq> CHR '','') (formatInt n) = itoa_int n" unfolding g(1) eq g(2) by simp
  with g show ?thesis by (auto simp: list_all_iff)
qed

text \<open>
  The columns of the summary line up: a row whose numbers fit their columns has exactly the width of
  the header line, however long the name of the scenario is.
\<close>

theorem PrintSummary_aligned:
  assumes "list_all (\<lambda>c. rune_count c \<le> 10) [formatFloat (RequestsPerSec r), fmt_fixed 2 (ThroughputMBps r),
      formatMs (RoundTripP50 r), formatMs (RoundTripP99 r), formatInt (ErrorCount r)]"
    and "rune_count (fmt_fixed 2 (percent (ErrorRate r))) \<le> 9"
  shows "rune_count (summary_row r) =
    rune_count (summary_line ''Scenario'' [''Req/s'', ''MB/s'', ''P50'', ''P99'', ''Errors''] (padL 10 ''Err%'') @ NL)"
proof -
  obtain name where name: "truncate_str (resScenario r) 20 = Some name"
    by (cases "length (resScenario r) \<le> 20") (simp_all add: truncate_str_def)
  then have "rune_count name \<le> 20" using rune_count_truncate [of 20 "resScenario r" name] by simp
  moreover have "rune_count h \<le> 20" "rune_count h \<le> 10"
    if "h \<in> {''Scenario'', ''Req/s'', ''MB/s'', ''P50'', ''P99'', ''Errors'', ''Err%''}" for h
    using that by (auto simp: rune_count_def continuation_def)
  moreover have "rune_count ''%'' = 1" by (simp add: rune_count_def continuation_def)
  ultimately show ?thesis using assms by (simp add: summary_row_def name summary_line_width rune_count_pad)
qed

end
