(* ===== verification/Load_Harness.thy ===== *)
theory Load_Harness
  imports Tls_Config Http_Rewrite Conn_Limit Go_Path
begin

text \<open>
  \<open>internal/loadtest/harness.go\<close>: the proxy, its backend and the client's TLS settings that a load test
  sets up in one process. Sockets and files are arguments (\<open>harness_env\<close>, with the certificate files in a
  \<open>tls_env\<close>). A setup step returns an error or nothing and the harness as it is by then: the sockets that
  are open, the goroutines that are running. The limiter of the HTTP mode is in theory \<open>Conn_Limit\<close>.
\<close>

section \<open>State\<close>

record HarnessConfig =
  hMode :: string
  ServerTLS :: bool
  RemoteTLS :: bool
  MutualTLS :: bool
  MaxConns :: int
  hHTTP2 :: bool
  CertDir :: string
  ResponseSize :: int

record harness_env =
  listenBackend :: "kerr + string"
  listenProxy :: "kerr + string"
  parseBackend :: "kerr + url"
  certFiles :: tls_env

text \<open>The fields of \<open>tls.Config\<close> the harness sets.\<close>

record harness_tls =
  hMinVersion :: u16
  hRootCAs :: "pool option"
  hClientCAs :: "pool option"
  hClientAuth :: client_auth
  hServerName :: string
  hCertificates :: "cert list"
  hFromStore :: bool

definition harness_tls_base :: harness_tls where
  "harness_tls_base = \<lparr>hMinVersion = VersionTLS12, hRootCAs = None, hClientCAs = None, hClientAuth = NoClientCert,
     hServerName = '''', hCertificates = [], hFromStore = False\<rparr>"

datatype hgoroutine = BackendAccept | ProxyAccept | BackendCleanup | ServeHTTP

datatype sock = NotOpened | Open | ClosedSock

record TestHarness =
  ProxyAddr :: string
  ClientTLSConf :: "harness_tls option"
  hCertStore :: "CertStore option"
  proxyTLS :: "harness_tls option"
  backendTLS :: "harness_tls option"
  remoteTLSConf :: "harness_tls option"
  backendLn :: sock
  proxyLn :: sock
  httpBackend :: sock
  hsrv :: sock
  cancelled :: bool
  running :: "hgoroutine list"

definition harness_zero :: TestHarness where
  "harness_zero = \<lparr>ProxyAddr = '''', ClientTLSConf = None, hCertStore = None, proxyTLS = None, backendTLS = None,
     remoteTLSConf = None, backendLn = NotOpened, proxyLn = NotOpened, httpBackend = NotOpened, hsrv = NotOpened,
     cancelled = False, running = []\<rparr>"

datatype harness_error =
    ClientTLSError harness_error
  | BackendListen kerr
  | BackendTLSError harness_error
  | ProxyListen kerr
  | ProxyServerTLS harness_error
  | RemoteTLSError harness_error
  | ParseBackendURL kerr
  | UnsupportedMode string
  | CreatingStore store_error
  | LoadingMutualCA harness_error
  | LoadingPair kerr
  | ReadingCA kerr
  | ParsingCA string

section \<open>TLS settings\<close>

definition harness_loadCAPool :: "tls_env \<Rightarrow> string \<Rightarrow> harness_error + pool" where
  "harness_loadCAPool V caPath =
     (case readFile V caPath of
        Inl e \<Rightarrow> Inl (ReadingCA e)
      | Inr caPEM \<Rightarrow> if pemCerts V caPEM = [] then Inl (ParsingCA caPath) else Inr (pemCerts V caPEM))"

definition load_pair :: "tls_env \<Rightarrow> string \<Rightarrow> string \<Rightarrow> harness_error + cert" where
  "load_pair V c k = map_err LoadingPair (loadPair V c k)"

definition buildClientTLSConf :: "tls_env \<Rightarrow> HarnessConfig \<Rightarrow> harness_error + harness_tls" where
  "buildClientTLSConf V cfg =
     bind_res (harness_loadCAPool V (PathJoin (CertDir cfg) ''ca.crt'')) (\<lambda>caPool.
       let conf = harness_tls_base\<lparr>hRootCAs := Some caPool, hServerName := ''localhost''\<rparr> in
       if MutualTLS cfg then
         bind_res (load_pair V (PathJoin (CertDir cfg) ''client.crt'') (PathJoin (CertDir cfg) ''client.key'')) (\<lambda>clientCert.
           Inr (conf\<lparr>hCertificates := [clientCert]\<rparr>))
       else Inr conf)"

definition buildBackendTLSConf :: "tls_env \<Rightarrow> HarnessConfig \<Rightarrow> harness_error + harness_tls" where
  "buildBackendTLSConf V cfg =
     bind_res (load_pair V (PathJoin (CertDir cfg) ''server.crt'') (PathJoin (CertDir cfg) ''server.key'')) (\<lambda>cert.
     bind_res (harness_loadCAPool V (PathJoin (CertDir cfg) ''ca.crt'')) (\<lambda>caPool.
       Inr (harness_tls_base\<lparr>hCertificates := [cert], hClientCAs := Some caPool\<rparr>)))"

definition buildRemoteTLSConf :: "tls_env \<Rightarrow> HarnessConfig \<Rightarrow> harness_error + harness_tls" where
  "buildRemoteTLSConf V cfg =
     bind_res (harness_loadCAPool V (PathJoin (CertDir cfg) ''ca.crt'')) (\<lambda>caPool.
       Inr (harness_tls_base\<lparr>hRootCAs := Some caPool, hServerName := ''localhost''\<rparr>))"

text \<open>The store is kept in the harness as soon as it is made, also when a later step fails.\<close>

definition wrapWithServerTLS :: "tls_env \<Rightarrow> HarnessConfig \<Rightarrow> TestHarness \<Rightarrow> harness_error option \<times> TestHarness" where
  "wrapWithServerTLS V cfg h =
     (case NewCertStore (loadPair V) (PathJoin (CertDir cfg) ''proxy.crt'') (PathJoin (CertDir cfg) ''proxy.key'') of
        Inl e \<Rightarrow> (Some (CreatingStore e), h)
      | Inr cs \<Rightarrow>
          let h = h\<lparr>hCertStore := Some cs\<rparr>; conf = harness_tls_base\<lparr>hFromStore := True\<rparr> in
          if MutualTLS cfg then
            (case harness_loadCAPool V (PathJoin (CertDir cfg) ''ca.crt'') of
               Inl e \<Rightarrow> (Some (LoadingMutualCA e), h)
             | Inr caPool \<Rightarrow>
                 (None, h\<lparr>proxyTLS := Some (conf\<lparr>hClientCAs := Some caPool, hClientAuth := RequireAndVerifyClientCert\<rparr>)\<rparr>))
          else (None, h\<lparr>proxyTLS := Some conf\<rparr>))"

section \<open>Setting up and closing\<close>

text \<open>The proxy side of both modes: its listener and the TLS around it.\<close>

definition open_proxy :: "harness_env \<Rightarrow> HarnessConfig \<Rightarrow> TestHarness \<Rightarrow> harness_error option \<times> TestHarness" where
  "open_proxy E cfg h =
     (case listenProxy E of
        Inl e \<Rightarrow> (Some (ProxyListen e), h)
      | Inr addr \<Rightarrow>
          let h = h\<lparr>proxyLn := Open\<rparr>;
              (err, h) = (if ServerTLS cfg then wrapWithServerTLS (certFiles E) cfg h else (None, h))
          in (case err of
                Some e \<Rightarrow> (Some (ProxyServerTLS e), h)
              | None \<Rightarrow> (None, h\<lparr>ProxyAddr := addr\<rparr>)))"

definition setupTCP :: "harness_env \<Rightarrow> HarnessConfig \<Rightarrow> TestHarness \<Rightarrow> harness_error option \<times> TestHarness" where
  "setupTCP E cfg h =
     (case listenBackend E of
        Inl e \<Rightarrow> (Some (BackendListen e), h)
      | Inr backendAddr \<Rightarrow>
          let h = h\<lparr>backendLn := Open\<rparr> in
          (case (if RemoteTLS cfg then map_sum id Some (buildBackendTLSConf (certFiles E) cfg) else Inr None) of
             Inl e \<Rightarrow> (Some (BackendTLSError e), h)
           | Inr conf \<Rightarrow>
               let h = h\<lparr>backendTLS := conf, running := BackendAccept # running h\<rparr> in
               (case open_proxy E cfg h of
                  (Some e, h) \<Rightarrow> (Some e, h)
                | (None, h) \<Rightarrow>
                    (case (if RemoteTLS cfg then map_sum id Some (buildRemoteTLSConf (certFiles E) cfg) else Inr None) of
                       Inl e \<Rightarrow> (Some (RemoteTLSError e), h)
                     | Inr conf \<Rightarrow> (None, h\<lparr>remoteTLSConf := conf, running := ProxyAccept # running h\<rparr>)))))"

definition setupHTTP :: "harness_env \<Rightarrow> HarnessConfig \<Rightarrow> TestHarness \<Rightarrow> harness_error option \<times> TestHarness" where
  "setupHTTP E cfg h =
     (let h = h\<lparr>httpBackend := Open, running := BackendCleanup # running h\<rparr> in
      case parseBackend E of
        Inl e \<Rightarrow> (Some (ParseBackendURL e), h)
      | Inr backendURL \<Rightarrow>
          (case open_proxy E cfg h of
             (Some e, h) \<Rightarrow> (Some e, h)
           | (None, h) \<Rightarrow> (None, h\<lparr>hsrv := Open, running := ServeHTTP # running h\<rparr>)))"

text \<open>
  \<open>NewHarness\<close>: every failure cancels the context. Go returns no harness then; the second component is what
  the failed setup leaves behind.
\<close>

definition NewHarness :: "harness_env \<Rightarrow> HarnessConfig \<Rightarrow> harness_error option \<times> TestHarness" where
  "NewHarness E cfg =
     (case (if ServerTLS cfg then map_sum id Some (buildClientTLSConf (certFiles E) cfg) else Inr None) of
        Inl e \<Rightarrow> (Some (ClientTLSError e), harness_zero\<lparr>cancelled := True\<rparr>)
      | Inr conf \<Rightarrow>
          let h = harness_zero\<lparr>ClientTLSConf := conf\<rparr>;
              (err, h) = (if hMode cfg = ''tcp'' then setupTCP E cfg h
                          else if hMode cfg = ''http'' then setupHTTP E cfg h
                          else (Some (UnsupportedMode (hMode cfg)), h))
          in (case err of
                Some e \<Rightarrow> (Some e, h\<lparr>cancelled := True\<rparr>)
              | None \<Rightarrow> (None, h)))"

definition close_sock :: "sock \<Rightarrow> sock" where
  "close_sock s = (if s = Open then ClosedSock else s)"

text \<open>A goroutine of the wait group ends once what it waits on is closed or cancelled.\<close>

fun ends :: "TestHarness \<Rightarrow> hgoroutine \<Rightarrow> bool" where
  "ends h BackendAccept \<longleftrightarrow> backendLn h = ClosedSock"
| "ends h ProxyAccept \<longleftrightarrow> proxyLn h = ClosedSock"
| "ends h BackendCleanup \<longleftrightarrow> cancelled h"
| "ends h ServeHTTP \<longleftrightarrow> proxyLn h = ClosedSock \<or> hsrv h = ClosedSock"

text \<open>What happens by itself: the goroutines that can end do, and the cleanup closes the HTTP backend.\<close>

definition settle :: "TestHarness \<Rightarrow> TestHarness" where
  "settle h =
     h\<lparr>httpBackend := (if BackendCleanup \<in> set (running h) \<and> cancelled h then close_sock (httpBackend h) else httpBackend h),
       running := filter (\<lambda>g. \<not> ends h g) (running h)\<rparr>"

text \<open>\<open>Close\<close> up to its \<open>wg.Wait\<close>, which returns when no goroutine is running after \<open>settle\<close>.\<close>

definition harness_Close :: "TestHarness \<Rightarrow> TestHarness" where
  "harness_Close h =
     h\<lparr>cancelled := True, proxyLn := close_sock (proxyLn h), backendLn := close_sock (backendLn h), hsrv := close_sock (hsrv h)\<rparr>"

definition TriggerReload :: "(nat \<Rightarrow> pair_loader) \<Rightarrow> TestHarness \<Rightarrow> (unit + store_error) option \<times> TestHarness" where
  "TriggerReload loads h =
     (case hCertStore h of
        None \<Rightarrow> (Some (Inl ()), h)
      | Some cs \<Rightarrow> (let (err, cs') = ReloadAll loads cs in (map_option Inr err, h\<lparr>hCertStore := Some cs'\<rparr>)))"

text \<open>The director of the HTTP mode: \<open>Header.Get\<close> is the first value, or nothing.\<close>

definition Header_Get :: "header \<Rightarrow> string \<Rightarrow> string" where
  "Header_Get h k = (case h (CanonicalKey k) of Some (v # _) \<Rightarrow> v | _ \<Rightarrow> '''')"

definition harness_director :: "url \<Rightarrow> request \<Rightarrow> request" where
  "harness_director backendURL req =
     (let u = reqURL req;
          req = req\<lparr>reqHost := Host backendURL,
                    reqURL := u\<lparr>Scheme := Scheme backendURL, Host := Host backendURL,
                                Path := SingleJoiningSlash (Path backendURL) (Path u)\<rparr>\<rparr>
      in case SplitHostPort (reqRemoteAddr req) of
           Inl _ \<Rightarrow> req
         | Inr (ip, _) \<Rightarrow>
             let prior = Header_Get (Header req) ''X-Forwarded-For'';
                 clientIP = (if prior \<noteq> '''' then prior @ '', '' @ ip else ip)
             in req\<lparr>Header := Header_Set (Header_Set (Header req) ''X-Forwarded-For'' clientIP) ''X-Real-IP'' clientIP\<rparr>)"

definition response_body :: "HarnessConfig \<Rightarrow> string" where
  "response_body cfg = (if ResponseSize cfg > 0 then replicate (nat (ResponseSize cfg)) CHR ''x'' else ''ok'')"

section \<open>Properties\<close>

text \<open>What the setup steps leave as it was, and what they set.\<close>

lemma open_proxy_frame:
  "open_proxy E cfg h = (err, h') \<Longrightarrow>
     backendLn h' = backendLn h \<and> httpBackend h' = httpBackend h \<and> hsrv h' = hsrv h \<and> running h' = running h
     \<and> cancelled h' = cancelled h \<and> ClientTLSConf h' = ClientTLSConf h \<and> (err = None \<longrightarrow> proxyLn h' = Open)"
  by (auto simp: open_proxy_def wrapWithServerTLS_def Let_def split: sum.splits if_splits prod.splits option.splits)

definition mutual_conf :: "pool \<Rightarrow> harness_tls" where
  "mutual_conf caPool =
     harness_tls_base\<lparr>hFromStore := True, hClientCAs := Some caPool, hClientAuth := RequireAndVerifyClientCert\<rparr>"

lemma open_proxy_mutual:
  "open_proxy E cfg h = (None, h') \<Longrightarrow> ServerTLS cfg \<Longrightarrow> MutualTLS cfg \<Longrightarrow>
   \<exists>caPool. harness_loadCAPool (certFiles E) (PathJoin (CertDir cfg) ''ca.crt'') = Inr caPool
     \<and> proxyTLS h' = Some (mutual_conf caPool) \<and> hCertStore h' \<noteq> None"
  by (auto simp: open_proxy_def wrapWithServerTLS_def mutual_conf_def Let_def split: sum.splits if_splits prod.splits option.splits)

text \<open>A successful setup goes through \<open>open_proxy\<close> and keeps what it set.\<close>

lemma setup_open_proxy:
  "setupTCP E cfg h = (None, h') \<or> setupHTTP E cfg h = (None, h') \<Longrightarrow>
   \<exists>g g'. open_proxy E cfg g = (None, g') \<and> ClientTLSConf g = ClientTLSConf h
     \<and> ClientTLSConf h' = ClientTLSConf g' \<and> proxyTLS h' = proxyTLS g' \<and> hCertStore h' = hCertStore g'"
  by (elim disjE) (fastforce simp: setupTCP_def setupHTTP_def Let_def split: sum.splits if_splits prod.splits option.splits)+

lemma setupTCP_None:
  assumes "setupTCP E cfg h = (None, h')"
  shows "backendLn h' = Open" "proxyLn h' = Open" "httpBackend h' = httpBackend h" "hsrv h' = hsrv h"
    "running h' = ProxyAccept # BackendAccept # running h"
  using assms by (auto simp: setupTCP_def Let_def dest!: open_proxy_frame split: sum.splits if_splits prod.splits option.splits)

lemma setupHTTP_None:
  assumes "setupHTTP E cfg h = (None, h')"
  shows "backendLn h' = backendLn h" "proxyLn h' = Open" "httpBackend h' = Open" "hsrv h' = Open"
    "running h' = ServeHTTP # BackendCleanup # running h"
  using assms by (auto simp: setupHTTP_def Let_def dest!: open_proxy_frame split: sum.splits if_splits prod.splits option.splits)

lemma setupTCP_Some:
  assumes "setupTCP E cfg h = (Some e, h')" "listenBackend E = Inr a"
  shows "backendLn h' = Open" "BackendAccept \<in> set (running h') \<or> (\<exists>d. e = BackendTLSError d)"
  using assms by (auto simp: setupTCP_def Let_def dest!: open_proxy_frame split: sum.splits if_splits prod.splits option.splits)

lemma NewHarness_None:
  assumes "NewHarness E cfg = (None, h)"
  obtains conf where "ServerTLS cfg \<longrightarrow> (\<exists>c. conf = Some c \<and> buildClientTLSConf (certFiles E) cfg = Inr c)"
    "setupTCP E cfg (harness_zero\<lparr>ClientTLSConf := conf\<rparr>) = (None, h) \<or> setupHTTP E cfg (harness_zero\<lparr>ClientTLSConf := conf\<rparr>) = (None, h)"
proof -
  obtain conf where conf: "(if ServerTLS cfg then map_sum id Some (buildClientTLSConf (certFiles E) cfg) else Inr None) = Inr conf"
    using assms by (auto simp: NewHarness_def split: sum.splits)
  from assms have "setupTCP E cfg (harness_zero\<lparr>ClientTLSConf := conf\<rparr>) = (None, h) \<or> setupHTTP E cfg (harness_zero\<lparr>ClientTLSConf := conf\<rparr>) = (None, h)"
    unfolding NewHarness_def conf sum.case Let_def by (auto split: if_splits prod.splits option.splits)
  moreover from conf have "ServerTLS cfg \<longrightarrow> (\<exists>c. conf = Some c \<and> buildClientTLSConf (certFiles E) cfg = Inr c)"
    by (cases "buildClientTLSConf (certFiles E) cfg") auto
  ultimately show ?thesis using that by blast
qed

text \<open>
  A harness that was set up can be shut down: after \<open>Close\<close> every goroutine it waits for ends, and no
  socket of the harness stays open, in both modes and for every configuration.
\<close>

theorem harness_Close_complete:
  assumes "NewHarness E cfg = (None, h)"
  shows "let h' = settle (harness_Close h) in running h' = [] \<and> Open \<notin> {backendLn h', proxyLn h', httpBackend h', hsrv h'}"
  using assms
proof (cases rule: NewHarness_None)
  case (1 conf)
  note defs = settle_def harness_Close_def close_sock_def harness_zero_def Let_def
  from 1(2) show ?thesis
  proof
    assume "setupTCP E cfg (harness_zero\<lparr>ClientTLSConf := conf\<rparr>) = (None, h)"
    from setupTCP_None [OF this] show ?thesis by (simp add: defs)
  next
    assume "setupHTTP E cfg (harness_zero\<lparr>ClientTLSConf := conf\<rparr>) = (None, h)"
    from setupHTTP_None [OF this] show ?thesis by (simp add: defs)
  qed
qed

text \<open>
  C37. A harness that could not be set up leaks: in the TCP mode, once the backend's listener is open, every
  failure leaves it open for good, and its accept loop running, except when the backend's own TLS settings
  failed, before the loop was started.
\<close>

theorem NewHarness_failure_leaks:
  assumes "hMode cfg = ''tcp''" and "listenBackend E = Inr addr" and "NewHarness E cfg = (Some e, h)"
    and "\<nexists>d. e = ClientTLSError d"
  shows "backendLn (settle h) = Open \<and> (BackendAccept \<in> set (running (settle h)) \<or> (\<exists>d. e = BackendTLSError d))"
proof -
  from assms(1,3,4) obtain conf h' where "setupTCP E cfg (harness_zero\<lparr>ClientTLSConf := conf\<rparr>) = (Some e, h')"
    and h: "h = h'\<lparr>cancelled := True\<rparr>"
    by (auto simp: NewHarness_def Let_def split: sum.splits if_splits prod.splits option.splits)
  from setupTCP_Some [OF this(1) assms(2)] show ?thesis by (auto simp: h settle_def)
qed

definition demo_certs :: tls_env where
  "demo_certs = \<lparr>statOk = (\<lambda>_. True), loadPair = (\<lambda>c k. if c = ''d/proxy.crt'' then Inl ''no such file'' else Inr c),
     sysRoots = Inr [], readFile = (\<lambda>f. Inr f), pemCerts = (\<lambda>pem. [pem])\<rparr>"

definition demo_harness_env :: harness_env where
  "demo_harness_env = \<lparr>listenBackend = Inr ''127.0.0.1:1'', listenProxy = Inr ''127.0.0.1:2'', parseBackend = Inl ''unused'',
     certFiles = demo_certs\<rparr>"

definition demo_harness_config :: HarnessConfig where
  "demo_harness_config = \<lparr>hMode = ''tcp'', ServerTLS = True, RemoteTLS = True, MutualTLS = True, MaxConns = 0, hHTTP2 = False,
     CertDir = ''d'', ResponseSize = 0\<rparr>"

definition demo_good_env :: harness_env where
  "demo_good_env = demo_harness_env\<lparr>certFiles := demo_certs\<lparr>loadPair := (\<lambda>c k. Inr c)\<rparr>\<rparr>"

theorem harness_Close_complete_witness:
  "fst (NewHarness demo_good_env demo_harness_config) = None
   \<and> running (settle (harness_Close (snd (NewHarness demo_good_env demo_harness_config)))) = []"
proof -
  have none: "fst (NewHarness demo_good_env demo_harness_config) = None" by code_simp
  then have "NewHarness demo_good_env demo_harness_config = (None, snd (NewHarness demo_good_env demo_harness_config))"
    by (simp add: prod_eq_iff)
  from harness_Close_complete [OF this] none show ?thesis by (simp add: Let_def)
qed

theorem NewHarness_failure_leaks_witness:
  "fst (NewHarness demo_harness_env demo_harness_config) = Some (ProxyServerTLS (CreatingStore (LoadingCert ''no such file'')))
   \<and> backendLn (settle (snd (NewHarness demo_harness_env demo_harness_config))) = Open"
proof -
  have err: "fst (NewHarness demo_harness_env demo_harness_config) = Some (ProxyServerTLS (CreatingStore (LoadingCert ''no such file'')))"
    by code_simp
  then have "NewHarness demo_harness_env demo_harness_config =
      (Some (ProxyServerTLS (CreatingStore (LoadingCert ''no such file''))), snd (NewHarness demo_harness_env demo_harness_config))"
    by (simp add: prod_eq_iff)
  from NewHarness_failure_leaks [OF _ _ this, of "''127.0.0.1:1''"] err show ?thesis
    by (simp add: demo_harness_config_def demo_harness_env_def)
qed

text \<open>
  Mutual TLS of the harness is consistent: with \<open>ServerTLS\<close> and \<open>MutualTLS\<close> the proxy requires and
  verifies client certificates against the pool the clients use to verify the proxy, the clients present a
  certificate, and the proxy's own certificate comes from a store that can be reloaded.
\<close>

theorem harness_mutual_tls:
  assumes "NewHarness E cfg = (None, h)" and "ServerTLS cfg" and "MutualTLS cfg"
  shows "\<exists>pool client server. pool \<noteq> [] \<and> ClientTLSConf h = Some client \<and> proxyTLS h = Some server \<and> hCertStore h \<noteq> None
    \<and> hRootCAs client = Some pool \<and> hClientCAs server = Some pool \<and> hClientAuth server = RequireAndVerifyClientCert
    \<and> hCertificates client \<noteq> [] \<and> hFromStore server"
  using assms(1)
proof (cases rule: NewHarness_None)
  case (1 conf)
  let ?ca = "PathJoin (CertDir cfg) ''ca.crt''"
  obtain c where c: "conf = Some c" "buildClientTLSConf (certFiles E) cfg = Inr c" using 1(1) assms(2) by blast
  obtain g g' where g: "open_proxy E cfg g = (None, g')" "ClientTLSConf g = conf" "ClientTLSConf h = ClientTLSConf g'"
      "proxyTLS h = proxyTLS g'" "hCertStore h = hCertStore g'"
    using setup_open_proxy [OF 1(2)] by auto
  obtain caPool where pool: "harness_loadCAPool (certFiles E) ?ca = Inr caPool" "proxyTLS g' = Some (mutual_conf caPool)"
      "hCertStore g' \<noteq> None"
    using open_proxy_mutual [OF g(1) assms(2,3)] by blast
  have "caPool \<noteq> []" using pool(1) by (auto simp: harness_loadCAPool_def split: sum.splits if_splits)
  moreover have "hRootCAs c = Some caPool \<and> hCertificates c \<noteq> []"
    using c(2) pool(1) assms(3) by (auto simp: buildClientTLSConf_def bind_res_eq_Inr Let_def)
  ultimately show ?thesis
    using g c pool open_proxy_frame [OF g(1)] by (auto simp: mutual_conf_def)
qed

theorem harness_mutual_tls_witness:
  "\<exists>server. proxyTLS (snd (NewHarness demo_good_env demo_harness_config)) = Some server
     \<and> hClientAuth server = RequireAndVerifyClientCert"
proof -
  have "fst (NewHarness demo_good_env demo_harness_config) = None" by code_simp
  then have "NewHarness demo_good_env demo_harness_config = (None, snd (NewHarness demo_good_env demo_harness_config))"
    by (simp add: prod_eq_iff)
  from harness_mutual_tls [OF this] show ?thesis by (auto simp: demo_harness_config_def)
qed

text \<open>
  Reloading under load: whatever the reloads of a scenario find in the certificate files, every client
  is served the certificate it was served at the start or one that a reload loaded, and the harness is
  otherwise unchanged.
\<close>

theorem TriggerReload_under_load:
  assumes "NewHarness E cfg = (None, h)" and "ServerTLS cfg" and "hCertStore h = Some cs"
  shows "\<exists>cs'. fold (\<lambda>loads h. snd (TriggerReload loads h)) reloads h = h\<lparr>hCertStore := Some cs'\<rparr>
    \<and> (GetCertificate cs' hello = GetCertificate cs hello
       \<or> (\<exists>loads \<in> set reloads. \<exists>i c k. loads i c k = Inr (GetCertificate cs' hello)))"
proof -
  have fold_eq: "fold (\<lambda>loads h. snd (TriggerReload loads h)) ls (h\<lparr>hCertStore := Some cs\<rparr>)
      = h\<lparr>hCertStore := Some (fold (\<lambda>loads cs. snd (ReloadAll loads cs)) ls cs)\<rparr>" for ls cs
    by (induction ls arbitrary: cs) (simp_all add: TriggerReload_def case_prod_unfold Let_def)
  have "store_inv cs"
    using assms(1)
  proof (cases rule: NewHarness_None)
    case (1 conf)
    then obtain g g' where "open_proxy E cfg g = (None, g')" "hCertStore g' = Some cs"
      using setup_open_proxy [OF 1(2)] assms(3) by auto
    then show ?thesis using assms(2) NewCertStore_inv
      by (auto simp: open_proxy_def wrapWithServerTLS_def Let_def split: sum.splits if_splits prod.splits option.splits)
  qed
  moreover have "h\<lparr>hCertStore := Some cs\<rparr> = h" using assms(3) by simp
  ultimately show ?thesis
    using cert_store.reloads_fresh [of cs reloads hello] fold_eq [of reloads cs]
    by (intro exI [of _ "fold (\<lambda>loads cs. snd (ReloadAll loads cs)) reloads cs"]) simp
qed

theorem TriggerReload_under_load_witness:
  "\<exists>cs cs'. hCertStore (snd (NewHarness demo_good_env demo_harness_config)) = Some cs
     \<and> hCertStore (snd (TriggerReload (\<lambda>i c k. Inl ''locked'') (snd (NewHarness demo_good_env demo_harness_config)))) = Some cs'
     \<and> GetCertificate cs' None = GetCertificate cs None"
proof -
  have none: "fst (NewHarness demo_good_env demo_harness_config) = None" by code_simp
  then have new: "NewHarness demo_good_env demo_harness_config = (None, snd (NewHarness demo_good_env demo_harness_config))"
    by (simp add: prod_eq_iff)
  have "hCertStore (snd (NewHarness demo_good_env demo_harness_config)) \<noteq> None" by code_simp
  then obtain cs where cs: "hCertStore (snd (NewHarness demo_good_env demo_harness_config)) = Some cs" by auto
  have "ServerTLS demo_harness_config" by (simp add: demo_harness_config_def)
  from TriggerReload_under_load [OF new this cs, of "[\<lambda>i c k. Inl ''locked'']" None] cs show ?thesis by auto
qed

text \<open>
  The director of the harness trusts the client: what the client sent as \<open>X-Forwarded-For\<close> ends up in
  \<open>X-Real-IP\<close>, unlike in \<open>NewRewrite\<close>.
\<close>

lemma harness_director_real_ip:
  assumes "SplitHostPort (reqRemoteAddr req) = Inr (ip, port)" "Header_Get (Header req) ''X-Forwarded-For'' \<noteq> ''''"
  shows "Header (harness_director u req) ''X-Real-Ip'' = Some [Header_Get (Header req) ''X-Forwarded-For'' @ '', '' @ ip]"
  using assms by (simp add: harness_director_def Header_Set_def Let_def)

section \<open>The limit of the TCP mode\<close>

text \<open>
  The accept loop of \<open>setupTCP\<close>: as in \<open>main.go\<close>, but any error of \<open>Accept\<close> ends it and the handlers are not waited
  for. It keeps its limit, unlike the hook of the HTTP mode (theory \<open>Conn_Limit\<close>).
\<close>

record loop_state =
  loopSem :: nat
  loopConnID :: nat
  serving :: "nat list"
  turnedAway :: nat
  loopEnded :: bool

definition loop_start :: loop_state where
  "loop_start = \<lparr>loopSem = 0, loopConnID = 0, serving = [], turnedAway = 0, loopEnded = False\<rparr>"

definition loop_serve :: "loop_state \<Rightarrow> loop_state" where
  "loop_serve s = s\<lparr>loopConnID := loopConnID s + 1, serving := (loopConnID s + 1) # serving s\<rparr>"

fun loop_turn_tcp :: "nat option \<Rightarrow> accept_event \<Rightarrow> loop_state \<Rightarrow> loop_state" where
  "loop_turn_tcp sem AcceptErr s = s\<lparr>loopEnded := True\<rparr>"
| "loop_turn_tcp None AcceptConn s = loop_serve s"
| "loop_turn_tcp (Some maxConns) AcceptConn s =
     (if loopSem s < maxConns then loop_serve (s\<lparr>loopSem := loopSem s + 1\<rparr>)
      else s\<lparr>turnedAway := turnedAway s + 1\<rparr>)"

text \<open>The deferred receive when \<open>Start\<close> returns; with a semaphore it needs an element.\<close>

fun loop_release :: "nat option \<Rightarrow> nat \<Rightarrow> loop_state \<Rightarrow> loop_state option" where
  "loop_release None i s = Some (s\<lparr>serving := remove1 i (serving s)\<rparr>)"
| "loop_release (Some maxConns) i s =
     (if 0 < loopSem s then Some (s\<lparr>loopSem := loopSem s - 1, serving := remove1 i (serving s)\<rparr>) else None)"

inductive loop_step :: "nat option \<Rightarrow> loop_state \<Rightarrow> loop_state \<Rightarrow> bool" for sem where
  loop_accepts: "\<not> loopEnded s \<Longrightarrow> loop_step sem s (loop_turn_tcp sem ev s)"
| loop_releases: "i \<in> set (serving s) \<Longrightarrow> loop_release sem i s = Some t \<Longrightarrow> loop_step sem s t"

definition loop_inv :: "nat \<Rightarrow> loop_state \<Rightarrow> bool" where
  "loop_inv maxConns s \<longleftrightarrow> loopSem s = length (serving s) \<and> loopSem s \<le> maxConns"

lemma loop_step_inv:
  assumes "loop_step (Some m) s t" "loop_inv m s"
  shows "loop_inv m t"
  using assms(1)
proof cases
  case (loop_accepts ev)
  then show ?thesis using assms(2) by (cases ev) (auto simp: loop_inv_def loop_serve_def)
next
  case (loop_releases i)
  then show ?thesis using assms(2) by (auto simp: loop_inv_def length_remove1 split: if_splits)
qed

interpretation harness_limit: slot_limiter "\<lambda>s. s = loop_start" "loop_step (Some m)" "loop_inv m" m loopSem
    "\<lambda>s. length (serving s)" for m
proof unfold_locales
  show "loop_inv m t" if "loop_inv m s" "loop_step (Some m) s t" for s t using loop_step_inv that by blast
qed (simp_all add: loop_inv_def loop_start_def)

text \<open>
  The TCP harness keeps its limit: in every reachable state at most \<open>MaxConns\<close> connections are served, a
  handler that returns can always give its slot back, and a connection is turned away only when the limit is
  used up.
\<close>

theorem harness_tcp_limit:
  assumes "reach (\<lambda>s. s = loop_start) (loop_step (Some m)) s"
  shows "length (serving s) \<le> m \<and> (serving s \<noteq> [] \<longrightarrow> loop_release (Some m) (hd (serving s)) s \<noteq> None)
    \<and> (turnedAway (loop_turn_tcp (Some m) AcceptConn s) \<noteq> turnedAway s \<longrightarrow> length (serving s) = m)"
  using harness_limit.reach_held_le [OF assms] harness_limit.release_ready [OF assms] harness_limit.full_used [OF assms]
  by (auto simp: loop_serve_def)

theorem harness_tcp_limit_witness:
  "turnedAway (loop_turn_tcp (Some 0) AcceptConn loop_start) = 1 \<and> length (serving loop_start) \<le> 0"
  using harness_tcp_limit [OF reach_start [where step = "loop_step (Some 0)" and ?s0.0 = loop_start]] by (simp add: loop_start_def)

end
