(* ===== verification/Load_Scenario.thy ===== *)
theory Load_Scenario
  imports Load_Generator Load_Report Load_Harness
begin

text \<open>
  \<open>internal/loadtest/scenario.go\<close> and \<open>cmd/loadtest/main.go\<close>: the scenarios, the execution of one scenario, and
  the command. The recording steps of a run are an argument, a function of the generator that was made (its
  workers and their interleavings are the subject of \<open>Load_Generator\<close>); so are the start and the end time.
  The command ends with the results it has collected, those it has printed as text, the summary it has
  printed, and whether anything failed.
\<close>

section \<open>Scenarios\<close>

record Scenario =
  scName :: string
  Description :: string
  scMode :: string
  scHarness :: HarnessConfig
  Concurrency :: int
  scDuration :: int
  PayloadSize :: int
  ReloadInterval :: int
  Validate :: "(Result \<Rightarrow> string option) option"

definition harness_default :: HarnessConfig where
  "harness_default = \<lparr>hMode = '''', ServerTLS = False, RemoteTLS = False, MutualTLS = False, MaxConns = 0, hHTTP2 = False,
     CertDir = '''', ResponseSize = 0\<rparr>"

definition tenSeconds :: int where
  "tenSeconds = 10 * 1000000000"

definition maxconns_validate :: "Result \<Rightarrow> string option" where
  "maxconns_validate r =
     (if ErrorRate r > fl64 (75 / 100)
      then Some (''error rate '' @ fmt_fixed 2 (percent (ErrorRate r)) @ ''% exceeds 75% threshold'') else None)"

definition scenario :: "string \<Rightarrow> string \<Rightarrow> HarnessConfig \<Rightarrow> int \<Rightarrow> int \<Rightarrow> Scenario" where
  "scenario name descr h conc payload =
     \<lparr>scName = name, Description = descr, scMode = hMode h, scHarness = h, Concurrency = conc, scDuration = tenSeconds,
      PayloadSize = payload, ReloadInterval = 0, Validate = None\<rparr>"

definition DefaultScenarios :: "Scenario list" where
  "DefaultScenarios =
     (let tcp = harness_default\<lparr>hMode := ''tcp''\<rparr>; tcpTLS = tcp\<lparr>ServerTLS := True\<rparr>;
          httpTLS = harness_default\<lparr>hMode := ''http'', ServerTLS := True\<rparr>
      in
      [scenario ''tcp-plaintext'' ''TCP proxy with no TLS'' tcp 50 1024,
       scenario ''tcp-tls'' ''TCP proxy with server-side TLS'' tcpTLS 50 1024,
       scenario ''tcp-tls-both'' ''TCP proxy with TLS on both sides'' (tcpTLS\<lparr>RemoteTLS := True\<rparr>) 50 1024,
       scenario ''tcp-mtls'' ''TCP proxy with mutual TLS'' (tcpTLS\<lparr>MutualTLS := True\<rparr>) 50 1024,
       (scenario ''tcp-maxconns'' ''TCP proxy with connection limit (50) under high load (200 workers)''
          (tcpTLS\<lparr>MaxConns := 50\<rparr>) 200 1024)\<lparr>Validate := Some maxconns_validate\<rparr>,
       scenario ''tcp-large-payload'' ''TCP proxy with 1MB payload'' tcpTLS 20 1048576,
       scenario ''http-tls'' ''HTTP reverse proxy with TLS'' httpTLS 50 0,
       scenario ''http-large-response'' ''HTTP reverse proxy with 1MB response'' (httpTLS\<lparr>ResponseSize := 1048576\<rparr>) 20 0,
       (scenario ''cert-reload-under-load'' ''TCP proxy with cert reload every 500ms under load'' tcpTLS 50 1024)
          \<lparr>ReloadInterval := 500000000\<rparr>])"

definition ListScenarios :: "Scenario list" where
  "ListScenarios = DefaultScenarios"

section \<open>Running a scenario\<close>

datatype generator =
    TCPGenerator string "harness_tls option" int
  | HTTPGenerator string "harness_tls option" int

datatype run_error =
    CreatingHarness harness_error
  | UnsupportedScenarioMode string
  | StatsPanic
  | ValidationFailed string Result

definition make_generator :: "Scenario \<Rightarrow> TestHarness \<Rightarrow> generator option" where
  "make_generator s h =
     (if scMode s = ''tcp'' then Some (TCPGenerator (ProxyAddr h) (ClientTLSConf h) (PayloadSize s))
      else if scMode s = ''http'' then
        (let scheme = (if ServerTLS (scHarness s) then ''https'' else ''http'') in
         Some (HTTPGenerator (scheme @ ''://'' @ ProxyAddr h @ ''/'') (ClientTLSConf h) (PayloadSize s)))
      else None)"

record run_env =
  harnessEnv :: harness_env
  recorded :: "generator \<Rightarrow> stat_step list"
  startedAt :: int
  endedAt :: int

definition RunScenario :: "run_env \<Rightarrow> Scenario \<Rightarrow> string \<Rightarrow> run_error + Result" where
  "RunScenario E s certDir =
     (let s = s\<lparr>scHarness := (scHarness s)\<lparr>CertDir := certDir\<rparr>\<rparr> in
      case NewHarness (harnessEnv E) (scHarness s) of
        (Some e, _) \<Rightarrow> Inl (CreatingHarness e)
      | (None, h) \<Rightarrow>
          (case make_generator s h of
             None \<Rightarrow> Inl (UnsupportedScenarioMode (scMode s))
           | Some gen \<Rightarrow>
               (case run_steps (recorded E gen) (Stats_Start (startedAt E) Stats_zero) of
                  None \<Rightarrow> Inl StatsPanic
                | Some stats \<Rightarrow>
                    let result = Snapshot (endedAt E) (scName s) (Concurrency s) stats in
                    (case Validate s of
                       None \<Rightarrow> Inr result
                     | Some v \<Rightarrow> (case v result of Some e \<Rightarrow> Inl (ValidationFailed e result) | None \<Rightarrow> Inr result)))))"

section \<open>The command\<close>

record load_flags =
  fScenario :: string
  fList :: bool
  fConcurrency :: int
  fDuration :: int
  fPayload :: int
  fJSON :: bool
  fCertDir :: string

definition selectScenarios :: "string \<Rightarrow> Scenario list" where
  "selectScenarios name =
     (if name = ''all'' then ListScenarios
      else (case find (\<lambda>s. scName s = name) ListScenarios of Some s \<Rightarrow> [s] | None \<Rightarrow> []))"

definition printScenarioList :: string where
  "printScenarioList =
     padR 25 ''Name'' @ '' '' @ padR 8 ''Mode'' @ '' '' @ ''Description'' @ NL @ replicate 70 CHR ''-'' @ NL
     @ concat (map (\<lambda>s. padR 25 (scName s) @ '' '' @ padR 8 (hMode (scHarness s)) @ '' '' @ Description s @ NL) ListScenarios)"

text \<open>\<open>findCertDir\<close>: the walk to the root, which returns when \<open>Dir\<close> gives the directory itself.\<close>

datatype find_error = GetwdFailed string | NoCerts string | NoGoMod

partial_function (option) find_up :: "(string \<Rightarrow> bool) \<Rightarrow> string \<Rightarrow> (find_error + string) option" where
  "find_up exists dir =
     (if exists (PathJoin dir ''go.mod'') then
        (let certDir = PathJoin dir ''contrib/testdata/certs'' in
         Some (if exists certDir then Inr certDir else Inl (NoCerts dir)))
      else
        (let parent = Dir dir in
         if parent = dir then Some (Inl NoGoMod) else find_up exists parent))"

definition findCertDir :: "string + string \<Rightarrow> (string \<Rightarrow> bool) \<Rightarrow> (find_error + string) option" where
  "findCertDir wd exists = (case wd of Inl e \<Rightarrow> Some (Inl (GetwdFailed e)) | Inr dir \<Rightarrow> find_up exists dir)"

definition apply_overrides :: "load_flags \<Rightarrow> Scenario \<Rightarrow> Scenario" where
  "apply_overrides f s =
     (let s = (if fConcurrency f > 0 then s\<lparr>Concurrency := fConcurrency f\<rparr> else s);
          s = (if fDuration f > 0 then s\<lparr>scDuration := fDuration f\<rparr> else s)
      in if fPayload f > 0 then s\<lparr>PayloadSize := fPayload f\<rparr> else s)"

definition passes :: "Scenario \<Rightarrow> Result \<Rightarrow> bool" where
  "passes s result =
     (case Validate s of
        Some v \<Rightarrow> v result = None
      | None \<Rightarrow> \<not> ErrorRate result > fl64 (1 / 100))"

text \<open>The loop over the scenarios: the results, and whether anything failed.\<close>

fun run_all :: "(Scenario \<Rightarrow> run_error + Result) \<Rightarrow> load_flags \<Rightarrow> Scenario list \<Rightarrow> Result list \<times> bool" where
  "run_all run f [] = ([], False)"
| "run_all run f (s # ss) =
     (let s = apply_overrides f s; (results, failed) = run_all run f ss in
      case run s of
        Inl _ \<Rightarrow> (results, True)
      | Inr result \<Rightarrow> (result # results, failed \<or> \<not> passes s result))"

datatype load_exit = Listed string | NoCertDir find_error | UnknownScenario string | JSONFailed | Done "Result list" "Result list" string bool

definition exit_status :: "load_exit \<Rightarrow> int" where
  "exit_status e = (case e of Listed _ \<Rightarrow> 0 | Done _ _ _ failed \<Rightarrow> (if failed then 1 else 0) | _ \<Rightarrow> 1)"

text \<open>The directory of the certificates: the flag, or the search.\<close>

definition resolve_dir :: "string + string \<Rightarrow> (string \<Rightarrow> bool) \<Rightarrow> load_flags \<Rightarrow> (find_error + string) option" where
  "resolve_dir wd exists f = (if fCertDir f = '''' then findCertDir wd exists else Some (Inr (fCertDir f)))"

text \<open>
  \<open>Done\<close> has the results (written as JSON when that is asked for), those printed as text one by one, the
  summary after them, and whether anything failed.
\<close>

definition loadtest_main ::
  "(Scenario \<Rightarrow> run_env) \<Rightarrow> string + string \<Rightarrow> (string \<Rightarrow> bool) \<Rightarrow> (Result list \<Rightarrow> bool) \<Rightarrow> load_flags \<Rightarrow> load_exit option" where
  "loadtest_main env wd exists jsonOk f =
     (if fList f then Some (Listed printScenarioList)
      else
        (case resolve_dir wd exists f of
           None \<Rightarrow> None
         | Some (Inl e) \<Rightarrow> Some (NoCertDir e)
         | Some (Inr dir) \<Rightarrow>
             let scenarios = selectScenarios (fScenario f) in
             if scenarios = [] then Some (UnknownScenario (fScenario f))
             else
               let (results, failed) = run_all (\<lambda>s. RunScenario (env s) s dir) f scenarios in
               if fJSON f \<and> results \<noteq> [] \<and> \<not> jsonOk results then Some JSONFailed
               else Some (Done results (if fJSON f then [] else results)
                      (if \<not> fJSON f \<and> length results > 1 then PrintSummary results else '''') failed)))"

section \<open>Finding the certificates\<close>

lemma clean_stack_trailing: "clean_stack rooted (p @ ''/'') = clean_stack rooted p"
proof -
  have "Split (CHR ''/'') (p @ ''/'') = Split (CHR ''/'') p @ ['''']"
    by (induction p) (auto split: list.splits)
  then show ?thesis by (simp add: clean_stack_def clean_push_def)
qed

lemma Join_snoc: "xs \<noteq> [] \<Longrightarrow> Join sep (xs @ [x]) = Join sep xs @ sep @ x"
  by (induction xs rule: induct_list012) auto

lemma dir_part_append: "CHR ''/'' \<notin> set c \<Longrightarrow> dir_part (p @ ''/'' @ c) = p @ ''/''"
  by (simp add: dir_part_def dropWhile_append)

lemma Dir_unsplit:
  assumes "clean_st True (c # st)"
  shows "Dir (unsplit True (c # st)) = unsplit True st"
proof -
  have c: "CHR ''/'' \<notin> set c" using clean_st_comps [OF assms, of c] by (simp add: clean_comp_def)
  have "dir_part (unsplit True (c # st)) = (if st = [] then ''/'' else unsplit True st @ ''/'')"
  proof (cases "st = []")
    case True
    then show ?thesis using dir_part_append [OF c, of "[]"] by (simp add: unsplit_def)
  next
    case False
    then have "unsplit True (c # st) = unsplit True st @ ''/'' @ c" by (simp add: unsplit_def Join_snoc)
    then show ?thesis using False by (simp only: dir_part_append [OF c] if_False)
  qed
  moreover have "Clean (unsplit True st @ ''/'') = unsplit True st" if "st \<noteq> []"
  proof -
    have "clean_st True st" using assms by simp
    moreover have "IsAbs (unsplit True st @ ''/'')" by (simp add: unsplit_def IsAbs_def)
    ultimately show ?thesis by (simp only: Clean_def clean_stack_trailing clean_stack_unsplit simp_thms)
  qed
  moreover have "Clean ''/'' = ''/''" by code_simp
  ultimately show ?thesis by (cases "st = []") (simp_all add: Dir_def unsplit_def)
qed

lemma find_up_clean: "clean_st True st \<Longrightarrow> \<exists>r. find_up exists (unsplit True st) = Some r"
proof (induction st)
  case Nil
  have "Dir ''/'' = ''/''" by code_simp
  then show ?case by (subst find_up.simps) (simp add: unsplit_def Let_def)
next
  case (Cons c st)
  then have "\<exists>r. find_up exists (unsplit True st) = Some r" by simp
  with Dir_unsplit [OF Cons.prems] show ?case by (subst find_up.simps) (auto simp: Let_def)
qed

section \<open>Properties\<close>

lemma find_up_abs:
  assumes "IsAbs dir"
  shows "\<exists>r. find_up exists dir = Some r"
proof -
  have "IsAbs (dir_part dir)"
  proof -
    obtain d where d: "dir = CHR ''/'' # d" using assms by (auto simp: IsAbs_def HasPrefix_iff)
    have "dir_part dir = CHR ''/'' # (if CHR ''/'' \<in> set d then dir_part d else [])"
      by (auto simp: d dir_part_def dropWhile_append)
    then show ?thesis by (simp add: IsAbs_def)
  qed
  then have "Dir dir = unsplit True (clean_stack True (dir_part dir))" by (simp add: Dir_def Clean_def)
  with find_up_clean [OF clean_stack_clean, of exists "dir_part dir"]
  have "\<exists>r. find_up exists (Dir dir) = Some r" by simp
  then show ?thesis by (subst find_up.simps) (auto simp: Let_def)
qed

text \<open>
  C36. The search for the certificates always comes to an end: from every absolute working directory, on every
  file system, the walk up returns, with a directory that exists or with an error.
\<close>

theorem findCertDir_returns:
  assumes "IsAbs dir"
  shows "\<exists>r. findCertDir (Inr dir) exists = Some r"
  using find_up_abs [OF assms] by (simp add: findCertDir_def)

theorem findCertDir_returns_witness: "\<exists>r. findCertDir (Inr ''/home/u/src/tlspxy'') (\<lambda>_. False) = Some r"
  by (rule findCertDir_returns) (simp add: IsAbs_def)

text \<open>The results of the scenarios that ran without an error, in the order of the scenarios.\<close>

definition results_of :: "(Scenario \<Rightarrow> run_error + Result) \<Rightarrow> Scenario list \<Rightarrow> Result list" where
  "results_of run ss = map (\<lambda>s. projr (run s)) (filter (\<lambda>s. \<not> isl (run s)) ss)"

lemma run_all_spec:
  "run_all run f ss = (results, failed) \<Longrightarrow>
     (\<not> failed \<longleftrightarrow> (\<forall>s \<in> set (map (apply_overrides f) ss). \<exists>r. run s = Inr r \<and> passes s r))
     \<and> results = results_of run (map (apply_overrides f) ss)"
proof (induction ss arbitrary: results failed)
  case (Cons s ss)
  obtain rs b where rest: "run_all run f ss = (rs, b)" by (cases "run_all run f ss")
  from Cons.IH [OF rest] Cons.prems rest show ?case
    by (cases "run (apply_overrides f s)") (auto simp: Let_def results_of_def)
qed (simp add: results_of_def)

lemma loadtest_main_cases:
  assumes "loadtest_main env wd exists jsonOk f = Some e"
  obtains (listed) "fList f" "e = Listed printScenarioList"
  | (nodir) err where "\<not> fList f" "resolve_dir wd exists f = Some (Inl err)" "e = NoCertDir err"
  | (unknown) dir where "\<not> fList f" "resolve_dir wd exists f = Some (Inr dir)" "selectScenarios (fScenario f) = []"
      "e = UnknownScenario (fScenario f)"
  | (ran) dir results failed where "\<not> fList f" "resolve_dir wd exists f = Some (Inr dir)" "selectScenarios (fScenario f) \<noteq> []"
      "run_all (\<lambda>s. RunScenario (env s) s dir) f (selectScenarios (fScenario f)) = (results, failed)"
      "e = (if fJSON f \<and> results \<noteq> [] \<and> \<not> jsonOk results then JSONFailed
            else Done results (if fJSON f then [] else results)
              (if \<not> fJSON f \<and> length results > 1 then PrintSummary results else '''') failed)"
  using assms
  by (auto simp: loadtest_main_def Let_def split: if_splits option.splits sum.splits prod.splits)

text \<open>
  C35. The exit status can be trusted: the command exits with zero exactly if it was only asked to list
  the scenarios, or the certificates were found, the scenario is known, every selected scenario, with the
  overrides of the command line, could be run and met its threshold, and the JSON report, if asked for, could
  be written. When it has run scenarios, its results are exactly those of the scenarios that ran without
  an error, in order; as text each of them is printed, with the summary table when there is more than one.
\<close>

theorem loadtest_exit_status:
  assumes "loadtest_main env wd exists jsonOk f = Some e"
  shows "(exit_status e = 0 \<longleftrightarrow>
      fList f \<or> (\<exists>dir. resolve_dir wd exists f = Some (Inr dir)
        \<and> (let run = (\<lambda>s. RunScenario (env s) s dir); chosen = map (apply_overrides f) (selectScenarios (fScenario f)) in
           chosen \<noteq> [] \<and> (\<forall>s \<in> set chosen. \<exists>r. run s = Inr r \<and> passes s r)
           \<and> (fJSON f \<longrightarrow> jsonOk (results_of run chosen)))))
    \<and> (\<forall>results printed summary failed. e = Done results printed summary failed \<longrightarrow>
        (\<exists>dir. resolve_dir wd exists f = Some (Inr dir)
          \<and> results = results_of (\<lambda>s. RunScenario (env s) s dir) (map (apply_overrides f) (selectScenarios (fScenario f))))
        \<and> printed = (if fJSON f then [] else results)
        \<and> summary = (if \<not> fJSON f \<and> length results > 1 then PrintSummary results else ''''))"
  using assms
proof (cases rule: loadtest_main_cases)
  case (ran dir results failed)
  let ?run = "\<lambda>s. RunScenario (env s) s dir" and ?chosen = "map (apply_overrides f) (selectScenarios (fScenario f))"
  note spec = run_all_spec [OF ran(4)]
  have "results \<noteq> []" if "\<not> failed"
  proof -
    obtain s where "s \<in> set ?chosen" using ran(3) by (cases "selectScenarios (fScenario f)") auto
    with spec that have "s \<in> set (filter (\<lambda>s. \<not> isl (?run s)) ?chosen)" by fastforce
    with spec show ?thesis by (auto simp: results_of_def filter_empty_conv)
  qed
  with ran spec show ?thesis by (auto simp: exit_status_def Let_def)
qed (auto simp: exit_status_def Let_def)

definition demo_run_env :: run_env where
  "demo_run_env = \<lparr>harnessEnv = demo_good_env, recorded = (\<lambda>_. RecordSuccess), startedAt = 0, endedAt = 1000000000\<rparr>"

definition demo_flags :: load_flags where
  "demo_flags = \<lparr>fScenario = ''tcp-plaintext'', fList = False, fConcurrency = 2, fDuration = 0, fPayload = 0, fJSON = False,
     fCertDir = ''d''\<rparr>"

theorem loadtest_exit_status_witness:
  "\<exists>r. loadtest_main (\<lambda>_. demo_run_env) (Inl '''') (\<lambda>_. False) (\<lambda>_. True) demo_flags = Some (Done [r] [r] '''' False)
     \<and> exit_status (Done [r] [r] '''' False) = 0
     \<and> (\<exists>s. scName s = ''tcp-plaintext'' \<and> RunScenario demo_run_env s ''d'' = Inr r)"
proof -
  let ?main = "loadtest_main (\<lambda>_. demo_run_env) (Inl '''') (\<lambda>_. False) (\<lambda>_. True) demo_flags"
  have "case ?main of Some (Done [r] printed t b) \<Rightarrow> \<not> b | _ \<Rightarrow> False" by code_simp
  then obtain r printed t where main: "?main = Some (Done [r] printed t False)"
    by (auto split: option.splits load_exit.splits list.splits)
  have chosen: "map (apply_overrides demo_flags) (selectScenarios ''tcp-plaintext'') = [apply_overrides demo_flags (hd DefaultScenarios)]"
      "scName (apply_overrides demo_flags (hd DefaultScenarios)) = ''tcp-plaintext''"
    by (simp_all add: selectScenarios_def ListScenarios_def DefaultScenarios_def scenario_def apply_overrides_def Let_def)
  from loadtest_exit_status [OF main, THEN conjunct2, rule_format, OF refl] have "printed = [r]" "t = ''''"
    and "[r] = results_of (\<lambda>s. RunScenario demo_run_env s ''d'') [apply_overrides demo_flags (hd DefaultScenarios)]"
    by (simp_all add: demo_flags_def chosen [unfolded demo_flags_def] resolve_dir_def)
  then have "RunScenario demo_run_env (apply_overrides demo_flags (hd DefaultScenarios)) ''d'' = Inr r"
    by (auto simp: results_of_def split: if_splits)
  with main \<open>printed = [r]\<close> \<open>t = ''''\<close> chosen(2) show ?thesis by (auto simp: exit_status_def)
qed

text \<open>
  A scenario that fails its own check disappears from the report: \<open>RunScenario\<close> returns the result together
  with the error, and the command drops it. The check that the command makes afterwards can never fail, so
  its failure message for such a scenario is never printed.
\<close>

theorem failed_validation_unreported:
  assumes "Validate s = Some v"
  shows "(case RunScenario E s dir of Inr r \<Rightarrow> passes s r | Inl (ValidationFailed e r) \<Rightarrow> v r = Some e | Inl _ \<Rightarrow> True)
    \<and> (\<forall>e r f. RunScenario E (apply_overrides f s) dir = Inl (ValidationFailed e r)
         \<longrightarrow> run_all (\<lambda>s. RunScenario E s dir) f [s] = ([], True))"
  using assms by (auto simp: RunScenario_def passes_def Let_def split: prod.splits option.splits)

definition strict_scenario :: Scenario where
  "strict_scenario = (scenario ''strict'' '''' (harness_default\<lparr>hMode := ''tcp''\<rparr>) 1 1)
     \<lparr>Validate := Some (\<lambda>r. if ErrorCount r = 0 then None else Some ''errors'')\<rparr>"

definition failing_env :: run_env where
  "failing_env = demo_run_env\<lparr>recorded := (\<lambda>_. RecordError ''dial'')\<rparr>"

theorem failed_validation_unreported_witness:
  "\<exists>e r. RunScenario failing_env (apply_overrides demo_flags strict_scenario) ''d'' = Inl (ValidationFailed e r)
     \<and> run_all (\<lambda>s. RunScenario failing_env s ''d'') demo_flags [strict_scenario] = ([], True)"
proof -
  have "case RunScenario failing_env (apply_overrides demo_flags strict_scenario) ''d'' of
      Inl (ValidationFailed e r) \<Rightarrow> True | _ \<Rightarrow> False"
    by code_simp
  then obtain e r where run: "RunScenario failing_env (apply_overrides demo_flags strict_scenario) ''d'' = Inl (ValidationFailed e r)"
    by (auto split: sum.splits run_error.splits)
  obtain v where "Validate strict_scenario = Some v" by (simp add: strict_scenario_def)
  from failed_validation_unreported [OF this, of failing_env "''d''"] run show ?thesis by blast
qed

text \<open>The built-in scenarios are well formed, so none of them can fail on its mode.\<close>

lemma DefaultScenarios_wf:
  "list_all (\<lambda>s. scMode s = hMode (scHarness s) \<and> scMode s \<in> {''tcp'', ''http''} \<and> 0 < Concurrency s \<and> 0 < scDuration s
     \<and> 0 \<le> PayloadSize s) DefaultScenarios \<and> distinct (map scName DefaultScenarios)"
  by (simp add: DefaultScenarios_def scenario_def harness_default_def tenSeconds_def Let_def)

lemma DefaultScenarios_mode:
  assumes "s \<in> set ListScenarios"
  shows "make_generator s h \<noteq> None"
  using assms DefaultScenarios_wf by (auto simp: ListScenarios_def list_all_iff make_generator_def Let_def)

lemma selectScenarios_known: "selectScenarios name = [] \<longleftrightarrow> name \<noteq> ''all'' \<and> name \<notin> scName ` set ListScenarios"
proof -
  have "ListScenarios \<noteq> []" by (simp add: ListScenarios_def DefaultScenarios_def Let_def)
  then show ?thesis by (auto simp: selectScenarios_def find_None_iff dest!: find_SomeD split: option.splits)
qed

end
