(* ===== verification/Config_Flags.thy ===== *)
theory Config_Flags
  imports Config_Tables
begin

text \<open>
  Facts on the tables of \<open>internal/config\<close>: what \<open>RegisterFlags\<close> registers in general, and the agreement
  of flags, defaults, descriptions and help groups.
\<close>

text \<open>The flags of the leaves, in the order of registration; registering succeeds iff their names differ.\<close>

fun leaf_flags :: "(string \<times> cval) list \<Rightarrow> string \<Rightarrow> flag list" where
  "leaf_flags [] pre = []"
| "leaf_flags ((key, val) # m) pre =
     (case val of
        CMap v \<Rightarrow> leaf_flags v (flag_name pre key)
      | _ \<Rightarrow> (case leaf_flag (flag_name pre key) val of Some f \<Rightarrow> [f] | None \<Rightarrow> [])) @ leaf_flags m pre"

definition define_all :: "flag list \<Rightarrow> flag list \<Rightarrow> flag list option" where
  "define_all new fs = fold (\<lambda>f r. Option.bind r (flag_define f)) new (Some fs)"

lemma fold_bind_None: "fold (\<lambda>f r. Option.bind r (flag_define f)) fs None = None"
  by (induction fs) auto

lemma define_all_append: "define_all (new @ new') fs = Option.bind (define_all new fs) (define_all new')"
  by (cases "define_all new fs") (simp_all add: define_all_def fold_bind_None)

lemma define_all_simps [simp]: "define_all [] = Some" "define_all [f] = flag_define f"
  by (simp_all add: define_all_def fun_eq_iff)

lemma define_all_Cons: "define_all (f # new) fs = Option.bind (flag_define f fs) (define_all new)"
  using define_all_append [of "[f]" new fs] by simp

lemma RegisterFlags_eq: "RegisterFlags m pre fs = define_all (leaf_flags m pre) fs"
proof (induction m pre arbitrary: fs rule: leaf_flags.induct)
  case (2 key val m pre)
  then have tail: "RegisterFlags m pre = define_all (leaf_flags m pre)" by blast
  show ?case using "2.IH"(1) by (cases val) (simp_all add: tail define_all_append define_all_Cons)
qed simp

lemma define_all_distinct:
  "distinct (map flagName (fs @ new)) \<Longrightarrow> define_all new fs = Some (fs @ new)"
proof (induction new arbitrary: fs)
  case (Cons f new)
  have "define_all (f # new) fs = define_all new (fs @ [f])"
    using Cons.prems define_all_append [of "[f]" new fs] by (auto simp: flag_define_def)
  with Cons.IH [of "fs @ [f]"] Cons.prems show ?case by simp
qed simp

definition config_flag :: flag where
  "config_flag = \<lparr>flagName = ''config'', kind = StringFlag, DefValue = '''', Usage = desc_of ''config''\<rparr>"

definition default_flags :: "flag list" where
  "default_flags = leaf_flags DefaultConfig '''' @ [config_flag]"

lemma default_flag_names_distinct: "distinct (map flagName default_flags)"
  by code_simp

lemma register_all_eq: "register_all = Some default_flags"
proof -
  have "register_all = define_all default_flags []"
    by (simp add: register_all_def RegisterFlags_eq default_flags_def define_all_append config_flag_def)
  with define_all_distinct [of "[]" default_flags] default_flag_names_distinct show ?thesis by simp
qed

lemma default_flags_described: "set (map flagName default_flags) = set (map fst flagDesc)"
  by code_simp

lemma flagDesc_distinct: "distinct (map fst flagDesc)"
  by (simp add: flagDesc_def)

lemma help_flags_described: "set (concat (map flags helpGroups)) = set (map fst flagDesc)"
  by code_simp

lemma help_flags_distinct: "distinct (concat (map flags helpGroups))"
  by (simp add: helpGroups_def)

lemma default_flag_keys:
  "map (\<lambda>f. (flag_key (flagName f), DefValue f)) (leaf_flags DefaultConfig '''')
   = map (\<lambda>(p, v). (p, cval_string (Some v))) default_leaves"
  by code_simp

lemma default_flags_usage: "list_all (\<lambda>f. Usage f \<noteq> '''') default_flags"
  by code_simp

text \<open>
  C30. The flags, the defaults, the descriptions and the help screen agree: registering the flags never
  panics on a duplicate name; apart from \<open>-config\<close> there is exactly one flag for each default setting,
  its koanf key is the path of that setting and its default is the setting's default; every flag has a
  description and none is described that does not exist; and the help groups list every flag once.
\<close>

theorem flags_match_defaults:
  "\<exists>fs cfg. register_all = Some (fs @ [cfg]) \<and> flagName cfg = ''config'' \<and> distinct (map flagName (fs @ [cfg]))
     \<and> map (\<lambda>f. (flag_key (flagName f), DefValue f)) fs = map (\<lambda>(p, v). (p, cval_string (Some v))) default_leaves
     \<and> list_all (\<lambda>f. Usage f \<noteq> '''') (fs @ [cfg])
     \<and> set (map flagName (fs @ [cfg])) = set (map fst flagDesc)
     \<and> set (concat (map flags helpGroups)) = set (map fst flagDesc) \<and> distinct (concat (map flags helpGroups))"
proof (intro exI conjI)
  show "register_all = Some (leaf_flags DefaultConfig '''' @ [config_flag])"
    by (simp add: register_all_eq default_flags_def)
  show "distinct (map flagName (leaf_flags DefaultConfig '''' @ [config_flag]))"
    using default_flag_names_distinct by (simp add: default_flags_def)
  show "list_all (\<lambda>f. Usage f \<noteq> '''') (leaf_flags DefaultConfig '''' @ [config_flag])"
    using default_flags_usage by (simp add: default_flags_def)
  show "set (map flagName (leaf_flags DefaultConfig '''' @ [config_flag])) = set (map fst flagDesc)"
    using default_flags_described by (simp add: default_flags_def)
qed (simp add: config_flag_def, (rule default_flag_keys help_flags_described help_flags_distinct)+)

text \<open>No default setting lies below another, so a layer of defaults never shadows part of itself.\<close>

lemma default_keys_unrelated:
  "list_all (\<lambda>p. list_all (\<lambda>q. q = p \<or> \<not> related q p) (map fst default_leaves)) (map fst default_leaves)"
  by code_simp

end
