(* ===== verification/Config_Precedence.thy ===== *)
theory Config_Precedence
  imports Config_Load Config_Flags
begin

text \<open>
  What loading guarantees: which \<open>-config\<close> arguments are found, which files of a directory are loaded,
  and which layer decides a setting. The abstract specification of the whole loading phase is a list of
  layers and the rule that the last layer that has a setting wins (\<open>winner\<close>); \<open>GetConfig_layers\<close> shows that
  the code implements it.
\<close>

section \<open>The -config arguments\<close>

text \<open>Command lines as the program reads them: \<open>-config p\<close>, \<open>-config=p\<close> (one or two dashes), anything else.\<close>

datatype carg = SepArg bool string | EqArg bool string | PlainArg string

definition dashes :: "bool \<Rightarrow> string" where
  "dashes two = (if two then ''--config'' else ''-config'')"

fun render :: "carg \<Rightarrow> string list" where
  "render (SepArg two p) = [dashes two, p]"
| "render (EqArg two p) = [dashes two @ ''='' @ p]"
| "render (PlainArg a) = [a]"

fun carg_ok :: "carg \<Rightarrow> bool" where
  "carg_ok (PlainArg a) =
     (a \<noteq> ''-config'' \<and> a \<noteq> ''--config'' \<and> \<not> HasPrefix a ''-config='' \<and> \<not> HasPrefix a ''--config='')"
| "carg_ok _ = True"

fun carg_path :: "carg \<Rightarrow> string list" where
  "carg_path (SepArg _ p) = [p]"
| "carg_path (EqArg _ p) = [p]"
| "carg_path (PlainArg _) = []"

lemma ParseConfigPaths_render: "carg_ok c \<Longrightarrow> ParseConfigPaths (render c @ args) = carg_path c @ ParseConfigPaths args"
proof (cases c)
  case (EqArg two p)
  then show ?thesis by (cases two) (simp_all add: dashes_def TrimPrefix_def)
qed (auto simp: dashes_def)

text \<open>
  C11. \<open>ParseConfigPaths\<close> finds the path of every \<open>-config\<close> argument, in order, in each of the four
  spellings, wherever it stands among other arguments; a trailing \<open>-config\<close> without a value adds none.
\<close>

theorem ParseConfigPaths_complete:
  assumes "list_all carg_ok cs"
  shows "ParseConfigPaths (concat (map render cs) @ tail)
    = concat (map carg_path cs) @ ParseConfigPaths tail
    \<and> ParseConfigPaths [dashes two] = []"
  using assms by (induction cs) (simp_all add: ParseConfigPaths_render dashes_def)

theorem ParseConfigPaths_complete_witness:
  "ParseConfigPaths [''-server-addr'', '':1'', ''--config'', ''a.yml'', ''-config=b'', ''-config''] = [''a.yml'', ''b'']"
  using ParseConfigPaths_complete [where cs = "[PlainArg ''-server-addr'', PlainArg '':1'', SepArg True ''a.yml'', EqArg False ''b'']"
      and tail = "[''-config'']" and two = False]
  by (simp add: dashes_def)

section \<open>Files of a directory\<close>

text \<open>The files of a directory that are loaded, in the order of \<open>os.ReadDir\<close>.\<close>

definition wanted :: "os_env \<Rightarrow> string \<Rightarrow> bool \<Rightarrow> string \<times> bool \<Rightarrow> bool" where
  "wanted W dirname requireMarker f \<longleftrightarrow>
     \<not> snd f \<and> is_yaml (fst f) \<and> (requireMarker \<longrightarrow> hasMarker W (PathJoin dirname (fst f)))"

definition selected :: "os_env \<Rightarrow> string \<Rightarrow> bool \<Rightarrow> string list" where
  "selected W dirname requireMarker =
     (case ReadDir W dirname of
        Inl _ \<Rightarrow> []
      | Inr files \<Rightarrow> map (\<lambda>f. PathJoin dirname (fst f)) (filter (wanted W dirname requireMarker) files))"

fun load_files :: "'k koanf \<Rightarrow> 'k providers \<Rightarrow> 'k \<Rightarrow> string list \<Rightarrow> 'k \<times> kerr option" where
  "load_files K P k [] = (k, None)"
| "load_files K P k (path # paths) =
     (case loadConfigFile K P k path of (k', Some e) \<Rightarrow> (k', Some e) | (k', None) \<Rightarrow> load_files K P k' paths)"

lemma load_entries_eq:
  "load_entries K W P dirname requireMarker k files =
     load_files K P k (map (\<lambda>f. PathJoin dirname (fst f)) (filter (wanted W dirname requireMarker) files))"
proof (induction files arbitrary: k)
  case (Cons f files)
  then show ?case
    by (cases f) (auto simp: wanted_def is_yaml_def Let_def split: option.splits)
qed simp

lemma loadConfigsFromDir_eq:
  "loadConfigsFromDir K W P k dirname requireMarker =
     (case ReadDir W dirname of
        Inl e \<Rightarrow> (k, Some e) | Inr _ \<Rightarrow> load_files K P k (selected W dirname requireMarker))"
  by (simp add: loadConfigsFromDir_def selected_def load_entries_eq split: sum.split)

section \<open>Layers\<close>

fun merges :: "'k koanf \<Rightarrow> 'k \<Rightarrow> layer list \<Rightarrow> kerr + 'k" where
  "merges K k [] = Inr k"
| "merges K k (l # ls) = bind_res (kMerge K k l) (\<lambda>k'. merges K k' ls)"

definition winner :: "string \<Rightarrow> layer list \<Rightarrow> cval option" where
  "winner p ls = foldl (\<lambda>v l. case l p of Some w \<Rightarrow> Some w | None \<Rightarrow> v) None ls"

definition regular :: "string \<Rightarrow> layer \<Rightarrow> bool" where
  "regular p l \<longleftrightarrow> (\<forall>q \<in> dom l. q \<noteq> p \<longrightarrow> \<not> related q p)"

lemma merges_append:
  "merges K k (ls @ ls') = bind_res (merges K k ls) (\<lambda>k'. merges K k' ls')"
  by (induction ls arbitrary: k) (auto simp: bind_res_def split: sum.split)

lemma kMerge_get:
  assumes "koanf_ok K" "regular p l" "kMerge K k l = Inr k'"
  shows "kGet K k' p = (case l p of Some v \<Rightarrow> Some v | None \<Rightarrow> kGet K k p)"
proof (cases "l p")
  case None
  then have "\<forall>q \<in> dom l. \<not> related q p" using assms(2) by (metis domIff regular_def)
  with None kMerge_miss [OF koanf_okD(2) [OF assms(1)] assms(3)] show ?thesis by simp
next
  case (Some v)
  with kMerge_hit [OF koanf_okD(2) [OF assms(1)] assms(3) Some] assms(2) show ?thesis
    by (simp add: regular_def)
qed

lemma merges_get:
  assumes "koanf_ok K" "list_all (regular p) ls" "merges K k ls = Inr k'"
  shows "kGet K k' p = foldl (\<lambda>v l. case l p of Some w \<Rightarrow> Some w | None \<Rightarrow> v) (kGet K k p) ls"
  using assms(2,3)
proof (induction ls arbitrary: k)
  case (Cons l ls)
  then obtain k1 where k1: "kMerge K k l = Inr k1" "merges K k1 ls = Inr k'"
    by (auto simp: bind_res_eq_Inr)
  with Cons.IH [of k1] Cons.prems kMerge_get [OF assms(1) _ k1(1), of p] show ?case by simp
qed simp

lemma merges_winner:
  assumes "koanf_ok K" "list_all (regular p) ls" "merges K (kNew K) ls = Inr k"
  shows "kGet K k p = winner p ls"
  using merges_get [OF assms] koanf_okD(4) [OF assms(1), of p] by (simp add: winner_def)

section \<open>Loading implements the list of layers\<close>

definition file_layers :: "'k providers \<Rightarrow> string list \<Rightarrow> layer list" where
  "file_layers P paths = map projr (takeWhile (\<lambda>r. \<not> isl r) (map (yamlFile P) (filter is_yaml paths)))"

definition files_ok :: "'k providers \<Rightarrow> string list \<Rightarrow> bool" where
  "files_ok P paths \<longleftrightarrow> list_all (\<lambda>path. \<not> isl (yamlFile P path)) (filter is_yaml paths)"

definition extra_files :: "os_env \<Rightarrow> string list \<Rightarrow> string list" where
  "extra_files W paths = concat (map (\<lambda>p. if Stat W p = Inr True then selected W p False else [p]) paths)"

lemma file_layers_append: "files_ok P xs \<Longrightarrow> file_layers P (xs @ ys) = file_layers P xs @ file_layers P ys"
proof (induction xs)
  case (Cons x xs)
  then show ?case by (cases "is_yaml x") (simp_all add: file_layers_def files_ok_def)
qed (simp add: file_layers_def)

lemma load_layer_Inr:
  assumes "koanf_merge_ok K" "load_layer K k (Inr l) = (k', e)"
  shows "kMerge K k l = Inr k' \<and> e = None"
  using kMerge_total [OF assms(1), of k l] assms(2) by (auto simp: load_layer_def)

lemma load_files_layers:
  assumes "koanf_merge_ok K" "load_files K P k paths = (k', e)"
  shows "merges K k (file_layers P paths) = Inr k' \<and> (e = None \<longleftrightarrow> files_ok P paths)"
  using assms(2)
proof (induction paths arbitrary: k)
  case Nil
  then show ?case by (simp add: file_layers_def files_ok_def)
next
  case (Cons path paths)
  show ?case
  proof (cases "is_yaml path")
    case False
    with Cons show ?thesis by (simp add: loadConfigFile_def file_layers_def files_ok_def)
  next
    case yaml: True
    show ?thesis
    proof (cases "yamlFile P path")
      case (Inl err)
      with yaml Cons.prems show ?thesis by (auto simp: loadConfigFile_def load_layer_def file_layers_def files_ok_def)
    next
      case (Inr l)
      obtain k1 where k1: "kMerge K k l = Inr k1" using kMerge_total [OF assms(1)] by blast
      with yaml Inr Cons.prems have "load_files K P k1 paths = (k', e)"
        by (simp add: loadConfigFile_def load_layer_def)
      with Cons.IH [of k1] k1 yaml Inr show ?thesis by (simp add: file_layers_def files_ok_def)
    qed
  qed
qed

lemma dir_layers:
  assumes "koanf_merge_ok K" "loadConfigsFromDir K W P k dirname req = (k', e)"
  shows "merges K k (file_layers P (selected W dirname req)) = Inr k' \<and> (e = None \<longrightarrow> files_ok P (selected W dirname req))"
proof (cases "ReadDir W dirname")
  case (Inl err)
  with assms show ?thesis by (auto simp: loadConfigsFromDir_eq selected_def file_layers_def)
next
  case (Inr files)
  with assms load_files_layers [OF assms(1), of P k "selected W dirname req" k' e] show ?thesis
    by (simp add: loadConfigsFromDir_eq)
qed

lemma load_extra_layers:
  assumes "koanf_merge_ok K" "load_extra K W P k paths = Inr k'"
  shows "merges K k (file_layers P (extra_files W paths)) = Inr k'"
  using assms(2)
proof (induction paths arbitrary: k)
  case Nil
  then show ?case by (simp add: extra_files_def file_layers_def)
next
  case (Cons p ps)
  let ?here = "if Stat W p = Inr True then selected W p False else [p]"
  obtain k1 where k1: "merges K k (file_layers P ?here) = Inr k1" "files_ok P ?here" "load_extra K W P k1 ps = Inr k'"
  proof (cases "Stat W p")
    case (Inl e)
    with Cons.prems show ?thesis by simp
  next
    case (Inr isDir)
    show ?thesis
    proof (cases isDir)
      case True
      with Inr Cons.prems obtain k1 where "loadConfigsFromDir K W P k p False = (k1, None)" "load_extra K W P k1 ps = Inr k'"
        by (auto split: prod.splits option.splits)
      with dir_layers [OF assms(1), of W P k p False k1 None] Inr True that show ?thesis by simp
    next
      case False
      with Inr Cons.prems obtain k1 where "loadConfigFile K P k p = (k1, None)" "load_extra K W P k1 ps = Inr k'"
        by (auto split: prod.splits option.splits)
      with load_files_layers [OF assms(1), of P k "[p]" k1 None] Inr False that show ?thesis by simp
    qed
  qed
  then show ?case using Cons.IH [of k1]
    by (simp add: extra_files_def file_layers_append merges_append)
qed

definition config_layers :: "os_env \<Rightarrow> 'k providers \<Rightarrow> string list \<Rightarrow> layer list" where
  "config_layers W P paths =
     default_layer # file_layers P (selected W (Getwd W) True) @ file_layers P (extra_files W paths)"

lemma GetConfig_layers:
  assumes "koanf_ok K" "GetConfig K W P paths = Inr k"
  shows "merges K (kNew K) (config_layers W P paths) = Inr k"
proof -
  note mok = koanf_okD(2) [OF assms(1)]
  obtain k0 where k0: "kMerge K (kNew K) default_layer = Inr k0" using kMerge_total [OF mok] by blast
  obtain k1 e where k1: "loadConfigsFromDir K W P k0 (Getwd W) True = (k1, e)" by (metis surj_pair)
  with assms(2) k0 have "load_extra K W P k1 paths = Inr k" by (simp add: GetConfig_def load_layer_def)
  with load_extra_layers [OF mok] dir_layers [OF mok k1] k0 show ?thesis
    by (simp add: config_layers_def merges_append)
qed

section \<open>Environment and flags on top\<close>

text \<open>
  The documented behaviour of the flag provider when it is given the store: a flag that was set is
  loaded under the key the callback gives, a flag at its default is loaded only when the store has no
  value for its key, and a callback that gives the empty key skips the flag.
\<close>

definition flag_layer ::
  "'k koanf \<Rightarrow> flag_values \<Rightarrow> (string \<Rightarrow> string \<Rightarrow> string \<times> string) \<Rightarrow> 'k \<Rightarrow> layer \<Rightarrow> bool" where
  "flag_layer K parsed cb k l \<longleftrightarrow>
     (\<forall>q v. l q = Some v \<longrightarrow> q \<noteq> ''''
        \<and> (\<exists>n s g t. (n, s, g) \<in> set parsed \<and> cb n s = (q, t) \<and> v = CStr t \<and> (g \<or> kGet K k q = None)))
     \<and> (\<forall>n s q t. (n, s, True) \<in> set parsed \<and> cb n s = (q, t) \<and> q \<noteq> '''' \<longrightarrow> l q \<noteq> None)"

definition flag_provider_ok :: "'k koanf \<Rightarrow> 'k providers \<Rightarrow> bool" where
  "flag_provider_ok K P \<longleftrightarrow>
     (\<forall>parsed cb k. \<exists>l. flagProvider P parsed cb k = Inr l \<and> flag_layer K parsed cb k l)"

text \<open>
  A setting that the sources treat as a scalar: no file, variable or flag defines a path above or below
  it, and no two flags share a key.
\<close>

definition scalar_setting :: "'k providers \<Rightarrow> flag_values \<Rightarrow> string \<Rightarrow> bool" where
  "scalar_setting P parsed p \<longleftrightarrow>
     (\<forall>path l. yamlFile P path = Inr l \<longrightarrow> regular p l)
     \<and> (\<forall>l. envProvider P env_prefix env_key = Inr l \<longrightarrow> regular p l)
     \<and> (\<forall>(n, s, given) \<in> set parsed. flag_key n = p \<or> \<not> related (flag_key n) p)
     \<and> distinct (map (\<lambda>(n, _). flag_key n) parsed)"

definition given_flag :: "flag_values \<Rightarrow> string \<Rightarrow> string option" where
  "given_flag parsed p =
     map_of (map (\<lambda>(n, s, _). (flag_key n, s)) (filter (\<lambda>(n, _, given). given \<and> n \<noteq> ''config'') parsed)) p"

definition env_value :: "'k providers \<Rightarrow> string \<Rightarrow> cval option" where
  "env_value P p = (case envProvider P env_prefix env_key of Inr l \<Rightarrow> l p | Inl _ \<Rightarrow> None)"

lemma LoadEnvVars_get:
  assumes "koanf_ok K" "scalar_setting P parsed p"
  shows "kGet K (LoadEnvVars K P k) p = (case env_value P p of Some v \<Rightarrow> Some v | None \<Rightarrow> kGet K k p)"
proof (cases "envProvider P env_prefix env_key")
  case (Inl e)
  then show ?thesis by (simp add: LoadEnvVars_def load_layer_def env_value_def)
next
  case (Inr l)
  obtain k' where k': "kMerge K k l = Inr k'" using kMerge_total [OF koanf_okD(2) [OF assms(1)]] by blast
  have "regular p l" using assms(2) Inr by (simp add: scalar_setting_def)
  with kMerge_get [OF assms(1) _ k'] Inr k' show ?thesis
    by (simp add: LoadEnvVars_def load_layer_def env_value_def)
qed

lemma given_flag_Some:
  assumes "distinct (map (\<lambda>(n, _). flag_key n) parsed)"
  shows "given_flag parsed p = Some s \<longleftrightarrow> (\<exists>n. (n, s, True) \<in> set parsed \<and> n \<noteq> ''config'' \<and> flag_key n = p)"
proof -
  let ?fs = "filter (\<lambda>(n, _, given). given \<and> n \<noteq> ''config'') parsed"
  have "distinct (map (\<lambda>(n, _). flag_key n) ?fs)" using assms by (rule distinct_map_filter)
  then have "distinct (map fst (map (\<lambda>(n, s, _). (flag_key n, s)) ?fs))"
    by (simp add: comp_def case_prod_unfold)
  then show ?thesis unfolding given_flag_def by (subst map_of_eq_Some_iff) (auto simp: image_iff split: prod.splits)
qed

lemma same_flag_key:
  assumes "distinct (map (\<lambda>(n, _). flag_key n) parsed)" "(n, s, g) \<in> set parsed" "(n', s', g') \<in> set parsed"
    and "flag_key n = flag_key n'"
  shows "s = s' \<and> g = g' \<and> n = n'"
proof -
  have "inj_on (\<lambda>(n, _). flag_key n) (set parsed)" using assms(1) by (simp add: distinct_map)
  from inj_onD [OF this _ assms(2,3)] assms(4) show ?thesis by simp
qed

lemma flag_layer_entry:
  assumes "flag_layer K parsed cb k l" "l q = Some v"
  obtains n s g t where "q \<noteq> ''''" "(n, s, g) \<in> set parsed" "cb n s = (q, t)" "v = CStr t" "g \<or> kGet K k q = None"
proof -
  from assms(1) have "\<forall>q v. l q = Some v \<longrightarrow> q \<noteq> ''''
      \<and> (\<exists>n s g t. (n, s, g) \<in> set parsed \<and> cb n s = (q, t) \<and> v = CStr t \<and> (g \<or> kGet K k q = None))"
    unfolding flag_layer_def by (rule conjunct1)
  with assms(2) that show ?thesis by metis
qed

lemma flag_layer_given:
  "flag_layer K parsed cb k l \<Longrightarrow> (n, s, True) \<in> set parsed \<Longrightarrow> cb n s = (q, t) \<Longrightarrow> q \<noteq> '''' \<Longrightarrow> l q \<noteq> None"
  unfolding flag_layer_def by metis

lemma flag_layer_get:
  assumes dist: "distinct (map (\<lambda>(n, _). flag_key n) parsed)" and l: "flag_layer K parsed flag_cb k l"
    and present: "kGet K k p \<noteq> None" and p: "p \<noteq> ''''"
  shows "l p = map_option CStr (given_flag parsed p)"
proof (cases "given_flag parsed p")
  case None
  have "False" if "l p = Some v" for v
  proof -
    from flag_layer_entry [OF l that] present
    obtain n s g t where "(n, s, g) \<in> set parsed" "flag_cb n s = (p, t)" "g" by metis
    then have "given_flag parsed p = Some s"
      using p by (auto simp: given_flag_Some [OF dist] flag_cb_def split: if_splits)
    with None show False by simp
  qed
  with None show ?thesis by (cases "l p") auto
next
  case (Some s)
  then obtain n where n: "(n, s, True) \<in> set parsed" "n \<noteq> ''config''" "flag_key n = p"
    by (auto simp: given_flag_Some [OF dist])
  then have "flag_cb n s = (p, s)" by (simp add: flag_cb_def)
  with n(1) p l obtain v where v: "l p = Some v" by (metis flag_layer_given option.exhaust)
  from flag_layer_entry [OF l v]
  obtain n' s' g t where n': "(n', s', g) \<in> set parsed" "flag_cb n' s' = (p, t)" "v = CStr t" by metis
  then have "flag_key n' = p" "t = s'" using p by (auto simp: flag_cb_def split: if_splits)
  with same_flag_key [OF dist n(1) n'(1)] n(3) n'(3) v Some show ?thesis by simp
qed

lemma LoadFlags_get:
  assumes ok: "koanf_ok K" "flag_provider_ok K P" "scalar_setting P parsed p"
    and present: "kGet K k p \<noteq> None" and p: "p \<noteq> ''''"
  shows "kGet K (LoadFlags K P parsed k) p =
    (case given_flag parsed p of Some s \<Rightarrow> Some (CStr s) | None \<Rightarrow> kGet K k p)"
proof -
  from ok(3) have dist: "distinct (map (\<lambda>(n, _). flag_key n) parsed)"
    and un: "\<And>n s g. (n, s, g) \<in> set parsed \<Longrightarrow> flag_key n = p \<or> \<not> related (flag_key n) p"
    by (auto simp: scalar_setting_def)
  obtain l where l: "flagProvider P parsed flag_cb k = Inr l" "flag_layer K parsed flag_cb k l"
    using ok(2) unfolding flag_provider_ok_def by blast
  obtain k' where k': "kMerge K k l = Inr k'" using kMerge_total [OF koanf_okD(2) [OF ok(1)]] by blast
  have reg: "regular p l" unfolding regular_def
  proof (intro ballI impI)
    fix q assume "q \<in> dom l" "q \<noteq> p"
    then obtain n s g t where n: "(n, s, g) \<in> set parsed" "flag_cb n s = (q, t)" "q \<noteq> ''''"
      using flag_layer_entry [OF l(2)] by (metis domD)
    then have "flag_key n = q" by (auto simp: flag_cb_def split: if_splits)
    with un [OF n(1)] \<open>q \<noteq> p\<close> show "\<not> related q p" by blast
  qed
  have "LoadFlags K P parsed k = k'" by (simp add: LoadFlags_def load_layer_def l k')
  with kMerge_get [OF ok(1) reg k'] flag_layer_get [OF dist l(2) present p] show ?thesis
    by (simp split: option.split)
qed

section \<open>The whole loading phase\<close>

lemma default_layer_regular:
  assumes "default_layer p = Some d"
  shows "regular p default_layer"
proof -
  have mem: "q \<in> set (map fst default_leaves)" if "default_layer q = Some v" for q v
    using that map_of_SomeD [of default_leaves q v] by (force simp: default_layer_def)
  have "q = p \<or> \<not> related q p" if "q \<in> dom default_layer" for q
    using that mem [OF assms] mem default_keys_unrelated unfolding list_all_iff by blast
  then show ?thesis by (auto simp: regular_def)
qed

lemma winner_default: "default_layer p = Some d \<Longrightarrow> winner p (config_layers W P paths) \<noteq> None"
proof -
  have "foldl (\<lambda>v l. case l p of Some w \<Rightarrow> Some w | None \<Rightarrow> v) (Some d) ls \<noteq> None" for ls :: "layer list" and d
    by (induction ls arbitrary: d) (auto split: option.splits)
  from this [of d "tl (config_layers W P paths)"]
  show "default_layer p = Some d \<Longrightarrow> ?thesis" by (simp add: winner_def config_layers_def)
qed

lemma file_layers_regular:
  assumes "scalar_setting P parsed p"
  shows "list_all (regular p) (file_layers P paths)"
proof -
  have "regular p l" if "l \<in> set (file_layers P paths)" for l
  proof -
    from that obtain r where "r \<in> set (takeWhile (\<lambda>r. \<not> isl r) (map (yamlFile P) (filter is_yaml paths)))" "l = projr r"
      by (auto simp: file_layers_def)
    then obtain path where "yamlFile P path = Inr l" by (auto dest!: set_takeWhileD)
    with assms show ?thesis by (auto simp: scalar_setting_def)
  qed
  then show ?thesis by (simp add: list_all_iff)
qed

lemma default_layer_Nil: "default_layer '''' = None"
  by code_simp


text \<open>A command line that sets the mode, an environment that sets the address, no files.\<close>

definition ref_flagProvider ::
  "flag_values \<Rightarrow> (string \<Rightarrow> string \<Rightarrow> string \<times> string) \<Rightarrow> layer \<Rightarrow> kerr + layer" where
  "ref_flagProvider parsed cb k =
     Inr (\<lambda>q. if q = '''' then None
              else map_option (\<lambda>(n, s, g). CStr (snd (cb n s)))
                     (find (\<lambda>(n, s, g). fst (cb n s) = q \<and> (g \<or> k q = None)) parsed))"

definition demo_os :: os_env where
  "demo_os = \<lparr>Getwd = ''/'', ReadDir = (\<lambda>_. Inr []), Stat = (\<lambda>_. Inl ''no such file''), OpenRead = (\<lambda>_. None)\<rparr>"

definition demo_providers :: "layer providers" where
  "demo_providers = \<lparr>yamlFile = (\<lambda>_. Inl ''no such file''),
     envProvider = (\<lambda>_ _. Inr [''server.addr'' \<mapsto> CStr '':1'']), flagProvider = ref_flagProvider\<rparr>"

definition demo_parsed :: flag_values where
  "demo_parsed = [(''server-type'', ''http'', True), (''server-addr'', '':9898'', False)]"

lemma ref_flag_layer:
  assumes "ref_flagProvider parsed cb k = Inr l"
  shows "flag_layer flat_store parsed cb k l"
  unfolding flag_layer_def
proof (intro conjI allI impI)
  fix q v assume lq: "l q = Some v"
  with assms show "q \<noteq> ''''" by (auto simp: ref_flagProvider_def)
  from lq assms obtain n s g where "find (\<lambda>(n, s, g). fst (cb n s) = q \<and> (g \<or> k q = None)) parsed = Some (n, s, g)"
      and v: "v = CStr (snd (cb n s))"
    by (auto simp: ref_flagProvider_def split: if_splits)
  then have "(n, s, g) \<in> set parsed" "fst (cb n s) = q" "g \<or> k q = None" by (auto dest!: find_SomeD)
  with v show "\<exists>n s g t. (n, s, g) \<in> set parsed \<and> cb n s = (q, t) \<and> v = CStr t \<and> (g \<or> kGet flat_store k q = None)"
    by (intro exI [of _ n] exI [of _ s] exI [of _ g] exI [of _ "snd (cb n s)"]) (simp add: flat_store_simps prod_eq_iff)
next
  fix n s q t assume a: "(n, s, True) \<in> set parsed \<and> cb n s = (q, t) \<and> q \<noteq> ''''"
  then have "find (\<lambda>(n, s, g). fst (cb n s) = q \<and> (g \<or> k q = None)) parsed \<noteq> None"
    by (intro find_not_None [of "(n, s, True)"]) auto
  with assms a show "l q \<noteq> None" by (auto simp: ref_flagProvider_def)
qed

lemma demo_flag_provider_ok: "flag_provider_ok flat_store demo_providers"
  using ref_flag_layer by (auto simp: flag_provider_ok_def demo_providers_def ref_flagProvider_def)

lemma demo_scalar: "scalar_setting demo_providers demo_parsed ''server.type''"
  by (simp add: scalar_setting_def demo_providers_def demo_parsed_def regular_def related_def flag_key_def
      ReplaceChar_def)


section \<open>Which files matter, and which errors are fatal\<close>

lemma load_files_cong:
  "(\<And>path. path \<in> set paths \<Longrightarrow> yamlFile P path = yamlFile P' path) \<Longrightarrow>
   load_files K P k paths = load_files K P' k paths"
  by (induction paths arbitrary: k) (auto simp: loadConfigFile_def split: option.splits prod.splits)

lemma selected_marked: "path \<in> set (selected W dirname True) \<Longrightarrow> hasMarker W path"
  by (auto simp: selected_def wanted_def split: sum.splits)

lemma load_extra_cong:
  "(\<And>path. path \<in> set (extra_files W paths) \<Longrightarrow> yamlFile P path = yamlFile P' path) \<Longrightarrow>
   load_extra K W P k paths = load_extra K W P' k paths"
proof (induction paths arbitrary: k)
  case (Cons p ps)
  let ?here = "if Stat W p = Inr True then selected W p False else [p]"
  have ex: "extra_files W (p # ps) = ?here @ extra_files W ps" by (simp add: extra_files_def)
  have IH: "load_extra K W P k' ps = load_extra K W P' k' ps" for k'
    by (rule Cons.IH) (use Cons.prems ex in auto)
  have here: "load_files K P k ?here = load_files K P' k ?here"
    by (rule load_files_cong) (use Cons.prems ex in auto)
  show ?case
  proof (cases "Stat W p")
    case (Inr isDir)
    show ?thesis
    proof (cases isDir)
      case True
      with Inr here have "loadConfigsFromDir K W P k p False = loadConfigsFromDir K W P' k p False"
        by (simp add: loadConfigsFromDir_eq split: sum.split)
      with Inr True IH show ?thesis by (simp split: prod.split option.split)
    next
      case False
      with Inr Cons.prems ex have "yamlFile P p = yamlFile P' p" by simp
      then have "loadConfigFile K P k p = loadConfigFile K P' k p" by (simp add: loadConfigFile_def)
      with Inr False IH show ?thesis by (simp split: prod.split option.split)
    qed
  qed simp
qed simp

text \<open>
  C27. Stray YAML files cannot change the configuration: a file without the \<open>#tlspxy\<close> marker that is
  neither named by a \<open>-config\<close> argument nor in a directory named by one has no influence, wherever it is, in
  particular in the working directory. Two file systems that agree on the marked files and on the files
  given by \<open>-config\<close> give the same result, whatever their other files contain.
\<close>

theorem unmarked_files_ignored:
  assumes "\<forall>path. hasMarker W path \<or> path \<in> set (extra_files W paths) \<longrightarrow> yamlFile P path = yamlFile P' path"
  shows "GetConfig K W P paths = GetConfig K W P' paths"
proof -
  have "loadConfigsFromDir K W P k (Getwd W) True = loadConfigsFromDir K W P' k (Getwd W) True" for k
    using assms selected_marked load_files_cong [of "selected W (Getwd W) True" P P' K k]
    by (auto simp: loadConfigsFromDir_eq split: sum.split)
  moreover have "load_extra K W P k paths = load_extra K W P' k paths" for k
    using assms by (intro load_extra_cong) blast
  ultimately show ?thesis by (simp add: GetConfig_def Let_def split: prod.split option.split)
qed

definition stray_os :: os_env where
  "stray_os = \<lparr>Getwd = ''/w'', ReadDir = (\<lambda>_. Inr [(''docker-compose.yml'', False)]), Stat = (\<lambda>_. Inl ''none''),
     OpenRead = (\<lambda>_. Some ''services:'')\<rparr>"

theorem unmarked_files_ignored_witness:
  "let W = stray_os\<lparr>Stat := (\<lambda>_. Inr False)\<rparr>; evil = [''remote.addr'' \<mapsto> CStr ''evil:1''] in
   \<not> hasMarker W ''/w/docker-compose.yml''
   \<and> GetConfig flat_store W (demo_providers\<lparr>yamlFile := (\<lambda>p. if p = ''/etc/t.yml'' then Inr Map.empty else Inr evil)\<rparr>) [''/etc/t.yml'']
     = GetConfig flat_store W (demo_providers\<lparr>yamlFile := (\<lambda>_. Inr Map.empty)\<rparr>) [''/etc/t.yml'']"
proof -
  let ?W = "stray_os\<lparr>Stat := (\<lambda>_. Inr False)\<rparr>"
  have no: "\<not> hasMarker ?W path" for path
    unfolding hasMarker_def stray_os_def by (simp, code_simp)
  then show ?thesis unfolding Let_def
    by (intro conjI unmarked_files_ignored) (simp_all add: extra_files_def)
qed

lemma load_extra_ok:
  assumes "koanf_merge_ok K"
  shows "(\<exists>k'. load_extra K W P k paths = Inr k') \<longleftrightarrow>
    list_all (\<lambda>p. \<not> isl (Stat W p) \<and> (Stat W p = Inr True \<longrightarrow> \<not> isl (ReadDir W p))) paths
    \<and> files_ok P (extra_files W paths)"
proof (induction paths arbitrary: k)
  case Nil
  then show ?case by (simp add: extra_files_def files_ok_def)
next
  case (Cons p ps)
  let ?here = "if Stat W p = Inr True then selected W p False else [p]"
  have split: "files_ok P (extra_files W (p # ps)) \<longleftrightarrow> files_ok P ?here \<and> files_ok P (extra_files W ps)"
    by (simp add: extra_files_def files_ok_def)
  show ?case
  proof (cases "Stat W p")
    case (Inl e)
    then show ?thesis by simp
  next
    case (Inr isDir)
    obtain k1 e where lf: "load_files K P k ?here = (k1, e)" by (metis surj_pair)
    note ok = load_files_layers [OF assms lf, THEN conjunct2]
    show ?thesis
    proof (cases isDir)
      case True
      with Inr lf ok split Cons.IH [of k1] show ?thesis
        by (cases "ReadDir W p"; cases e) (auto simp: loadConfigsFromDir_eq)
    next
      case False
      with Inr lf ok split Cons.IH [of k1] show ?thesis
        by (cases e) (auto split: option.splits prod.splits)
    qed
  qed
qed



definition env_name :: "string \<Rightarrow> string" where
  "env_name p = env_prefix @ ToUpper (ReplaceChar (CHR ''.'') (CHR ''_'') p)"

definition key_char :: "char \<Rightarrow> bool" where
  "key_char c \<longleftrightarrow> c = CHR ''.'' \<or> is_digit c \<or> 97 \<le> (of_char c :: nat) \<and> (of_char c :: nat) \<le> 122"

lemma lower_upper: "key_char c \<Longrightarrow> c \<noteq> CHR ''.'' \<Longrightarrow> lower_char (upper_char c) = c \<and> c \<noteq> CHR ''_''"
  by (auto simp: key_char_def is_digit_def lower_char_def upper_char_def)

text \<open>
  Every setting can be set from the environment: for a key of lower-case letters, digits and dots,
  the variable named after it in capitals, with the prefix and with underscores for dots, is loaded
  under exactly that key.
\<close>

theorem env_key_roundtrip:
  assumes "list_all key_char p"
  shows "HasPrefix (env_name p) env_prefix \<and> env_key (env_name p) = p"
proof -
  have up: "upper_char (CHR ''_'') = CHR ''_''" "lower_char (CHR ''_'') = CHR ''_''" by code_simp+
  have "map (\<lambda>c. if lower_char (upper_char (if c = CHR ''.'' then CHR ''_'' else c)) = CHR ''_'' then CHR ''.''
          else lower_char (upper_char (if c = CHR ''.'' then CHR ''_'' else c))) p = p"
    using assms by (intro map_idI) (auto simp: list_all_iff up lower_upper)
  then show ?thesis
    by (simp add: env_name_def env_key_def ReplaceChar_def ToLower_def ToUpper_def comp_def)
qed

theorem env_key_roundtrip_witness:
  "env_key ''TLSPXY_SERVER_TLS_ALPN'' = ''server.tls.alpn''"
proof -
  have "list_all key_char ''server.tls.alpn''" "env_name ''server.tls.alpn'' = ''TLSPXY_SERVER_TLS_ALPN''" by code_simp+
  with env_key_roundtrip [of "''server.tls.alpn''"] show ?thesis by simp
qed

end
