(* ===== verification/Config_Combine.thy ===== *)
theory Config_Combine
  imports Koanf "HOL-Library.AList"
begin

text \<open>
  \<open>internal/config\<close>, \<open>CombineMaps\<close>: nested maps merged left to right. A Go map is an association list
  whose keys are distinct (\<open>wf_cmap\<close>). The recursive call \<open>CombineMaps(existing, v)\<close> copies \<open>existing\<close>
  into an empty map and then merges \<open>v\<close> into the copy; with distinct keys the copy is \<open>existing\<close> itself
  (\<open>merge_into_Nil\<close>), so the model merges into it directly.
\<close>

fun merge_into :: "(string \<times> cval) list \<Rightarrow> (string \<times> cval) list \<Rightarrow> (string \<times> cval) list" where
  "merge_into combined [] = combined"
| "merge_into combined ((key, val) # cfg) =
     merge_into
       (AList.update key
         (case map_of combined key of
            None \<Rightarrow> val
          | Some existing \<Rightarrow>
              (case val of
                 CMap v \<Rightarrow> (case existing of CMap e \<Rightarrow> CMap (merge_into e v) | _ \<Rightarrow> val)
               | _ \<Rightarrow> val))
         combined)
       cfg"

definition CombineMaps :: "(string \<times> cval) list list \<Rightarrow> (string \<times> cval) list" where
  "CombineMaps cfgs = fold (\<lambda>cfg combined. merge_into combined cfg) cfgs []"

fun wf_cmap :: "(string \<times> cval) list \<Rightarrow> bool" where
  "wf_cmap [] = True"
| "wf_cmap ((k, v) # m) =
     (k \<notin> fst ` set m \<and> (case v of CMap n \<Rightarrow> wf_cmap n | _ \<Rightarrow> True) \<and> wf_cmap m)"

fun get_path :: "string list \<Rightarrow> cval \<Rightarrow> cval option" where
  "get_path [] v = Some v"
| "get_path (k # ks) (CMap m) = (case map_of m k of Some v \<Rightarrow> get_path ks v | None \<Rightarrow> None)"
| "get_path (k # ks) _ = None"

fun is_map :: "cval \<Rightarrow> bool" where
  "is_map (CMap m) = True"
| "is_map _ = False"

text \<open>A map speaks about a path when it has a value there, or a value that is no map on the way to it.\<close>

fun touches :: "string list \<Rightarrow> (string \<times> cval) list \<Rightarrow> bool" where
  "touches [] m = True"
| "touches (k # ks) m =
     (case map_of m k of None \<Rightarrow> False | Some v \<Rightarrow> (case v of CMap n \<Rightarrow> touches ks n | _ \<Rightarrow> True))"

section \<open>Lookup in a merged map\<close>

definition merged_value :: "cval option \<Rightarrow> cval \<Rightarrow> cval" where
  "merged_value old val =
     (case (old, val) of (Some (CMap e), CMap v) \<Rightarrow> CMap (merge_into e v) | _ \<Rightarrow> val)"

lemma merge_into_Cons:
  "merge_into combined ((key, val) # cfg) =
     merge_into (AList.update key (merged_value (map_of combined key) val) combined) cfg"
  by (auto simp: merged_value_def split: option.splits cval.splits)

lemma merge_into_other: "k \<notin> fst ` set cfg \<Longrightarrow> map_of (merge_into combined cfg) k = map_of combined k"
proof (induction cfg arbitrary: combined)
  case (Cons kv cfg)
  then show ?case by (cases kv) (simp add: merge_into_Cons update_conv' del: merge_into.simps)
qed simp

lemma wf_cmap_ConsD: "wf_cmap ((k, v) # m) \<Longrightarrow> k \<notin> fst ` set m \<and> wf_cmap m"
  by simp

lemma merge_into_lookup:
  "wf_cmap cfg \<Longrightarrow>
   map_of (merge_into combined cfg) k =
     (case map_of cfg k of None \<Rightarrow> map_of combined k | Some val \<Rightarrow> Some (merged_value (map_of combined k) val))"
proof (induction cfg arbitrary: combined)
  case (Cons kv cfg)
  obtain key val where kv: "kv = (key, val)" by (cases kv)
  with Cons.prems have wf: "key \<notin> fst ` set cfg" "wf_cmap cfg" by (auto dest: wf_cmap_ConsD)
  show ?case
  proof (cases "k = key")
    case True
    with kv wf(1) show ?thesis by (simp add: merge_into_Cons merge_into_other update_conv' del: merge_into.simps)
  next
    case False
    with kv Cons.IH [OF wf(2)] show ?thesis
      by (simp add: merge_into_Cons update_conv' del: merge_into.simps split: option.split)
  qed
qed simp

lemma wf_cmap_distinct: "wf_cmap m \<Longrightarrow> distinct (map fst m)"
  by (induction m rule: wf_cmap.induct) auto

lemma update_fresh: "k \<notin> fst ` set al \<Longrightarrow> AList.update k v al = al @ [(k, v)]"
  by (induction al) auto

lemma merge_into_fresh: "distinct (map fst (acc @ m)) \<Longrightarrow> merge_into acc m = acc @ m"
proof (induction m arbitrary: acc)
  case (Cons kv m)
  obtain key val where kv: "kv = (key, val)" by (cases kv)
  with Cons.prems have "map_of acc key = None" "AList.update key val acc = acc @ [(key, val)]"
    by (simp_all add: map_of_eq_None_iff update_fresh)
  with Cons.IH [of "acc @ [kv]"] Cons.prems kv show ?case by simp
qed simp

text \<open>The copy of \<open>existing\<close> in the recursive call.\<close>

lemma merge_into_Nil: "wf_cmap m \<Longrightarrow> merge_into [] m = m"
  by (simp add: merge_into_fresh wf_cmap_distinct)

lemma wf_cmap_lookup: "wf_cmap m \<Longrightarrow> map_of m k = Some (CMap n) \<Longrightarrow> wf_cmap n"
  by (induction m rule: wf_cmap.induct) (auto split: if_splits)

lemma merge_get_override:
  "wf_cmap b \<Longrightarrow> ks \<noteq> [] \<Longrightarrow> get_path ks (CMap b) = Some v \<Longrightarrow> \<not> is_map v \<Longrightarrow>
   get_path ks (CMap (merge_into a b)) = Some v"
proof (induction ks arbitrary: a b)
  case (Cons k ks)
  then obtain w where w: "map_of b k = Some w" "get_path ks w = Some v" by (auto split: option.splits)
  show ?case
  proof (cases "\<exists>e n. map_of a k = Some (CMap e) \<and> w = CMap n")
    case True
    then obtain e n where en: "map_of a k = Some (CMap e)" "w = CMap n" by blast
    with Cons.prems w have "ks \<noteq> []" by auto
    with Cons.IH [of n e] en w Cons.prems wf_cmap_lookup [of b k n] show ?thesis
      by (simp add: merge_into_lookup merged_value_def)
  next
    case False
    then have "merged_value (map_of a k) w = w" by (auto simp: merged_value_def split: option.splits cval.splits)
    with w Cons.prems show ?thesis by (simp add: merge_into_lookup)
  qed
qed simp

lemma get_path_leaf: "ks \<noteq> [] \<Longrightarrow> \<forall>e. v \<noteq> CMap e \<Longrightarrow> get_path ks v = None"
  by (cases ks; cases v) auto

lemma touches_get: "\<not> touches ks n \<Longrightarrow> ks \<noteq> [] \<and> get_path ks (CMap n) = None"
proof (induction ks n rule: touches.induct)
  case (2 k ks m)
  then show ?case by (auto split: option.splits cval.splits)
qed simp

lemma merge_get_keep:
  "wf_cmap b \<Longrightarrow> \<not> touches ks b \<Longrightarrow> get_path ks (CMap (merge_into a b)) = get_path ks (CMap a)"
proof (induction ks arbitrary: a b)
  case (Cons k ks)
  show ?case
  proof (cases "map_of b k")
    case None
    with Cons.prems show ?thesis by (simp add: merge_into_lookup)
  next
    case (Some w)
    with Cons.prems obtain n where n: "w = CMap n" "\<not> touches ks n" by (auto split: cval.splits)
    then have gone: "get_path ks (CMap n) = None" "ks \<noteq> []" by (auto simp: touches_get)
    show ?thesis
    proof (cases "\<exists>e. map_of a k = Some (CMap e)")
      case True
      then obtain e where "map_of a k = Some (CMap e)" by blast
      with Some n Cons.IH [of n e] Cons.prems wf_cmap_lookup [of b k n] show ?thesis
        by (simp add: merge_into_lookup merged_value_def)
    next
      case False
      then have "merged_value (map_of a k) w = w"
        by (auto simp: merged_value_def split: option.splits cval.splits)
      moreover have "get_path (k # ks) (CMap a) = None"
        using False gone(2) by (auto simp: get_path_leaf split: option.splits)
      ultimately show ?thesis using Some n gone Cons.prems by (simp add: merge_into_lookup)
    qed
  qed
qed simp

lemma CombineMaps_snoc: "CombineMaps (cfgs @ [b]) = merge_into (CombineMaps cfgs) b"
  by (simp add: CombineMaps_def)

text \<open>
  \<open>CombineMaps\<close>: later maps win and nothing else changes. A setting of the last map is found in the
  result at its path, whatever the earlier maps say; and at a path the last map does not speak about,
  at any depth, the result is what the earlier maps combine to.
\<close>

theorem CombineMaps_override:
  assumes "wf_cmap b"
  shows "(p \<noteq> [] \<and> get_path p (CMap b) = Some v \<and> \<not> is_map v \<longrightarrow>
            get_path p (CMap (CombineMaps (cfgs @ [b]))) = Some v)
    \<and> (\<not> touches p b \<longrightarrow>
            get_path p (CMap (CombineMaps (cfgs @ [b]))) = get_path p (CMap (CombineMaps cfgs)))"
  using assms by (simp add: CombineMaps_snoc merge_get_override merge_get_keep)

definition combine_demo :: "(string \<times> cval) list" where
  "combine_demo = CombineMaps
     [[(''server'', CMap [(''addr'', CStr '':1''), (''type'', CStr ''tcp'')])],
      [(''server'', CMap [(''type'', CStr ''http'')])]]"

theorem CombineMaps_override_witness:
  "get_path [''server'', ''type''] (CMap combine_demo) = Some (CStr ''http'')
   \<and> get_path [''server'', ''addr''] (CMap combine_demo) = Some (CStr '':1'')"
  using CombineMaps_override [where cfgs = "[[(''server'', CMap [(''addr'', CStr '':1''), (''type'', CStr ''tcp'')])]]"
      and b = "[(''server'', CMap [(''type'', CStr ''http'')])]" and p = "[''server'', ''type'']" and v = "CStr ''http''"]
    CombineMaps_override [where cfgs = "[[(''server'', CMap [(''addr'', CStr '':1''), (''type'', CStr ''tcp'')])]]"
      and b = "[(''server'', CMap [(''type'', CStr ''http'')])]" and p = "[''server'', ''addr'']"]
  by (simp add: combine_demo_def CombineMaps_def)

end
