(* ===== verification/Tcp_Teardown.thy ===== *)
theory Tcp_Teardown
  imports Transition
begin

text \<open>
  \<open>internal/proxy/tcp.go\<close>, the concurrent phase of a connection: \<open>Start\<close> waiting in its \<open>select\<close>, the
  watcher goroutine, and the two \<open>Pipe\<close> goroutines, which share \<open>ErrorSignal\<close> (a channel of capacity
  one), \<open>CloseOnce\<close>, the root context and the connection context. A state is where each goroutine
  stands and what they share; a step is one atomic move of one of them. Steps of the program itself
  (\<open>prog_step\<close>) are kept apart from what the environment decides (\<open>env_step\<close>): when a pipe meets an
  error, and when the process is told to shut down.
\<close>

datatype dirn = ToRemote | ToServer

text \<open>\<open>Start\<close>: in its \<open>select\<close>, then running its deferred calls one by one.\<close>

datatype main_pc = MainSelect | DeferCloseRemote | DeferConnCancel | DeferCloseServer | MainReturned

datatype watcher_pc = WatchSelect | WatchHolding | WatchDone

record conn_sys =
  signalBuf :: nat
  once :: bool
  mainPc :: main_pc
  watchPc :: watcher_pc
  running :: "dirn \<Rightarrow> bool"
  rootDone :: bool
  connDone :: bool
  serverOpen :: bool
  remoteOpen :: bool
  taken :: bool

definition conn_init :: "conn_sys \<Rightarrow> bool" where
  "conn_init s \<longleftrightarrow>
     signalBuf s = 0 \<and> \<not> once s \<and> mainPc s = MainSelect \<and> watchPc s = WatchSelect \<and> (\<forall>d. running s d)
     \<and> (rootDone s \<longrightarrow> connDone s) \<and> (connDone s \<longrightarrow> rootDone s) \<and> serverOpen s \<and> remoteOpen s \<and> \<not> taken s"

definition pipe_done :: "dirn \<Rightarrow> conn_sys \<Rightarrow> conn_sys" where
  "pipe_done d s = s\<lparr>running := (running s)(d := False)\<rparr>"

definition chan_cap :: nat where
  "chan_cap = 1"

text \<open>
  What the environment decides. A pipe that fails runs \<open>CloseOnce.Do\<close>: the first one sends, which
  needs room in the channel. A pipe may look at its context between two operations. The root context
  is cancelled by a signal to the process, and with it the connection context.
\<close>

inductive env_step :: "conn_sys \<Rightarrow> conn_sys \<Rightarrow> bool" where
  pipe_fails_first: "running s d \<Longrightarrow> \<not> once s \<Longrightarrow> signalBuf s < chan_cap \<Longrightarrow>
     env_step s (pipe_done d (s\<lparr>once := True, signalBuf := Suc (signalBuf s)\<rparr>))"
| pipe_fails_again: "running s d \<Longrightarrow> once s \<Longrightarrow> env_step s (pipe_done d s)"
| pipe_sees_ctx: "running s d \<Longrightarrow> connDone s \<Longrightarrow> env_step s (pipe_done d s)"
| root_cancel: "\<not> rootDone s \<Longrightarrow> env_step s (s\<lparr>rootDone := True, connDone := True\<rparr>)"

text \<open>
  The program's own moves: the two ways out of the \<open>select\<close> of \<open>Start\<close>, its deferred calls, the
  two branches of the watcher with the non-blocking re-send, and a pipe whose connections have been
  closed under it and whose context is cancelled.
\<close>

inductive prog_step :: "conn_sys \<Rightarrow> conn_sys \<Rightarrow> bool" where
  main_signal: "mainPc s = MainSelect \<Longrightarrow> 0 < signalBuf s \<Longrightarrow>
     prog_step s (s\<lparr>mainPc := DeferCloseRemote, signalBuf := signalBuf s - 1, taken := True\<rparr>)"
| main_root: "mainPc s = MainSelect \<Longrightarrow> rootDone s \<Longrightarrow> prog_step s (s\<lparr>mainPc := DeferCloseRemote\<rparr>)"
| close_remote: "mainPc s = DeferCloseRemote \<Longrightarrow>
     prog_step s (s\<lparr>mainPc := DeferConnCancel, remoteOpen := False\<rparr>)"
| conn_cancel: "mainPc s = DeferConnCancel \<Longrightarrow>
     prog_step s (s\<lparr>mainPc := DeferCloseServer, connDone := True\<rparr>)"
| close_server: "mainPc s = DeferCloseServer \<Longrightarrow>
     prog_step s (s\<lparr>mainPc := MainReturned, serverOpen := False\<rparr>)"
| watch_ctx: "watchPc s = WatchSelect \<Longrightarrow> connDone s \<Longrightarrow>
     prog_step s (if rootDone s
                  then s\<lparr>watchPc := WatchDone, serverOpen := False, remoteOpen := False\<rparr>
                  else s\<lparr>watchPc := WatchDone\<rparr>)"
| watch_signal: "watchPc s = WatchSelect \<Longrightarrow> 0 < signalBuf s \<Longrightarrow>
     prog_step s (s\<lparr>watchPc := WatchHolding, signalBuf := signalBuf s - 1\<rparr>)"
| watch_resend: "watchPc s = WatchHolding \<Longrightarrow>
     prog_step s (s\<lparr>watchPc := WatchDone,
                    signalBuf := (if signalBuf s < chan_cap then Suc (signalBuf s) else signalBuf s)\<rparr>)"
| pipe_unblocked: "running s d \<Longrightarrow> connDone s \<Longrightarrow> \<not> serverOpen s \<Longrightarrow> \<not> remoteOpen s \<Longrightarrow>
     prog_step s (pipe_done d s)"

definition conn_step :: "conn_sys \<Rightarrow> conn_sys \<Rightarrow> bool" where
  "conn_step s t \<longleftrightarrow> env_step s t \<or> prog_step s t"

text \<open>
  The invariant: the one error signal there can be is in exactly one place (the buffer, the watcher's
  hand, or taken by \<open>Start\<close>), and the deferred calls have had their effects in order.
\<close>

definition one_signal :: "conn_sys \<Rightarrow> bool" where
  "one_signal s \<longleftrightarrow>
     signalBuf s + (if watchPc s = WatchHolding then 1 else 0) + (if taken s then 1 else 0)
       = (if once s then 1 else 0)"

definition in_order :: "conn_sys \<Rightarrow> bool" where
  "in_order s \<longleftrightarrow>
     (taken s \<longrightarrow> mainPc s \<noteq> MainSelect)
     \<and> (mainPc s \<noteq> MainSelect \<longrightarrow> once s \<or> rootDone s)
     \<and> (rootDone s \<longrightarrow> connDone s)
     \<and> (mainPc s \<notin> {MainSelect, DeferCloseRemote} \<longrightarrow> \<not> remoteOpen s)
     \<and> (mainPc s \<in> {DeferCloseServer, MainReturned} \<longrightarrow> connDone s)
     \<and> (mainPc s = MainReturned \<longrightarrow> \<not> serverOpen s)"

definition conn_inv :: "conn_sys \<Rightarrow> bool" where
  "conn_inv s \<longleftrightarrow> one_signal s \<and> in_order s"

lemma env_step_one_signal: "env_step s t \<Longrightarrow> one_signal s \<Longrightarrow> one_signal t"
  by (induction rule: env_step.induct) (simp_all add: one_signal_def pipe_done_def)

lemma env_step_in_order: "env_step s t \<Longrightarrow> in_order s \<Longrightarrow> in_order t"
  by (induction rule: env_step.induct) (auto simp: in_order_def pipe_done_def)

lemma one_signal_bound: "one_signal s \<Longrightarrow> signalBuf s \<le> 1"
  by (simp add: one_signal_def split: if_splits)

lemma holding_empties_buffer: "one_signal s \<Longrightarrow> watchPc s = WatchHolding \<Longrightarrow> signalBuf s = 0"
  by (simp add: one_signal_def split: if_splits)

lemma full_buffer_alone:
  "one_signal s \<Longrightarrow> 0 < signalBuf s \<Longrightarrow> signalBuf s = 1 \<and> watchPc s \<noteq> WatchHolding \<and> \<not> taken s \<and> once s"
  by (simp add: one_signal_def split: if_splits)

lemma prog_step_one_signal: "prog_step s t \<Longrightarrow> one_signal s \<Longrightarrow> one_signal t"
proof (induction rule: prog_step.induct)
  case (watch_resend s)
  with holding_empties_buffer [of s] show ?case by (simp add: one_signal_def chan_cap_def)
next
  case (main_signal s)
  with full_buffer_alone [of s] show ?case by (simp add: one_signal_def)
next
  case (watch_signal s)
  with full_buffer_alone [of s] show ?case by (simp add: one_signal_def)
next
  case (watch_ctx s)
  then show ?case by (cases "rootDone s") (simp_all add: one_signal_def)
qed (simp_all add: one_signal_def pipe_done_def)

lemma prog_step_in_order: "prog_step s t \<Longrightarrow> one_signal s \<Longrightarrow> in_order s \<Longrightarrow> in_order t"
proof (induction rule: prog_step.induct)
  case (main_signal s)
  with full_buffer_alone [of s] show ?case by (simp add: in_order_def)
qed (auto simp: in_order_def pipe_done_def)

lemma env_step_inv: "env_step s t \<Longrightarrow> conn_inv s \<Longrightarrow> conn_inv t"
  by (simp add: conn_inv_def env_step_one_signal env_step_in_order)

lemma prog_step_inv: "prog_step s t \<Longrightarrow> conn_inv s \<Longrightarrow> conn_inv t"
  by (simp add: conn_inv_def prog_step_one_signal prog_step_in_order)

lemma conn_init_inv: "conn_init s \<Longrightarrow> conn_inv s"
  by (simp add: conn_init_def conn_inv_def one_signal_def in_order_def)

lemma conn_step_inv: "conn_step s t \<Longrightarrow> conn_inv s \<Longrightarrow> conn_inv t"
  by (auto simp: conn_step_def intro: env_step_inv prog_step_inv)

interpretation teardown: invariant_system conn_init conn_step conn_inv
  by unfold_locales (auto intro: conn_init_inv conn_step_inv)

text \<open>Teardown has begun: a pipe has failed or the process is shutting down.\<close>

definition triggered :: "conn_sys \<Rightarrow> bool" where
  "triggered s \<longleftrightarrow> once s \<or> rootDone s"

definition torn_down :: "conn_sys \<Rightarrow> bool" where
  "torn_down s \<longleftrightarrow>
     mainPc s = MainReturned \<and> watchPc s = WatchDone \<and> (\<forall>d. \<not> running s d) \<and> \<not> serverOpen s \<and> \<not> remoteOpen s"

fun main_rank :: "main_pc \<Rightarrow> nat" where
  "main_rank MainSelect = 4"
| "main_rank DeferCloseRemote = 3"
| "main_rank DeferConnCancel = 2"
| "main_rank DeferCloseServer = 1"
| "main_rank MainReturned = 0"

fun watch_rank :: "watcher_pc \<Rightarrow> nat" where
  "watch_rank WatchSelect = 2"
| "watch_rank WatchHolding = 1"
| "watch_rank WatchDone = 0"

definition conn_rank :: "conn_sys \<Rightarrow> nat" where
  "conn_rank s =
     main_rank (mainPc s) + watch_rank (watchPc s) + of_bool (running s ToRemote) + of_bool (running s ToServer)
     + of_bool (\<not> rootDone s)"

lemma pipe_done_rank: "running s d \<Longrightarrow> conn_rank (pipe_done d s) < conn_rank s"
  by (cases d) (simp_all add: conn_rank_def pipe_done_def)

lemma env_step_rank: "env_step s t \<Longrightarrow> conn_rank t < conn_rank s"
proof (induction rule: env_step.induct)
  case (pipe_fails_first s d)
  then show ?case by (cases d) (simp_all add: conn_rank_def pipe_done_def)
next
  case (root_cancel s)
  then show ?case by (simp add: conn_rank_def)
qed (rule pipe_done_rank, assumption)+

lemma prog_step_rank: "prog_step s t \<Longrightarrow> conn_rank t < conn_rank s"
proof (induction rule: prog_step.induct)
  case (pipe_unblocked s d)
  then show ?case by (simp add: pipe_done_rank)
qed (simp_all add: conn_rank_def)

lemma conn_rank_bound: "conn_rank s \<le> 9"
  by (cases "mainPc s"; cases "watchPc s") (simp_all add: conn_rank_def)

lemma conn_step_triggered: "conn_step s t \<Longrightarrow> triggered s \<Longrightarrow> triggered t"
  by (auto simp: conn_step_def triggered_def pipe_done_def elim!: env_step.cases prog_step.cases)

lemma not_stuck_before_return:
  assumes "conn_inv s" "triggered s" "mainPc s \<noteq> MainReturned"
  shows "\<exists>t. prog_step s t"
proof (cases "mainPc s")
  case MainSelect
  show ?thesis
  proof (cases "rootDone s")
    case True
    with MainSelect show ?thesis by (blast intro: main_root)
  next
    case False
    then have "once s" using assms(2) by (simp add: triggered_def)
    with assms(1) MainSelect have "0 < signalBuf s \<or> watchPc s = WatchHolding"
      by (simp add: conn_inv_def one_signal_def in_order_def split: if_splits)
    with MainSelect show ?thesis by (blast intro: main_signal watch_resend)
  qed
qed (use assms in \<open>auto intro: prog_step.intros\<close>)

lemma not_stuck_after_return:
  assumes "conn_inv s" "mainPc s = MainReturned" "\<not> torn_down s"
  shows "\<exists>t. prog_step s t"
proof -
  have closed: "connDone s" "\<not> serverOpen s" "\<not> remoteOpen s" using assms(1,2) by (simp_all add: conn_inv_def in_order_def)
  with assms(2,3) consider "watchPc s = WatchSelect" | "watchPc s = WatchHolding" | d where "running s d"
    by (cases "watchPc s") (auto simp: torn_down_def)
  then show ?thesis using closed by cases (blast intro: watch_ctx watch_resend pipe_unblocked)+
qed

lemma not_stuck_triggered: "conn_inv s \<Longrightarrow> triggered s \<Longrightarrow> \<not> torn_down s \<Longrightarrow> \<exists>t. prog_step s t"
  using not_stuck_before_return not_stuck_after_return by blast

interpretation shutdown: progress_system conn_step "\<lambda>s. conn_inv s \<and> triggered s" torn_down conn_rank
proof unfold_locales
  show "conn_rank t < conn_rank s" if "conn_inv s \<and> triggered s" "conn_step s t" for s t
    using that by (auto simp: conn_step_def intro: env_step_rank prog_step_rank)
  show "\<exists>t. conn_step s t" if "conn_inv s \<and> triggered s" "\<not> torn_down s" for s
    using that not_stuck_triggered by (auto simp: conn_step_def)
qed (auto intro: conn_step_inv conn_step_triggered)

text \<open>
  C13. In every reachable state of a connection, under every interleaving: while no goroutine has run
  \<open>CloseOnce\<close>, the channel has room, so its send cannot block; and once it has run and \<open>Start\<close> still
  waits, the signal is not lost: it is in the buffer, or the watcher holds it and finds the buffer
  empty, so that its non-blocking re-send succeeds.
\<close>

theorem ErrorSignal_never_lost:
  assumes "reach conn_init conn_step s"
  shows "(\<not> once s \<longrightarrow> signalBuf s < chan_cap)
    \<and> (once s \<and> mainPc s = MainSelect \<longrightarrow>
        signalBuf s = chan_cap \<or> watchPc s = WatchHolding \<and> signalBuf s = 0)"
  using teardown.reach_inv [OF assms]
  by (simp add: conn_inv_def one_signal_def in_order_def chan_cap_def split: if_splits)

text \<open>The state a connection starts in, and a run in which the watcher takes the signal first.\<close>

definition fresh_conn :: conn_sys where
  "fresh_conn = \<lparr>signalBuf = 0, once = False, mainPc = MainSelect, watchPc = WatchSelect, running = (\<lambda>_. True),
     rootDone = False, connDone = False, serverOpen = True, remoteOpen = True, taken = False\<rparr>"

definition failed_conn :: conn_sys where
  "failed_conn = fresh_conn\<lparr>once := True, signalBuf := 1, running := (\<lambda>_. True)(ToServer := False)\<rparr>"

definition held_conn :: conn_sys where
  "held_conn = failed_conn\<lparr>watchPc := WatchHolding, signalBuf := 0\<rparr>"

lemma failed_conn_reachable: "reach conn_init conn_step failed_conn"
proof -
  have init: "reach conn_init conn_step fresh_conn"
    by (rule reach_init) (simp add: conn_init_def fresh_conn_def)
  have "env_step fresh_conn failed_conn"
    using pipe_fails_first [of fresh_conn ToServer]
    by (simp add: fresh_conn_def failed_conn_def pipe_done_def chan_cap_def)
  then show ?thesis using init reach_step conn_step_def by metis
qed

lemma held_conn_reachable: "reach conn_init conn_step held_conn"
proof -
  have "prog_step failed_conn held_conn"
    using watch_signal [of failed_conn] by (simp add: failed_conn_def fresh_conn_def held_conn_def)
  then show ?thesis using failed_conn_reachable reach_step conn_step_def by metis
qed

theorem ErrorSignal_never_lost_witness:
  "once held_conn \<and> mainPc held_conn = MainSelect \<and> watchPc held_conn = WatchHolding \<and> signalBuf held_conn = 0"
  using ErrorSignal_never_lost [OF held_conn_reachable]
  by (simp add: held_conn_def failed_conn_def fresh_conn_def chan_cap_def)

text \<open>
  C2. No goroutine and no socket leaks: from a reachable state in which a pipe has failed or the
  process is shutting down, every interleaving has at most nine steps, some interleaving reaches the
  torn-down state, and every interleaving that leaves the program no move has \<open>Start\<close>, the watcher
  and both pipes returned and both connections closed.
\<close>

theorem teardown_completes:
  assumes "reach conn_init conn_step s" and "triggered s"
  shows "(\<exists>t. conn_step\<^sup>*\<^sup>* s t \<and> torn_down t)
    \<and> (\<forall>n t. (conn_step ^^ n) s t \<longrightarrow> n \<le> 9 \<and> ((\<nexists>u. prog_step t u) \<longrightarrow> torn_down t))"
proof -
  have good: "conn_inv s \<and> triggered s" using teardown.reach_inv [OF assms(1)] assms(2) by simp
  have "n \<le> 9 \<and> ((\<nexists>u. prog_step t u) \<longrightarrow> torn_down t)" if run: "(conn_step ^^ n) s t" for n t
    using shutdown.run_bound [OF good run] conn_rank_bound [of s] not_stuck_triggered [of t]
      shutdown.good_steps [OF good relpowp_imp_rtranclp [OF run]] by auto
  then show ?thesis using shutdown.reaches_finished [OF good] by blast
qed

theorem teardown_completes_witness:
  "(\<exists>t. conn_step\<^sup>*\<^sup>* failed_conn t \<and> torn_down t) \<and> (\<nexists>t. (conn_step ^^ 10) failed_conn t)"
proof -
  have "triggered failed_conn" by (simp add: triggered_def failed_conn_def)
  from teardown_completes [OF failed_conn_reachable this]
  have fin: "\<exists>t. conn_step\<^sup>*\<^sup>* failed_conn t \<and> torn_down t"
    and bound: "(conn_step ^^ n) failed_conn t \<Longrightarrow> n \<le> 9" for n t by blast+
  from bound [of 10] have "\<nexists>t. (conn_step ^^ 10) failed_conn t" by force
  with fin show ?thesis by blast
qed

end
