(* ===== verification/Http_Transport.thy ===== *)
theory Http_Transport
  imports Tcp_Pipe "HOL-Library.Sublist"
begin

text \<open>
  \<open>internal/proxy/http.go\<close>: the counting transport of the HTTP mode. A body is a reader: the chunks that
  successive reads return (a chunk that does not fit the buffer is returned in parts) and the error that
  ends them. As \<open>io.Reader\<close> allows and the bodies of \<open>net/http\<close> do, the error may come in the same read as
  the last bytes; it is repeated by every later read, which is what the code relies on when it logs a
  prefix and ignores the error. \<open>RoundTrip\<close> wraps the request body and the response body so that the bytes
  read are added to the transport's counters when the body is closed.
\<close>

record reader =
  chunks :: "bytes list"
  final :: io_err
  together :: bool
  closeErr :: "io_err option"

text \<open>\<open>Read\<close> into a buffer of size \<open>k\<close>: the bytes, the error, the reader afterwards.\<close>

definition Read :: "nat \<Rightarrow> reader \<Rightarrow> (bytes \<times> io_err option) \<times> reader" where
  "Read k r =
     (case chunks r of
        [] \<Rightarrow> (([], Some (final r)), r)
      | c # cs \<Rightarrow>
          if length c \<le> k then ((c, if cs = [] \<and> together r then Some (final r) else None), r\<lparr>chunks := cs\<rparr>)
          else ((take k c, None), r\<lparr>chunks := drop k c # cs\<rparr>))"

record Transport =
  bytesTo :: u64
  bytesFrom :: u64
  showContent :: bool
  tcalls :: "metric_call list"

text \<open>\<open>countingReadCloser\<close>; its count is an \<open>int64\<close>, a machine word. Its callback updates the transport.\<close>

record countingReadCloser =
  src :: reader
  bytesRead :: u64
  onClose :: "(u64 \<Rightarrow> Transport \<Rightarrow> Transport) option"

definition counting :: "reader \<Rightarrow> (u64 \<Rightarrow> Transport \<Rightarrow> Transport) \<Rightarrow> countingReadCloser" where
  "counting r f = \<lparr>src = r, bytesRead = 0, onClose = Some f\<rparr>"

definition counting_Read :: "nat \<Rightarrow> countingReadCloser \<Rightarrow> (bytes \<times> io_err option) \<times> countingReadCloser" where
  "counting_Read k c =
     (let ((b, e), r) = Read k (src c) in
      ((b, e), c\<lparr>src := r, bytesRead := bytesRead c + word_of_nat (length b)\<rparr>))"

definition counting_Close :: "countingReadCloser \<Rightarrow> Transport \<Rightarrow> io_err option \<times> Transport" where
  "counting_Close c t =
     (closeErr (src c), case onClose c of None \<Rightarrow> t | Some f \<Rightarrow> f (bytesRead c) t)"

text \<open>A consumer that reads with the given buffer sizes: what it has got, and the reader afterwards.\<close>

fun consume :: "nat list \<Rightarrow> countingReadCloser \<Rightarrow> bytes \<times> countingReadCloser" where
  "consume [] c = ([], c)"
| "consume (k # ks) c =
     (let ((b, e), c') = counting_Read k c; (bs, c'') = consume ks c' in (b @ bs, c''))"

text \<open>The two \<open>onClose\<close> callbacks.\<close>

definition onClose_to :: "bool \<Rightarrow> u64 \<Rightarrow> Transport \<Rightarrow> Transport" where
  "onClose_to en n t =
     t\<lparr>bytesTo := bytesTo t + n, tcalls := tcalls t @ when_enabled en [BytesSentTotal_Add (unat n)]\<rparr>"

definition onClose_from :: "bool \<Rightarrow> u64 \<Rightarrow> Transport \<Rightarrow> Transport" where
  "onClose_from en n t =
     t\<lparr>bytesFrom := bytesFrom t + n, tcalls := tcalls t @ when_enabled en [BytesReceivedTotal_Add (unat n)]\<rparr>"

definition maxLoggedBytes :: nat where
  "maxLoggedBytes = 64 * 1024"

text \<open>\<open>io.ReadAll(io.LimitReader(body, n))\<close>: the prefix and what is left of the body.\<close>

fun read_limited :: "nat \<Rightarrow> bytes list \<Rightarrow> bytes \<times> bytes list" where
  "read_limited n [] = ([], [])"
| "read_limited n (c # cs) =
     (if n = 0 then ([], c # cs)
      else if length c \<le> n then (let (p, rest) = read_limited (n - length c) cs in (c @ p, rest))
      else (take n c, drop n c # cs))"

text \<open>
  \<open>io.MultiReader(bytes.NewReader(prefix), original)\<close>, closed through \<open>original\<close>. The prefix comes without an
  error, and \<open>MultiReader\<close> hands on the bytes that the last reader returns with \<open>io.EOF\<close> without that error,
  which comes with the next read.
\<close>

definition multi_reader :: "bytes \<Rightarrow> reader \<Rightarrow> reader" where
  "multi_reader pre r =
     r\<lparr>chunks := (if pre = [] then [] else [pre]) @ chunks r,
       together := together r \<and> chunks r \<noteq> [] \<and> final r \<noteq> EOF\<rparr>"

definition log_prefix :: "reader \<Rightarrow> bytes \<times> reader" where
  "log_prefix r =
     (let (p, rest) = read_limited maxLoggedBytes (chunks r) in (p, r\<lparr>chunks := rest\<rparr>))"

text \<open>
  \<open>RoundTrip\<close>: \<open>reqBody\<close> is the request body, if there is one, with the reads that the underlying
  transport makes before it closes it; \<open>inner\<close> is the outcome of the underlying round trip. The body of the
  response is returned open.
\<close>

definition RoundTrip ::
  "bool \<Rightarrow> Transport \<Rightarrow> (reader \<times> nat list) option \<Rightarrow> io_err + reader \<Rightarrow> (io_err + countingReadCloser) \<times> Transport" where
  "RoundTrip en t reqBody inner =
     (let t = (case reqBody of
                 None \<Rightarrow> t
               | Some (r, ks) \<Rightarrow> snd (counting_Close (snd (consume ks (counting r (onClose_to en)))) t))
      in case inner of
           Inl e \<Rightarrow> (Inl e, t\<lparr>tcalls := tcalls t @ when_enabled en [ErrorsTotal_Inc ''http'']\<rparr>)
         | Inr body \<Rightarrow>
             if showContent t
             then (let (pre, original) = log_prefix body
                   in (Inr (counting (multi_reader pre original) (onClose_from en)), t))
             else (Inr (counting body (onClose_from en)), t))"

section \<open>Bodies\<close>

definition body_of :: "reader \<Rightarrow> bytes" where
  "body_of r = concat (chunks r)"

lemma read_limited_concat: "fst (read_limited n cs) @ concat (snd (read_limited n cs)) = concat cs"
  by (induction n cs rule: read_limited.induct) (auto simp: Let_def case_prod_unfold)

lemma read_limited_length: "length (fst (read_limited n cs)) \<le> n"
  by (induction n cs rule: read_limited.induct) (auto simp: Let_def case_prod_unfold)

lemma Read_body:
  assumes "Read k r = ((b, e), r')"
  shows "b @ body_of r' = body_of r" "final r' = final r" "closeErr r' = closeErr r"
    "e \<noteq> None \<Longrightarrow> e = Some (final r) \<and> body_of r' = []"
  using assms by (auto simp: Read_def body_of_def simp flip: append_assoc split: list.splits if_splits)

text \<open>Reading and counting go together, whatever comes with the bytes.\<close>

lemma counting_Read_spec:
  assumes "counting_Read k c = ((b, e), c')"
  shows "b @ body_of (src c') = body_of (src c)" "final (src c') = final (src c)" "closeErr (src c') = closeErr (src c)"
    "onClose c' = onClose c" "bytesRead c' = bytesRead c + word_of_nat (length b)"
    "e \<noteq> None \<Longrightarrow> e = Some (final (src c)) \<and> body_of (src c') = []"
proof -
  obtain r where r: "Read k (src c) = ((b, e), r)" "c' = c\<lparr>src := r, bytesRead := bytesRead c + word_of_nat (length b)\<rparr>"
    using assms by (auto simp: counting_Read_def Let_def case_prod_unfold prod_eq_iff)
  from Read_body [OF r(1)] r(2)
  show "b @ body_of (src c') = body_of (src c)" "final (src c') = final (src c)" "closeErr (src c') = closeErr (src c)"
    "onClose c' = onClose c" "bytesRead c' = bytesRead c + word_of_nat (length b)"
    "e \<noteq> None \<Longrightarrow> e = Some (final (src c)) \<and> body_of (src c') = []"
    by simp_all
qed

lemma consume_spec:
  assumes "consume ks c = (bs, c')"
  shows "bs @ body_of (src c') = body_of (src c) \<and> final (src c') = final (src c) \<and> closeErr (src c') = closeErr (src c)
    \<and> onClose c' = onClose c \<and> bytesRead c' = bytesRead c + word_of_nat (length bs)"
  using assms
proof (induction ks arbitrary: c bs c')
  case (Cons k ks)
  obtain b e c1 where r: "counting_Read k c = ((b, e), c1)" by (metis surj_pair)
  obtain bs' c2 where c2: "consume ks c1 = (bs', c2)" by (metis surj_pair)
  with Cons.prems r have "bs = b @ bs'" "c' = c2" by simp_all
  with Cons.IH [OF c2] counting_Read_spec [OF r] show ?case by (auto simp: add.assoc)
qed simp

lemma log_prefix_body:
  "body_of (multi_reader (fst (log_prefix r)) (snd (log_prefix r))) = body_of r"
  "final (multi_reader (fst (log_prefix r)) (snd (log_prefix r))) = final r"
  "length (fst (log_prefix r)) \<le> maxLoggedBytes"
  using read_limited_concat [of maxLoggedBytes "chunks r"] read_limited_length [of maxLoggedBytes "chunks r"]
  by (auto simp: body_of_def multi_reader_def log_prefix_def Let_def case_prod_unfold)

lemma log_prefix_close: "closeErr (multi_reader (fst (log_prefix r)) (snd (log_prefix r))) = closeErr r"
  by (simp add: multi_reader_def log_prefix_def Let_def case_prod_unfold)

lemma RoundTrip_response:
  "RoundTrip en t reqBody (Inr body) = (Inr c, t') \<Longrightarrow>
   body_of (src c) = body_of body \<and> final (src c) = final body \<and> bytesRead c = 0
   \<and> closeErr (src c) = closeErr body \<and> onClose c = Some (onClose_from en)"
  by (auto simp: RoundTrip_def counting_def log_prefix_body log_prefix_close Let_def case_prod_unfold split: if_splits)

text \<open>
  C25. The transport never alters a response: whether or not content logging is on, the body handed to
  the client has the bytes of the backend's body, in order, and ends with the same error; and no more than
  the logging limit is held in memory.
\<close>

theorem RoundTrip_body_preserved:
  assumes "RoundTrip en t reqBody (Inr body) = (Inr c, t')"
  shows "body_of (src c) = body_of body \<and> final (src c) = final body \<and> bytesRead c = 0
    \<and> length (fst (log_prefix body)) \<le> maxLoggedBytes"
  using RoundTrip_response [OF assms] log_prefix_body(3) by blast

theorem RoundTrip_body_preserved_witness:
  "let body = \<lparr>chunks = [[1, 2], [3]], final = EOF, together = True, closeErr = None\<rparr>;
       t = \<lparr>bytesTo = 0, bytesFrom = 0, showContent = True, tcalls = []\<rparr>
   in \<exists>c. fst (RoundTrip True t None (Inr body)) = Inr c \<and> body_of (src c) = [1, 2, 3]"
proof -
  let ?body = "\<lparr>chunks = [[1, 2], [3]], final = EOF, together = True, closeErr = None\<rparr>"
  let ?t = "\<lparr>bytesTo = 0, bytesFrom = 0, showContent = True, tcalls = []\<rparr>"
  obtain c where c: "RoundTrip True ?t None (Inr ?body) = (Inr c, ?t)"
    by (simp add: RoundTrip_def Let_def case_prod_unfold)
  from RoundTrip_body_preserved [OF c] c show ?thesis by (simp add: body_of_def Let_def)
qed

text \<open>
  C24. Traffic accounting of the HTTP mode: a consumer that reads the response body with any buffer sizes
  gets a prefix of the backend's body, and when it closes the body then, the received counter, and the
  metric if enabled, grow by exactly the number of bytes it got; in content-logging mode nothing is counted
  twice. The first error it meets is the backend's and comes when the body is complete, the bytes of the
  same read included.
\<close>

theorem RoundTrip_counts_received:
  assumes "RoundTrip en t reqBody (Inr body) = (Inr c, t')" and "consume ks c = (bs, c')"
  shows "prefix bs (body_of body)
    \<and> counting_Close c' t' =
        (closeErr body,
         t'\<lparr>bytesFrom := bytesFrom t' + word_of_nat (length bs),
            tcalls := tcalls t' @ when_enabled en [BytesReceivedTotal_Add (length bs mod 2 ^ 64)]\<rparr>)
    \<and> (\<forall>k b e c''. counting_Read k c' = ((b, Some e), c'') \<longrightarrow> bs @ b = body_of body \<and> e = final body
         \<and> bytesRead c'' = word_of_nat (length (body_of body)))"
proof -
  from consume_spec [OF assms(2)] RoundTrip_response [OF assms(1)]
  have bs: "body_of body = bs @ body_of (src c')" "bytesRead c' = word_of_nat (length bs)"
      "final (src c') = final body" "closeErr (src c') = closeErr body" "onClose c' = Some (onClose_from en)"
    by simp_all
  have "bs @ b = body_of body \<and> e = final body \<and> bytesRead c'' = word_of_nat (length (body_of body))"
    if "counting_Read k c' = ((b, Some e), c'')" for k b e c''
    using counting_Read_spec [OF that] bs by simp
  with bs show ?thesis by (simp add: counting_Close_def onClose_from_def unat_of_nat)
qed

definition demo_transport :: Transport where
  "demo_transport = \<lparr>bytesTo = 0, bytesFrom = 7, showContent = True, tcalls = []\<rparr>"

definition demo_body :: reader where
  "demo_body = \<lparr>chunks = [[1, 2, 3], [4]], final = EOF, together = True, closeErr = None\<rparr>"

definition demo_response :: countingReadCloser where
  "demo_response = counting (multi_reader [1, 2, 3, 4] (demo_body\<lparr>chunks := []\<rparr>)) (onClose_from True)"

lemma demo_RoundTrip: "RoundTrip True demo_transport None (Inr demo_body) = (Inr demo_response, demo_transport)"
  by (simp add: RoundTrip_def demo_transport_def demo_body_def demo_response_def log_prefix_def maxLoggedBytes_def Let_def)

theorem RoundTrip_counts_received_witness:
  "bytesFrom (snd (counting_Close (snd (consume [2] demo_response)) demo_transport)) = 9"
proof -
  have "consume [2] demo_response = ([1, 2], snd (consume [2] demo_response))"
    by (simp add: demo_response_def counting_Read_def Read_def counting_def multi_reader_def demo_body_def)
  from RoundTrip_counts_received [OF demo_RoundTrip this] show ?thesis by (simp add: demo_transport_def)
qed

text \<open>
  A failed round trip gives the caller the error and no response, counts one HTTP error when metrics
  are enabled, and still counts the request bytes that were sent.
\<close>

theorem RoundTrip_error:
  assumes "consume ks (counting r (onClose_to en)) = (bs, c')"
  shows "RoundTrip en t (Some (r, ks)) (Inl e) =
    (Inl e, t\<lparr>bytesTo := bytesTo t + word_of_nat (length bs),
             tcalls := tcalls t @ when_enabled en [BytesSentTotal_Add (length bs mod 2 ^ 64), ErrorsTotal_Inc ''http'']\<rparr>)"
  using consume_spec [OF assms] assms
  by (cases en) (simp_all add: RoundTrip_def counting_Close_def onClose_to_def counting_def unat_of_nat)

theorem RoundTrip_error_witness:
  "RoundTrip True demo_transport (Some (demo_body, [2])) (Inl TimeoutErr) =
    (Inl TimeoutErr, demo_transport\<lparr>bytesTo := 2, tcalls := [BytesSentTotal_Add 2, ErrorsTotal_Inc ''http'']\<rparr>)"
proof -
  have "consume [2] (counting demo_body (onClose_to True)) = ([1, 2], snd (consume [2] (counting demo_body (onClose_to True))))"
    by (simp add: counting_Read_def Read_def counting_def demo_body_def)
  from RoundTrip_error [OF this, of demo_transport TimeoutErr] show ?thesis by (simp add: demo_transport_def)
qed

end
