(* ===== verification/Spec2Isabelle.thy ===== *)
theory Spec2Isabelle
  imports Serving Load_Scenario Config_Precedence Config_Combine Tcp_Teardown Cert_Watcher Http_Rewrite Http_Transport
begin

text \<open>
  \<^bold>\<open>tlspxy\<close>, a TLS-terminating reverse proxy for TCP and HTTP, and its load-test command.

  \<^bold>\<open>The program and its parts.\<close> \<open>main.go\<close> reads the configuration (\<open>internal/config\<close>: built-in defaults, YAML
  files, environment variables, command-line flags), validates it, configures logging, signals and
  metrics (\<open>internal/logging\<close>, \<open>internal/signal\<close>, \<open>internal/metrics\<close>), opens a listener, wraps it in TLS
  (\<open>internal/tls\<close>, with a certificate store that can be reloaded by a signal or by a file watcher) and then
  serves: in TCP mode it accepts connections and runs one \<open>proxy.TCPProxy\<close> for each, in HTTP mode it runs
  an \<open>http.Server\<close> around a reverse proxy with the program's own rewrite function, transport and health
  check (\<open>internal/proxy\<close>, \<open>internal/health\<close>). \<open>internal/loadtest\<close> and \<open>cmd/loadtest\<close> run the proxy against
  itself under load and report statistics.

  \<^bold>\<open>Conventions.\<close> Go strings are byte strings; \<open>int\<close> and durations are integers, fixed-width
  counters are words, so that their wrap-around is the machine's. An error result is the left side of
  a sum, a panic or an exit is a value of its own. What is not in the repository is an argument: the
  configuration store (record \<open>koanf\<close>, theory \<open>Koanf\<close>, with its documented laws in \<open>koanf_ok\<close> and an instance
  \<open>flat_store\<close> that satisfies them), the providers of YAML, environment and flags (\<open>providers\<close>), the
  operating system (\<open>os_env\<close>, \<open>main_env\<close>), the runtime's parsers and cipher tables (\<open>runtime\<close>), files and key
  pairs (\<open>tls_env\<close>), and for connections the outcome of every single call (\<open>pipe_env\<close>, \<open>start_env\<close>). The
  order in which Go ranges over a map and the results of the \<open>fsnotify\<close> calls are arguments as well. A body
  may return its last bytes together with its error or before it; that a body which has returned an error
  returns it again at the next read is assumed. Handlers for signals are registered while the signal mux runs. The
  functions of the Go standard library whose behaviour matters are modelled: \<open>Go_Strings\<close> (strings, fmt),
  \<open>Go_Net\<close> (IP addresses, host and port), \<open>Go_Path\<close> (filepath), \<open>Go_Float\<close> (float64 and its printing).

  \<^bold>\<open>Theories and sources.\<close>
  \<^item> \<open>Prelude\<close>, \<open>Transition\<close>: shared lemmas; reachability, and the locales \<open>invariant_system\<close> (an invariant
    kept by all steps holds in every reachable state) and \<open>progress_system\<close> (a system that can always move and
    whose rank falls comes to its goal) for the concurrent parts.
  \<^item> \<open>Proxy_Proto\<close>: \<open>proxy/proxyproto.go\<close>. Both headers byte for byte, with decoders written from the
    protocol's text; encoding is undone by decoding.
  \<^item> \<open>Tcp_Pipe\<close>, \<open>Tcp_Start\<close>, \<open>Tcp_Teardown\<close>: \<open>proxy/tcp.go\<close>. \<open>Pipe\<close> delivers a prefix of what it has read,
    counts it, and ends when its context is cancelled; \<open>Start\<close> dials only after the handshake, sends the PROXY
    header first and releases everything it took; the interleaving of \<open>Start\<close>, its watcher and two pipes never
    loses the error signal and always comes to an end.
  \<^item> \<open>Http_Rewrite\<close>, \<open>Http_Transport\<close>: \<open>proxy/rewrite.go\<close>, \<open>health/health.go\<close>, \<open>proxy/http.go\<close>. Identity headers,
    routing, the health check, and bodies that are passed on unchanged while being counted.
  \<^item> \<open>Conn_Limit\<close>: the limits and the drain of \<open>main.go\<close>, against the locale \<open>slot_limiter\<close>, which the
    limiter of the load-test harness for HTTP does not satisfy.
  \<^item> \<open>Koanf\<close>, \<open>Config_Tables\<close>, \<open>Config_Flags\<close>, \<open>Config_Load\<close>, \<open>Config_Precedence\<close>, \<open>Config_Validate\<close>,
    \<open>Config_Combine\<close>: \<open>config/config.go\<close> and \<open>config/defaults.go\<close>. The tables as they are and their agreement, the
    precedence of the layers, which files are read, an exact characterisation of valid configurations.
  \<^item> \<open>Tls_Versions\<close>, \<open>Tls_Config\<close>, \<open>Cert_Store\<close>, \<open>Cert_Watcher\<close>: \<open>internal/tls\<close>. No plaintext fallback, versions
    as configured, which roots verify the backend, what a handshake sees during a reload, and debouncing.
  \<^item> \<open>Metrics\<close>, \<open>Signal_Logging\<close>: \<open>internal/metrics\<close>, \<open>internal/signal\<close>, \<open>internal/logging\<close>.
  \<^item> \<open>Go_Runtime\<close>, \<open>Startup\<close>, \<open>Serving\<close>: \<open>main.go\<close>. From the arguments to an exit with its status or to a running
    server, and what that server does with a connection or a request.
  \<^item> \<open>Load_Stats\<close>, \<open>Load_Report\<close>, \<open>Load_Generator\<close>, \<open>Load_Harness\<close>, \<open>Load_Scenario\<close>: \<open>internal/loadtest\<close> and
    \<open>cmd/loadtest\<close>. Statistics that do not depend on how workers interleave, ordered percentiles, the
    accounting of the workers, setup and shutdown of the harness, and the exit status.
  \<^item> This theory: properties of the whole program.

  \<^bold>\<open>Interfaces.\<close> \<open>invariant_system\<close> is interpreted for the teardown of a connection, the accept loop, the HTTP
  hook, the signal mux and the watcher; \<open>progress_system\<close> for the teardown and the drain; \<open>slot_limiter\<close> for the
  TCP limit, the HTTP limit and the TCP limit of the harness; \<open>reloadable\<close> (what a client of a store with
  reload may rely on) for the certificate store.

  \<^bold>\<open>Bounds.\<close> \<open>Pipe\<close> is run for a given number of turns, and its exit is \<open>None\<close> while it is still running;
  safety is stated for every number of turns, and termination says that enough turns give an exit. The inner
  write loop terminates by a measure. The walk to the root of the file system in \<open>findCertDir\<close> is a
  \<open>partial_function\<close> whose \<open>None\<close> means that it does not return; it is proved to return. Finite doubles are the
  rationals they denote, and each operation rounds its exact result to 53 bits, ties to even; overflow,
  infinities and subnormals are outside, since counts and durations do not reach them.

  \<^bold>\<open>Not modelled.\<close> Log output and the content of error messages (errors are constructors); panics that
  are recovered; what \<open>http.Server\<close>, \<open>httputil.ReverseProxy\<close>, \<open>crypto/tls\<close>, \<open>fsnotify\<close>, \<open>autocert\<close>, Prometheus,
  the HTTP/2 packages and the JSON encoder do inside; the exit status of an \<open>http.Server\<close> that fails while
  serving and the 30 second bounds of shutdown; the echo backend of the harness and the HTTP client
  settings of the generator; the copy of the syslog setup for Darwin. Test files, build files and examples are
  not part of the model.
\<close>

section \<open>From configuration to a running proxy\<close>

lemma Running_validated:
  assumes "koanf_ok K" "main K W P R E args parsed = Running run"
  obtains k0 k where "valid_config K R k" "main_serve K R E k = Inr run"
    "load_config K W P args parsed = Inr k0" "ValidateConfig K R k0 = (None, k)"
  using assms by (elim main_Running) (auto dest: validated(3))

definition demo_start_runtime :: runtime where
  "demo_start_runtime = demo_runtime\<lparr>ParseDuration := (\<lambda>_. Inr 0)\<rparr>"

definition demo_cmdline :: flag_values where
  "demo_cmdline = [(''remote-addr'', ''b:1'', True), (''server-tls-cert'', ''c.crt'', True), (''server-tls-key'', ''c.key'', True),
     (''log-level'', ''warning'', True)]"

lemma demo_Running:
  obtains run where "main flat_store demo_os demo_providers demo_start_runtime demo_main_env [] demo_cmdline = Running run"
    "runListener run \<noteq> PlainListener" "runRemoteTLS run \<noteq> None" "runMode run = TcpMode ''b:1'' None"
proof -
  have "case main flat_store demo_os demo_providers demo_start_runtime demo_main_env [] demo_cmdline of
      Running run \<Rightarrow> runListener run \<noteq> PlainListener \<and> runRemoteTLS run \<noteq> None \<and> runMode run = TcpMode ''b:1'' None
    | Exited c r \<Rightarrow> False"
    by code_simp
  then show ?thesis using that by (auto split: main_outcome.splits)
qed

text \<open>
  C5. Startup fails closed: whenever the program reaches the state in which it serves, on whatever
  arguments, files, environment and system, the configuration it serves with is the one it has loaded
  from them, as validation returned it, and it is valid; its listener is plain exactly when that
  configuration asks for no server TLS, and never in the mode \<open>https\<close>; it speaks TLS to the backend
  whenever \<open>remote.tls.enable\<close> is set; and it skips the verification of the backend only when
  \<open>remote.tls.verify\<close> is off.
\<close>

theorem startup_fails_closed:
  assumes "koanf_ok K" and "main K W P R E args parsed = Running run"
  shows "\<exists>k0 k. load_config K W P args parsed = Inr k0 \<and> ValidateConfig K R k0 = (None, k)
    \<and> main_serve K R E k = Inr run \<and> valid_config K R k
    \<and> (runListener run = PlainListener \<longleftrightarrow> \<not> kBool K k ''server.tls.letsencrypt.enable''
          \<and> kString K k ''server.tls.cert'' = '''' \<and> kString K k ''server.tls.key'' = '''')
    \<and> (kString K k ''server.type'' = ''https'' \<longrightarrow> runListener run \<noteq> PlainListener)
    \<and> (kBool K k ''remote.tls.enable'' \<longrightarrow> runRemoteTLS run \<noteq> None)
    \<and> (\<forall>conf. runRemoteTLS run = Some conf \<longrightarrow> InsecureSkipVerify conf = (\<not> kBool K k ''remote.tls.verify''))"
  using assms
proof (cases rule: Running_validated)
  case (1 k0 k)
  note serve = 1
  from 1(2) show ?thesis
  proof (cases rule: main_serve_Inr)
    case (1 mh sh)
    note tls = main_listen_Inr [OF 1(2)]
    have plain: "runListener run = PlainListener \<longleftrightarrow> \<not> kBool K k ''server.tls.letsencrypt.enable''
        \<and> kString K k ''server.tls.cert'' = '''' \<and> kString K k ''server.tls.key'' = ''''"
      by (rule ConfigServer_listener [THEN conjunct1]) (use tls in blast)
    have "kString K k ''server.type'' = ''https'' \<longrightarrow> runListener run \<noteq> PlainListener"
      using plain serve(1) by (auto simp: valid_config_def valid_tls_def effective_type_def)
    moreover have "kBool K k ''remote.tls.enable'' \<longrightarrow> runRemoteTLS run \<noteq> None"
      using tls ConfigRemote_None [of K "suites R" "tlsEnv E" k] by metis
    moreover have "\<forall>conf. runRemoteTLS run = Some conf \<longrightarrow> InsecureSkipVerify conf = (\<not> kBool K k ''remote.tls.verify'')"
      using tls ConfigRemote_verified [of K "suites R" "tlsEnv E" k, THEN conjunct1] by metis
    ultimately show ?thesis using plain serve by (intro exI [of _ k0] exI [of _ k] conjI)
  qed
qed

theorem startup_fails_closed_witness:
  "\<exists>run k0 k. main flat_store demo_os demo_providers demo_start_runtime demo_main_env [] demo_cmdline = Running run
    \<and> load_config flat_store demo_os demo_providers [] demo_cmdline = Inr k0
    \<and> ValidateConfig flat_store demo_start_runtime k0 = (None, k) \<and> runListener run \<noteq> PlainListener
    \<and> (kBool flat_store k ''server.tls.letsencrypt.enable'' \<or> kString flat_store k ''server.tls.cert'' \<noteq> ''''
        \<or> kString flat_store k ''server.tls.key'' \<noteq> '''')"
proof (rule demo_Running)
  fix run
  assume run: "main flat_store demo_os demo_providers demo_start_runtime demo_main_env [] demo_cmdline = Running run"
    "runListener run \<noteq> PlainListener"
  from startup_fails_closed [OF flat_store_ok run(1)] run show ?thesis by blast
qed

text \<open>
  C38. The documented log level \<open>warning\<close> cannot be had: validation rewrites it to \<open>warn\<close>, which the logging
  setup does not know, so no running server, whatever its configuration, logs at the warning level.
\<close>

theorem warn_level_unreachable:
  assumes "koanf_ok K" and "main K W P R E args parsed = Running run"
  shows "fst (runLog run) \<noteq> LevelWarn"
  using assms(2)
proof (cases rule: main_Running)
  case (1 k k')
  have "kString K k' ''log.level'' \<noteq> ''warning''"
    by (rule normalized_log_level [OF assms(1) validated(1) [OF assms(1) 1(2)]])
  then have "level_of (kString K k' ''log.level'') \<noteq> LevelWarn" by (simp add: level_of_def)
  moreover have "fst (runLog run) = level_of (kString K k' ''log.level'')"
    using 1(4) by (auto simp: main_serve_def bind_res_eq_Inr Configure_def Let_def split: if_splits option.splits)
  ultimately show ?thesis by simp
qed

theorem warn_level_unreachable_witness:
  "\<exists>run. main flat_store demo_os demo_providers demo_start_runtime demo_main_env [] demo_cmdline = Running run
    \<and> (''log-level'', ''warning'', True) \<in> set demo_cmdline \<and> fst (runLog run) \<noteq> LevelWarn"
proof (rule demo_Running)
  fix run
  assume run: "main flat_store demo_os demo_providers demo_start_runtime demo_main_env [] demo_cmdline = Running run"
  from warn_level_unreachable [OF flat_store_ok run] run show ?thesis by (auto simp: demo_cmdline_def)
qed

text \<open>
  Signals of a running server: a hangup reloads the certificates, and does nothing else, exactly when
  there is a certificate store; no shutdown signal reloads them.
\<close>

theorem hangup_only_reloads:
  assumes "main K W P R E args parsed = Running run"
  shows "set (runHandlers run SIGHUP) = (if runStore run = None then {} else {ReloadCerts})
    \<and> ReloadCerts \<notin> set (runHandlers run Interrupt) \<union> set (runHandlers run SIGTERM)"
  using assms by (elim main_Running) (intro conjI main_serve_handlers)

theorem hangup_only_reloads_witness:
  "\<exists>run. main flat_store demo_os demo_providers demo_start_runtime demo_main_env [] demo_cmdline = Running run
    \<and> ReloadCerts \<notin> set (runHandlers run SIGTERM)"
proof (rule demo_Running)
  fix run
  assume run: "main flat_store demo_os demo_providers demo_start_runtime demo_main_env [] demo_cmdline = Running run"
  from hangup_only_reloads [OF run] run show ?thesis by auto
qed

end
